(* ===== verification/Prelude.thy ===== *)
theory Prelude
  imports Main "HOL-Library.Word" "HOL-Library.AList" "HOL-Library.Multiset"
begin

text \<open>
  Shared vocabulary of the development: the machine types of the crate, Rust's
  \<open>Result\<close>, the effectful computations that stand for an awaited future, the double-ended
  queue \<open>VecDeque\<close> as a list with its front at the head, and the generic lemmas on lists the
  components use.
\<close>

section \<open>Types\<close>

text \<open>
  A \<open>usize\<close> of the crate only ever counts elements of collections that live in memory, or is
  clamped to a small constant, so it is a natural number; ports are 16-bit words and bytes 8-bit
  words. A \<open>std::time::Duration\<close> is a number of nanoseconds and an \<open>Instant\<close> the number of
  nanoseconds since some fixed origin of the monotonic clock.
\<close>

type_synonym usize = nat
type_synonym u16 = "16 word"
type_synonym u8 = "8 word"
type_synonym duration = nat
type_synonym instant = nat
type_synonym ('a, 'e) result = "'e + 'a"

abbreviation Ok :: "'a \<Rightarrow> ('a, 'e) result" where
  "Ok \<equiv> Inr"

abbreviation Err :: "'e \<Rightarrow> ('a, 'e) result" where
  "Err \<equiv> Inl"

definition from_secs :: "nat \<Rightarrow> duration" where
  "from_secs n = n * 1000000000"

text \<open>
  \<open>Instant::elapsed\<close> read when the clock shows \<open>now\<close>: the standard library returns the zero
  duration when the instant is not in the past, which is what subtraction on naturals does.
\<close>

definition elapsed :: "instant \<Rightarrow> instant \<Rightarrow> duration" where
  "elapsed now t = now - t"

section \<open>Proof collections\<close>

named_theorems io_defs \<open>unfolding rules of the effect combinators\<close>
named_theorems deque_simps \<open>list equations of the double-ended queue\<close>

section \<open>Results\<close>

primrec res_map :: "('a \<Rightarrow> 'b) \<Rightarrow> ('a, 'e) result \<Rightarrow> ('b, 'e) result" where
  "res_map f (Inl e) = Inl e"
| "res_map f (Inr a) = Inr (f a)"

primrec res_map_err :: "('e \<Rightarrow> 'f) \<Rightarrow> ('a, 'e) result \<Rightarrow> ('a, 'f) result" where
  "res_map_err f (Inl e) = Inl (f e)"
| "res_map_err f (Inr a) = Inr a"

primrec ok_or :: "'e \<Rightarrow> 'a option \<Rightarrow> ('a, 'e) result" where
  "ok_or e None = Inl e"
| "ok_or e (Some a) = Inr a"

lemma res_map_eq_iff [simp]:
  "res_map f r = Inl e \<longleftrightarrow> r = Inl e"
  "res_map f r = Inr b \<longleftrightarrow> (\<exists>a. r = Inr a \<and> b = f a)"
  by (cases r; auto)+

lemma res_map_err_eq_iff [simp]:
  "res_map_err f r = Inl d \<longleftrightarrow> (\<exists>e. r = Inl e \<and> d = f e)"
  "res_map_err f r = Inr a \<longleftrightarrow> r = Inr a"
  by (cases r; auto)+

lemma ok_or_eq_iff [simp]:
  "ok_or e x = Inl d \<longleftrightarrow> x = None \<and> d = e"
  "ok_or e x = Inr a \<longleftrightarrow> x = Some a"
  by (cases x; auto)+

definition is_ok :: "('a, 'e) result \<Rightarrow> bool" where
  "is_ok r = (case r of Inl _ \<Rightarrow> False | Inr _ \<Rightarrow> True)"

section \<open>Effects\<close>

text \<open>
  An awaited future is a computation on the world \<open>'w\<close> (sockets, resolver, other tasks) that
  yields a result and the world afterwards. \<open>io_bind\<close> is the code's \<open>.await?\<close> followed by the
  rest of the function: an error returns early, the effects made so far stay.
\<close>

type_synonym ('w, 'a, 'e) io = "'w \<Rightarrow> ('a, 'e) result \<times> 'w"

definition io_return :: "'a \<Rightarrow> ('w, 'a, 'e) io" where
  [io_defs]: "io_return a w = (Inr a, w)"

definition io_throw :: "'e \<Rightarrow> ('w, 'a, 'e) io" where
  [io_defs]: "io_throw e w = (Inl e, w)"

definition io_bind :: "('w, 'a, 'e) io \<Rightarrow> ('a \<Rightarrow> ('w, 'b, 'e) io) \<Rightarrow> ('w, 'b, 'e) io" where
  [io_defs]: "io_bind m f w =
     (case m w of (Inl e, w') \<Rightarrow> (Inl e, w') | (Inr a, w') \<Rightarrow> f a w')"

definition io_map :: "('a \<Rightarrow> 'b) \<Rightarrow> ('w, 'a, 'e) io \<Rightarrow> ('w, 'b, 'e) io" where
  [io_defs]: "io_map f m w = (case m w of (r, w') \<Rightarrow> (res_map f r, w'))"

definition io_map_err :: "('e \<Rightarrow> 'f) \<Rightarrow> ('w, 'a, 'e) io \<Rightarrow> ('w, 'a, 'f) io" where
  [io_defs]: "io_map_err f m w = (case m w of (r, w') \<Rightarrow> (res_map_err f r, w'))"

definition io_of :: "('a, 'e) result \<Rightarrow> ('w, 'a, 'e) io" where
  [io_defs]: "io_of r w = (r, w)"

text \<open>A computation whose result the code throws away, as in \<open>let _ = ...\<close>.\<close>

definition io_ignore :: "('w, 'a, 'e) io \<Rightarrow> ('w, unit, 'f) io" where
  [io_defs]: "io_ignore m w = (case m w of (_, w') \<Rightarrow> (Inr (), w'))"

section \<open>The double-ended queue\<close>

fun pop_front :: "'a list \<Rightarrow> 'a option \<times> 'a list" where
  "pop_front [] = (None, [])"
| "pop_front (x # xs) = (Some x, xs)"

definition push_back :: "'a list \<Rightarrow> 'a \<Rightarrow> 'a list" where
  "push_back q x = q @ [x]"

text \<open>The loop \<open>for _ in 0..n { let _ = queue.pop_front(); }\<close>.\<close>

fun pop_front_n :: "nat \<Rightarrow> 'a list \<Rightarrow> 'a list" where
  "pop_front_n 0 q = q"
| "pop_front_n (Suc n) q = pop_front_n n (snd (pop_front q))"

definition retain :: "('a \<Rightarrow> bool) \<Rightarrow> 'a list \<Rightarrow> 'a list" where
  "retain P q = filter P q"

fun front :: "'a list \<Rightarrow> 'a option" where
  "front [] = None"
| "front (x # xs) = Some x"

text \<open>The last \<open>n\<close> elements: what an evicting queue of capacity \<open>n\<close> keeps.\<close>

definition last_n :: "nat \<Rightarrow> 'a list \<Rightarrow> 'a list" where
  "last_n n xs = drop (length xs - n) xs"

lemma pop_front_snd [simp, deque_simps]: "snd (pop_front q) = tl q"
  by (cases q) auto

lemma pop_front_fst [simp]: "fst (pop_front q) = front q"
  by (cases q) auto

lemma pop_front_n_drop [simp, deque_simps]: "pop_front_n n q = drop n q"
  by (induction n q rule: pop_front_n.induct) (auto simp: drop_Suc)

lemma length_push_back [simp, deque_simps]: "length (push_back q x) = Suc (length q)"
  by (simp add: push_back_def)

lemma set_push_back [simp]: "set (push_back q x) = insert x (set q)"
  by (auto simp: push_back_def)

lemma front_None_iff [simp]: "front q = None \<longleftrightarrow> q = []"
  by (cases q) auto

lemma front_SomeD: "front q = Some x \<Longrightarrow> x \<in> set q"
  by (cases q) auto

lemma front_hd: "q \<noteq> [] \<Longrightarrow> front q = Some (hd q)"
  by (cases q) auto

lemma length_last_n [simp]: "length (last_n n xs) = min n (length xs)"
  by (simp add: last_n_def)

lemma set_last_n_subset: "set (last_n n xs) \<subseteq> set xs"
  by (simp add: last_n_def set_drop_subset)

lemma last_n_all: "length xs \<le> n \<Longrightarrow> last_n n xs = xs"
  by (simp add: last_n_def)

lemma last_n_append_last_n: "last_n n (last_n n xs @ ys) = last_n n (xs @ ys)"
proof (cases "length xs \<le> n")
  case True
  then show ?thesis by (simp add: last_n_all)
next
  case False
  then show ?thesis by (simp add: last_n_def add.commute)
qed

lemma map_last_n: "map f (last_n n xs) = last_n n (map f xs)"
  by (simp add: last_n_def drop_map)

lemma count_list_last_n: "count_list (last_n n xs) x \<le> count_list xs x"
proof -
  have "count_list xs x = count_list (take (length xs - n) xs) x + count_list (last_n n xs) x"
    by (simp add: last_n_def flip: count_list_append)
  then show ?thesis by simp
qed

lemma count_list_remove1: "count_list (remove1 y xs) x = count_list xs x - (if x = y then 1 else 0)"
  by (induction xs) (auto simp: count_list_0_iff)

lemma sorted_last_n: "sorted xs \<Longrightarrow> sorted (last_n n xs)"
  by (simp add: last_n_def sorted_wrt_drop)

text \<open>In a list sorted by \<open>f\<close>, the elements below a bound are a prefix.\<close>

lemma filter_sorted_prefix:
  assumes "sorted (map f xs)" and "\<And>x y. f x \<le> f y \<Longrightarrow> P x \<Longrightarrow> P y"
  shows "filter P xs = dropWhile (\<lambda>x. \<not> P x) xs"
  using assms(1)
proof (induction xs)
  case Nil
  show ?case by simp
next
  case (Cons x xs)
  show ?case
  proof (cases "P x")
    case True
    with Cons.prems assms(2) have "\<forall>y \<in> set xs. P y" by auto
    then have "filter P xs = xs" by simp
    with True show ?thesis by simp
  next
    case False
    with Cons show ?thesis by simp
  qed
qed

lemma io_bind_return [simp]: "io_bind m io_return = m"
  by (auto simp: io_defs fun_eq_iff split: prod.splits sum.splits)

lemma io_bind_cases:
  "(\<And>e w'. m w = (Inl e, w') \<Longrightarrow> P (Inl e, w')) \<Longrightarrow>
   (\<And>a w'. m w = (Inr a, w') \<Longrightarrow> P (f a w')) \<Longrightarrow> P (io_bind m f w)"
  by (cases "m w"; cases "fst (m w)") (auto simp: io_bind_def)

end
