(* ===== verification/Streams.thy ===== *)
theory Streams
  imports Prelude
begin

text \<open>
  Sources of data that are drained in a loop: the payload decoders of HTTP/1.1, the bodies of
  requests and hyper's frames all have one operation that yields the next item, an error or the
  end. A source is a function on its own state; \<open>yields\<close> describes a run of it, and the loops of
  the components are characterised by such runs. Polls, the await of a poll function and the
  runs of awaited sources are here too.
\<close>

type_synonym ('s, 'a, 'e) source = "'s \<Rightarrow> ('a, 'e) result option \<times> 's"

inductive yields :: "('s, 'a, 'e) source \<Rightarrow> 's \<Rightarrow> 'a list \<Rightarrow> 's \<Rightarrow> bool" for nxt where
  nil: "yields nxt s [] s"
| cons: "nxt s = (Some (Inr x), s1) \<Longrightarrow> yields nxt s1 xs s2 \<Longrightarrow> yields nxt s (x # xs) s2"

text \<open>The two ways a run can stop: the end of the data, or an error after some data.\<close>

definition ends_with :: "('s, 'a, 'e) source \<Rightarrow> 's \<Rightarrow> 'a list \<Rightarrow> 's \<Rightarrow> bool" where
  "ends_with nxt s xs s' \<longleftrightarrow> (\<exists>s1. yields nxt s xs s1 \<and> nxt s1 = (None, s'))"

definition fails_with :: "('s, 'a, 'e) source \<Rightarrow> 's \<Rightarrow> 'a list \<Rightarrow> 'e \<Rightarrow> 's \<Rightarrow> bool" where
  "fails_with nxt s xs e s' \<longleftrightarrow> (\<exists>s1. yields nxt s xs s1 \<and> nxt s1 = (Some (Inl e), s'))"

inductive_cases yields_NilE: "yields nxt s [] s'"
inductive_cases yields_ConsE: "yields nxt s (x # xs) s'"
inductive_simps yields_Nil [simp]: "yields nxt s [] s'"
inductive_simps yields_Cons: "yields nxt s (x # xs) s'"

lemma ends_with_Nil [simp]: "ends_with nxt s [] s' \<longleftrightarrow> nxt s = (None, s')"
  by (simp add: ends_with_def)

lemma ends_with_Cons:
  "ends_with nxt s (x # xs) s' \<longleftrightarrow> (\<exists>s1. nxt s = (Some (Inr x), s1) \<and> ends_with nxt s1 xs s')"
  by (auto simp: ends_with_def yields_Cons)

lemma fails_with_Nil [simp]: "fails_with nxt s [] e s' \<longleftrightarrow> nxt s = (Some (Inl e), s')"
  by (simp add: fails_with_def)

lemma fails_with_Cons:
  "fails_with nxt s (x # xs) e s' \<longleftrightarrow> (\<exists>s1. nxt s = (Some (Inr x), s1) \<and> fails_with nxt s1 xs e s')"
  by (auto simp: fails_with_def yields_Cons)

section \<open>Polls\<close>

text \<open>
  One poll of a future, and the await of a future that is a poll function: the executor polls it
  again until it is ready. \<open>None\<close> is a future that never becomes ready. \<open>emits\<close> describes what
  comes out of an awaited operation called again and again, until the end or an error.
\<close>

datatype 'a task_poll = PReady 'a | PPending

primrec poll_map :: "('a \<Rightarrow> 'b) \<Rightarrow> 'a task_poll \<Rightarrow> 'b task_poll" where
  "poll_map f (PReady a) = PReady (f a)"
| "poll_map f PPending = PPending"

partial_function (option) poll_await :: "('s \<Rightarrow> 'a task_poll \<times> 's) \<Rightarrow> 's \<Rightarrow> ('a \<times> 's) option" where
  "poll_await poll s =
     (case poll s of
        (p, s') \<Rightarrow> (case p of PReady a \<Rightarrow> Some (a, s') | PPending \<Rightarrow> poll_await poll s'))"

lemma poll_await_ready: "poll s = (PReady a, s') \<Longrightarrow> poll_await poll s = Some (a, s')"
  by (simp add: poll_await.simps)

lemma poll_await_pending: "poll s = (PPending, s') \<Longrightarrow> poll_await poll s = poll_await poll s'"
  by (subst poll_await.simps) simp

type_synonym ('s, 'a, 'e) awaited_source = "'s \<Rightarrow> (('a, 'e) result option \<times> 's) option"

inductive emits :: "('s, 'a, 'e) awaited_source \<Rightarrow> 's \<Rightarrow> 'a list \<Rightarrow> 'e option \<Rightarrow> 's \<Rightarrow> bool" for nxt where
  stop: "nxt s = Some (None, s') \<Longrightarrow> emits nxt s [] None s'"
| fail: "nxt s = Some (Some (Inl e), s') \<Longrightarrow> emits nxt s [] (Some e) s'"
| item: "nxt s = Some (Some (Inr x), s1) \<Longrightarrow> emits nxt s1 xs r s' \<Longrightarrow> emits nxt s (x # xs) r s'"

text \<open>An awaited source has one behaviour at most.\<close>

lemma emits_unique: "emits nxt s xs r s' \<Longrightarrow> emits nxt s ys q s'' \<Longrightarrow> ys = xs \<and> q = r \<and> s'' = s'"
proof (induction arbitrary: ys rule: emits.induct)
  case (item s x s1 xs r s')
  from item.prems show ?case
    by (cases rule: emits.cases) (use item.hyps item.IH in auto)
qed (auto elim: emits.cases)

text \<open>Two states on which the next call agrees have the same runs.\<close>

lemma emits_cong: "nxt s = nxt t \<Longrightarrow> emits nxt s xs r s' \<longleftrightarrow> emits nxt t xs r s'"
  by (subst (1 2) emits.simps) simp

section \<open>Lists as sources\<close>

text \<open>A list as a source, ending with an error or with the end of the data: used at concrete inputs.\<close>

fun list_source :: "('a, 'e) result list \<Rightarrow> ('a, 'e) result option \<times> ('a, 'e) result list" where
  "list_source [] = (None, [])"
| "list_source (x # xs) = (Some x, xs)"

lemma list_source_ends: "ends_with list_source (map Inr xs) xs []"
  by (induction xs) (simp_all add: ends_with_Cons)

lemma list_source_fails: "fails_with list_source (map Inr xs @ Inl e # rest) xs e rest"
  by (induction xs) (simp_all add: fails_with_Cons)

end
