(* ===== verification/Std_Collections.thy ===== *)
theory Std_Collections
  imports Prelude
begin

text \<open>
  The part of \<open>std::collections::HashMap\<close> the crate uses. The map is an association list, so
  that it can be evaluated and its values summed; the order of the list carries no meaning and no
  theorem of the development depends on it. The locale \<open>hash_map_spec\<close> is the interface the pool
  relies on, stated over the lookup function, and its interpretation at the end of the theory
  shows that the list operations provide it.
\<close>

section \<open>Interface\<close>

locale hash_map_spec =
  fixes empty :: 'm
    and get :: "'m \<Rightarrow> 'k \<Rightarrow> 'v option"
    and ins :: "'k \<Rightarrow> 'v \<Rightarrow> 'm \<Rightarrow> 'm"
    and keep :: "('k \<Rightarrow> 'v \<Rightarrow> 'v \<times> bool) \<Rightarrow> 'm \<Rightarrow> 'm"
    and size_by :: "('v \<Rightarrow> nat) \<Rightarrow> 'm \<Rightarrow> nat"
    and invar :: "'m \<Rightarrow> bool"
  assumes get_empty: "get empty k = None"
    and get_ins: "get (ins k v m) k' = (if k' = k then Some v else get m k')"
    and get_keep: "invar m \<Longrightarrow> get (keep f m) k =
      (case get m k of None \<Rightarrow> None | Some v \<Rightarrow> if snd (f k v) then Some (fst (f k v)) else None)"
    and dom_finite: "finite {k. get m k \<noteq> None}"
    and size_by_sum: "invar m \<Longrightarrow> size_by w m =
      (\<Sum>k | get m k \<noteq> None. w (the (get m k)))"
    and invar_empty: "invar empty"
    and invar_ins: "invar m \<Longrightarrow> invar (ins k v m)"
    and invar_keep: "invar m \<Longrightarrow> invar (keep f m)"
begin

text \<open>\<open>entry(k).or_insert(v)\<close>, and the queue it yields.\<close>

definition entry_or :: "'k \<Rightarrow> 'v \<Rightarrow> 'm \<Rightarrow> 'v" where
  "entry_or k v m = (case get m k of None \<Rightarrow> v | Some x \<Rightarrow> x)"

lemma get_keep_Some:
  assumes "invar m" and "get (keep f m) k = Some v'"
  obtains v where "get m k = Some v" and "snd (f k v)" and "v' = fst (f k v)"
  using assms by (auto simp: get_keep split: option.splits if_splits)

lemma size_by_empty: "size_by w empty = 0"
  by (simp add: size_by_sum invar_empty get_empty)

lemma size_by_ins:
  assumes "invar m"
  shows "size_by w (ins k v m) + (case get m k of None \<Rightarrow> 0 | Some x \<Rightarrow> w x) = size_by w m + w v"
proof -
  let ?D = "{k. get m k \<noteq> None}"
  let ?g = "\<lambda>j. w (the (get (ins k v m) j))"
  have dom: "{j. get (ins k v m) j \<noteq> None} = insert k ?D"
    by (auto simp: get_ins)
  have "size_by w (ins k v m) = sum ?g (insert k ?D)"
    using size_by_sum [OF invar_ins [OF assms], of w k v] dom by simp
  also have "\<dots> = ?g k + sum ?g (?D - {k})"
    by (rule sum.insert_remove) (rule dom_finite)
  also have "sum ?g (?D - {k}) = (\<Sum>j \<in> ?D - {k}. w (the (get m j)))"
    by (rule sum.cong) (auto simp: get_ins)
  finally have new: "size_by w (ins k v m) = w v + (\<Sum>j \<in> ?D - {k}. w (the (get m j)))"
    by (simp add: get_ins)
  show ?thesis
  proof (cases "get m k")
    case None
    then have "?D - {k} = ?D" by auto
    with new None show ?thesis by (simp add: size_by_sum [OF assms])
  next
    case (Some x)
    then have "k \<in> ?D" by simp
    then have "size_by w m = w x + (\<Sum>j \<in> ?D - {k}. w (the (get m j)))"
      using sum.remove [OF dom_finite, of k m "\<lambda>j. w (the (get m j))"] Some
      by (simp add: size_by_sum [OF assms])
    with new Some show ?thesis by simp
  qed
qed

end

section \<open>The association list\<close>

type_synonym ('k, 'v) hash_map = "('k \<times> 'v) list"

definition hm_new :: "('k, 'v) hash_map" where
  "hm_new = []"

definition hm_get :: "('k, 'v) hash_map \<Rightarrow> 'k \<Rightarrow> 'v option" where
  "hm_get m k = map_of m k"

definition hm_insert :: "'k \<Rightarrow> 'v \<Rightarrow> ('k, 'v) hash_map \<Rightarrow> ('k, 'v) hash_map" where
  "hm_insert k v m = AList.update k v m"

text \<open>
  \<open>entry(k).or_insert(v)\<close> yields a reference to the value under \<open>k\<close>; the model returns the
  value, and the code's writes through the reference are an \<open>hm_insert\<close>.
\<close>

definition hm_or_insert :: "('k, 'v) hash_map \<Rightarrow> 'k \<Rightarrow> 'v \<Rightarrow> 'v" where
  "hm_or_insert m k v = (case hm_get m k of None \<Rightarrow> v | Some x \<Rightarrow> x)"

text \<open>\<open>HashMap::retain\<close>: the closure may change the value before it decides.\<close>

fun hm_retain :: "('k \<Rightarrow> 'v \<Rightarrow> 'v \<times> bool) \<Rightarrow> ('k, 'v) hash_map \<Rightarrow> ('k, 'v) hash_map" where
  "hm_retain f [] = []"
| "hm_retain f ((k, v) # m) =
     (if snd (f k v) then (k, fst (f k v)) # hm_retain f m else hm_retain f m)"

definition hm_sum :: "('v \<Rightarrow> nat) \<Rightarrow> ('k, 'v) hash_map \<Rightarrow> nat" where
  "hm_sum w m = sum_list (map (\<lambda>(_, v). w v) m)"

definition hm_inv :: "('k, 'v) hash_map \<Rightarrow> bool" where
  "hm_inv m = distinct (map fst m)"

lemma hm_retain_keys: "set (map fst (hm_retain f m)) \<subseteq> set (map fst m)"
  by (induction f m rule: hm_retain.induct) auto

lemma hm_dom: "{k. hm_get m k \<noteq> None} = fst ` set m"
  using dom_map_of_conv_image_fst [of m] by (simp add: hm_get_def dom_def)

lemma hm_inv_retain: "hm_inv m \<Longrightarrow> hm_inv (hm_retain f m)"
proof (induction f m rule: hm_retain.induct)
  case (2 f k v m)
  then show ?case
    using hm_retain_keys [of f m] by (auto simp: hm_inv_def)
qed (simp add: hm_inv_def)

lemma hm_get_retain: "hm_inv m \<Longrightarrow> hm_get (hm_retain f m) k =
  (case hm_get m k of None \<Rightarrow> None | Some v \<Rightarrow> if snd (f k v) then Some (fst (f k v)) else None)"
proof (induction f m rule: hm_retain.induct)
  case (2 f j v m)
  have "k = j \<Longrightarrow> map_of m k = None"
    using "2.prems" by (auto simp: hm_inv_def map_of_eq_None_iff)
  moreover have "k = j \<Longrightarrow> map_of (hm_retain f m) k = None"
    using "2.prems" hm_retain_keys [of f m] by (auto simp: hm_inv_def map_of_eq_None_iff)
  ultimately show ?case
    using "2.IH" "2.prems" by (auto simp: hm_inv_def hm_get_def)
qed (simp add: hm_get_def)

lemma hm_sum_dom: "hm_inv m \<Longrightarrow> hm_sum w m = (\<Sum>k | hm_get m k \<noteq> None. w (the (hm_get m k)))"
proof (induction m)
  case Nil
  show ?case by (simp add: hm_sum_def hm_get_def)
next
  case (Cons a m)
  obtain j v where a: "a = (j, v)" by (cases a)
  from Cons.prems a have j: "j \<notin> fst ` set m" and inv: "hm_inv m"
    by (auto simp: hm_inv_def)
  have dom: "{k. hm_get (a # m) k \<noteq> None} = insert j (fst ` set m)"
    unfolding hm_dom by (simp add: a)
  have "(\<Sum>k \<in> fst ` set m. w (the (hm_get (a # m) k))) = (\<Sum>k \<in> fst ` set m. w (the (hm_get m k)))"
    by (rule sum.cong) (use j in \<open>auto simp: hm_get_def a\<close>)
  then have "(\<Sum>k \<in> insert j (fst ` set m). w (the (hm_get (a # m) k))) = w v + hm_sum w m"
    using j Cons.IH [OF inv, unfolded hm_dom] by (simp add: hm_get_def a)
  then show ?case unfolding dom by (simp add: hm_sum_def a)
qed

interpretation hm: hash_map_spec hm_new hm_get hm_insert hm_retain hm_sum hm_inv
proof
  show "hm_get hm_new k = None" for k :: 'k
    by (simp add: hm_get_def hm_new_def)
  show "hm_get (hm_insert k v m) k' = (if k' = k then Some v else hm_get m k')" for k k' :: 'k and v :: 'v and m
    by (simp add: hm_get_def hm_insert_def update_conv)
  show "hm_inv m \<Longrightarrow> hm_get (hm_retain f m) k =
    (case hm_get m k of None \<Rightarrow> None | Some v \<Rightarrow> if snd (f k v) then Some (fst (f k v)) else None)"
    for m :: "('k, 'v) hash_map" and f k by (rule hm_get_retain)
  show "finite {k. hm_get m k \<noteq> None}" for m :: "('k, 'v) hash_map"
    using finite_dom_map_of [of m] by (simp add: hm_get_def dom_def)
  show "hm_inv m \<Longrightarrow> hm_sum w m = (\<Sum>k | hm_get m k \<noteq> None. w (the (hm_get m k)))"
    for m :: "('k, 'v) hash_map" and w by (rule hm_sum_dom)
  show "hm_inv (hm_new :: ('k, 'v) hash_map)" by (simp add: hm_inv_def hm_new_def)
  show "hm_inv m \<Longrightarrow> hm_inv (hm_insert k v m)" for m :: "('k, 'v) hash_map" and k v
    by (simp add: hm_inv_def hm_insert_def distinct_update)
  show "hm_inv m \<Longrightarrow> hm_inv (hm_retain f m)" for m :: "('k, 'v) hash_map" and f
    by (rule hm_inv_retain)
qed

lemmas hm_simps [simp] = hm.get_empty hm.get_ins hm.invar_empty hm.invar_ins hm.invar_keep

lemma hm_sum_retain_le:
  "(\<And>k v. w (fst (f k v)) \<le> w v) \<Longrightarrow> hm_sum w (hm_retain f m) \<le> hm_sum w m"
  by (induction f m rule: hm_retain.induct) (auto simp: hm_sum_def intro: add_mono le_add2 order_trans)

lemma hm_sum_member: "hm_get m k = Some v \<Longrightarrow> w v \<le> hm_sum w m"
  by (induction m) (auto simp: hm_get_def hm_sum_def split: if_splits)

end
