(* ===== verification/Pool.thy ===== *)
theory Pool
  imports Std_Collections
begin

text \<open>
  The contents of a connection pool, \<open>src/pool/mod.rs\<close>: \<open>Idle\<close>, \<open>PoolInner\<close> and what the
  public operations do to it. Sharing through \<open>Rc\<close> and \<open>Weak\<close> is added in the theory
  \<open>Shared_Pool\<close>; here every operation is a function from the pool to the changed pool. Operations
  that read the clock take the reading \<open>now\<close> as an argument.
\<close>

section \<open>Data\<close>

definition DEFAULT_KEEPALIVE_CONNS :: usize where
  "DEFAULT_KEEPALIVE_CONNS = 256"

definition MAX_KEEPALIVE_CONNS :: usize where
  "MAX_KEEPALIVE_CONNS = 16384"

record 'c Idle =
  conn :: 'c
  idle_at :: instant

record ('k, 'c) PoolInner =
  idle_conns :: "('k, 'c Idle list) hash_map"
  max_idle :: usize
  idle_dur :: "duration option"
  has_dropper :: bool

section \<open>Idle\<close>

definition Idle_new :: "instant \<Rightarrow> 'c \<Rightarrow> 'c Idle" where
  "Idle_new now io = \<lparr>conn = io, idle_at = now\<rparr>"

definition expired :: "instant \<Rightarrow> duration \<Rightarrow> 'c Idle \<Rightarrow> bool" where
  "expired now max_elapsed i \<longleftrightarrow> elapsed now (idle_at i) > max_elapsed"

definition expired_opt :: "instant \<Rightarrow> duration option \<Rightarrow> 'c Idle \<Rightarrow> bool" where
  "expired_opt now max_elapsed i =
     (case max_elapsed of Some e \<Rightarrow> elapsed now (idle_at i) > e | None \<Rightarrow> False)"

definition reset_idle :: "instant \<Rightarrow> 'c Idle \<Rightarrow> 'c Idle" where
  "reset_idle now i = i\<lparr>idle_at := now\<rparr>"

section \<open>PoolInner\<close>

text \<open>\<open>max_idle.map(|n| n.min(MAX_KEEPALIVE_CONNS)).unwrap_or(DEFAULT_KEEPALIVE_CONNS)\<close>\<close>

definition clamp_max_idle :: "usize option \<Rightarrow> usize" where
  "clamp_max_idle m =
     (case map_option (\<lambda>n. min n MAX_KEEPALIVE_CONNS) m of
        Some n \<Rightarrow> n
      | None \<Rightarrow> DEFAULT_KEEPALIVE_CONNS)"

definition new_with_dropper :: "usize option \<Rightarrow> ('k, 'c) PoolInner" where
  "new_with_dropper m =
     \<lparr>idle_conns = hm_new, max_idle = clamp_max_idle m, idle_dur = None, has_dropper = True\<rparr>"

definition PoolInner_new :: "usize option \<Rightarrow> ('k, 'c) PoolInner" where
  "PoolInner_new m =
     \<lparr>idle_conns = hm_new, max_idle = clamp_max_idle m, idle_dur = None, has_dropper = False\<rparr>"

definition clear_expired :: "instant \<Rightarrow> duration \<Rightarrow> ('k, 'c) PoolInner \<Rightarrow> ('k, 'c) PoolInner" where
  "clear_expired now dur p =
     p\<lparr>idle_conns := hm_retain
         (\<lambda>_ values. let values' = retain (\<lambda>entry. \<not> expired now dur entry) values
                     in (values', values' \<noteq> []))
         (idle_conns p)\<rparr>"

section \<open>The operations of ConnectionPool on the contents\<close>

definition queue_of :: "('k, 'c) PoolInner \<Rightarrow> 'k \<Rightarrow> 'c Idle list" where
  "queue_of p k = hm_or_insert (idle_conns p) k []"

definition set_queue :: "'k \<Rightarrow> 'c Idle list \<Rightarrow> ('k, 'c) PoolInner \<Rightarrow> ('k, 'c) PoolInner" where
  "set_queue k q p = p\<lparr>idle_conns := hm_insert k q (idle_conns p)\<rparr>"

text \<open>
  \<open>ConnectionPool::get\<close> with the feature \<open>time\<close>: the loop looks the key up again in every
  round and drops the front entry while it is expired.
\<close>

function pool_get :: "instant \<Rightarrow> 'k \<Rightarrow> ('k, 'c) PoolInner \<Rightarrow> 'c option \<times> ('k, 'c) PoolInner" where
  "pool_get now k p =
     (case hm_get (idle_conns p) k of
        Some v \<Rightarrow>
          (case v of
             idle # v' \<Rightarrow>
               if \<not> expired_opt now (idle_dur p) idle
               then (Some (conn idle), set_queue k v' p)
               else pool_get now k (set_queue k v' p)
           | [] \<Rightarrow> (None, p))
      | None \<Rightarrow> (None, p))"
  by pat_completeness auto
termination
  by (relation "measure (\<lambda>(now, k, p). case hm_get (idle_conns p) k of None \<Rightarrow> 0 | Some q \<Rightarrow> length q)")
    (auto simp: set_queue_def)

declare pool_get.simps [simp del]

text \<open>\<open>ConnectionPool::get\<close> without the feature \<open>time\<close>.\<close>

definition pool_get_untimed :: "'k \<Rightarrow> ('k, 'c) PoolInner \<Rightarrow> 'c option \<times> ('k, 'c) PoolInner" where
  "pool_get_untimed k p =
     (case hm_get (idle_conns p) k of
        Some v \<Rightarrow>
          (case pop_front v of
             (Some idle, v') \<Rightarrow> (Some (conn idle), set_queue k v' p)
           | (None, _) \<Rightarrow> (None, p))
      | None \<Rightarrow> (None, p))"

text \<open>
  The common body of \<open>put\<close> and of \<open>Pooled::drop\<close> after the length test: as many pops as the
  queue is over the limit, and one more.
\<close>

definition make_room :: "usize \<Rightarrow> 'a list \<Rightarrow> 'a list" where
  "make_room m q = snd (pop_front (pop_front_n (length q - m) q))"

definition pool_put :: "instant \<Rightarrow> 'k \<Rightarrow> 'c \<Rightarrow> ('k, 'c) PoolInner \<Rightarrow> ('k, 'c) PoolInner" where
  "pool_put now k c p =
     (let queue = hm_or_insert (idle_conns p) k [];
          queue = (if length queue > max_idle p then make_room (max_idle p) queue else queue)
      in set_queue k (push_back queue (Idle_new now c)) p)"

text \<open>The part of \<open>Pooled::drop\<close> that runs once the pool is upgraded and the key taken.\<close>

definition pool_release :: "instant \<Rightarrow> 'k \<Rightarrow> 'c \<Rightarrow> ('k, 'c) PoolInner \<Rightarrow> ('k, 'c) PoolInner" where
  "pool_release now k c p =
     (let queue = hm_or_insert (idle_conns p) k [];
          queue = (if length queue \<ge> max_idle p then make_room (max_idle p) queue else queue)
      in set_queue k (push_back queue (Idle_new now c)) p)"

text \<open>
  \<open>map_mut\<close> and \<open>and_then_mut\<close>: the closure gets the queue under the key, if there is one, and
  may change it.
\<close>

definition map_mut :: "'k \<Rightarrow> ('c Idle list \<Rightarrow> 'o \<times> 'c Idle list) \<Rightarrow> ('k, 'c) PoolInner
    \<Rightarrow> 'o option \<times> ('k, 'c) PoolInner" where
  "map_mut k f p =
     (case hm_get (idle_conns p) k of
        None \<Rightarrow> (None, p)
      | Some q \<Rightarrow> (case f q of (r, q') \<Rightarrow> (Some r, set_queue k q' p)))"

definition and_then_mut :: "'k \<Rightarrow> ('c Idle list \<Rightarrow> 'o option \<times> 'c Idle list) \<Rightarrow> ('k, 'c) PoolInner
    \<Rightarrow> 'o option \<times> ('k, 'c) PoolInner" where
  "and_then_mut k f p =
     (case hm_get (idle_conns p) k of
        None \<Rightarrow> (None, p)
      | Some q \<Rightarrow> (case f q of (r, q') \<Rightarrow> (r, set_queue k q' p)))"

definition get_idle_connection_count :: "('k, 'c) PoolInner \<Rightarrow> usize" where
  "get_idle_connection_count p = hm_sum length (idle_conns p)"

section \<open>Queues\<close>

lemma queue_of_set_queue [simp]:
  "queue_of (set_queue k q p) k' = (if k' = k then q else queue_of p k')"
  by (simp add: queue_of_def set_queue_def hm_or_insert_def)

lemma set_queue_fields [simp]:
  "max_idle (set_queue k q p) = max_idle p"
  "idle_dur (set_queue k q p) = idle_dur p"
  "has_dropper (set_queue k q p) = has_dropper p"
  "hm_inv (idle_conns p) \<Longrightarrow> hm_inv (idle_conns (set_queue k q p))"
  by (simp_all add: set_queue_def)

lemma hm_get_queue_of: "hm_get (idle_conns p) k = Some q \<Longrightarrow> queue_of p k = q"
  by (simp add: queue_of_def hm_or_insert_def)

lemma queue_of_new [simp]: "queue_of (PoolInner_new m) k = []" "queue_of (new_with_dropper m) k = []"
  by (simp_all add: queue_of_def hm_or_insert_def PoolInner_new_def new_with_dropper_def)

text \<open>What evicting and then appending leaves, for both limits.\<close>

lemma make_room_push:
  assumes "m \<le> length q"
  shows "make_room m q @ [x] = last_n (max (Suc 0) m) (q @ [x])"
proof -
  have room: "make_room m q = drop (Suc (length q - m)) q"
    by (simp add: make_room_def drop_Suc tl_drop)
  show ?thesis
  proof (cases m)
    case 0
    with room show ?thesis by (simp add: last_n_def)
  next
    case (Suc n)
    with assms have "Suc (length q - m) = length q - n" by simp
    with room Suc assms show ?thesis by (simp add: last_n_def)
  qed
qed

lemma release_queue:
  "queue_of (pool_release now k c p) k' =
     (if k' = k then last_n (max 1 (max_idle p)) (queue_of p k @ [Idle_new now c]) else queue_of p k')"
  by (auto simp: pool_release_def Let_def make_room_push push_back_def last_n_all
      simp flip: queue_of_def)

lemma put_queue:
  "queue_of (pool_put now k c p) k' =
     (if k' = k
      then (if max_idle p < length (queue_of p k)
            then last_n (max 1 (max_idle p)) (queue_of p k @ [Idle_new now c])
            else queue_of p k @ [Idle_new now c])
      else queue_of p k')"
  by (auto simp: pool_put_def Let_def make_room_push push_back_def simp flip: queue_of_def)

lemma release_fields [simp]:
  "max_idle (pool_release now k c p) = max_idle p"
  "idle_dur (pool_release now k c p) = idle_dur p"
  "hm_inv (idle_conns p) \<Longrightarrow> hm_inv (idle_conns (pool_release now k c p))"
  by (simp_all add: pool_release_def Let_def)

lemma put_fields [simp]:
  "max_idle (pool_put now k c p) = max_idle p"
  "idle_dur (pool_put now k c p) = idle_dur p"
  "hm_inv (idle_conns p) \<Longrightarrow> hm_inv (idle_conns (pool_put now k c p))"
  by (simp_all add: pool_put_def Let_def)

text \<open>The loop of \<open>get\<close> in closed form: the expired front entries go, the next one is served.\<close>

lemma get_result:
  "fst (pool_get now k p) =
     map_option conn (front (dropWhile (expired_opt now (idle_dur p)) (queue_of p k)))"
proof (induction now k p rule: pool_get.induct)
  case (1 now k p)
  then show ?case
    by (subst pool_get.simps)
      (auto simp: queue_of_def hm_or_insert_def set_queue_def split: option.splits list.splits)
qed

lemma get_queue:
  "queue_of (snd (pool_get now k p)) k' =
     (if k' = k then tl (dropWhile (expired_opt now (idle_dur p)) (queue_of p k)) else queue_of p k')"
proof (induction now k p rule: pool_get.induct)
  case (1 now k p)
  show ?case
  proof (cases "hm_get (idle_conns p) k")
    case None
    then show ?thesis
      by (subst pool_get.simps) (simp add: queue_of_def hm_or_insert_def)
  next
    case (Some v)
    with 1 show ?thesis
      by (subst pool_get.simps) (cases v, auto simp: hm_get_queue_of)
  qed
qed

lemma get_fields [simp]:
  "max_idle (snd (pool_get now k p)) = max_idle p"
  "idle_dur (snd (pool_get now k p)) = idle_dur p"
  "hm_inv (idle_conns p) \<Longrightarrow> hm_inv (idle_conns (snd (pool_get now k p)))"
proof -
  have "max_idle (snd (pool_get now k p)) = max_idle p
    \<and> idle_dur (snd (pool_get now k p)) = idle_dur p
    \<and> (hm_inv (idle_conns p) \<longrightarrow> hm_inv (idle_conns (snd (pool_get now k p))))"
  proof (induction now k p rule: pool_get.induct)
    case (1 now k p)
    then show ?case
      by (subst (1 2 3) pool_get.simps) (auto split: option.splits list.splits)
  qed
  then show "max_idle (snd (pool_get now k p)) = max_idle p"
    "idle_dur (snd (pool_get now k p)) = idle_dur p"
    "hm_inv (idle_conns p) \<Longrightarrow> hm_inv (idle_conns (snd (pool_get now k p)))" by blast+
qed

lemma clear_queue:
  "hm_inv (idle_conns p) \<Longrightarrow>
   queue_of (clear_expired now d p) k = filter (\<lambda>i. \<not> expired now d i) (queue_of p k)"
  by (auto simp: queue_of_def hm_or_insert_def clear_expired_def hm.get_keep retain_def Let_def
      split: option.splits)

lemma clear_no_empty:
  "hm_inv (idle_conns p) \<Longrightarrow> hm_get (idle_conns (clear_expired now d p)) k \<noteq> Some []"
  by (auto simp: clear_expired_def hm.get_keep retain_def Let_def split: option.splits)

lemma clear_fields [simp]:
  "max_idle (clear_expired now d p) = max_idle p"
  "idle_dur (clear_expired now d p) = idle_dur p"
  "hm_inv (idle_conns p) \<Longrightarrow> hm_inv (idle_conns (clear_expired now d p))"
  by (simp_all add: clear_expired_def)

lemma and_then_mut_queue:
  "queue_of (snd (and_then_mut k f p)) k' =
     (if k' = k \<and> hm_get (idle_conns p) k \<noteq> None then snd (f (queue_of p k)) else queue_of p k')"
  by (auto simp: and_then_mut_def hm_get_queue_of split: option.splits prod.splits)

lemma and_then_mut_result:
  "fst (and_then_mut k f p) =
     (if hm_get (idle_conns p) k \<noteq> None then fst (f (queue_of p k)) else None)"
  by (auto simp: and_then_mut_def hm_get_queue_of split: option.splits prod.splits)

lemma and_then_mut_fields [simp]:
  "max_idle (snd (and_then_mut k f p)) = max_idle p"
  "idle_dur (snd (and_then_mut k f p)) = idle_dur p"
  "hm_inv (idle_conns p) \<Longrightarrow> hm_inv (idle_conns (snd (and_then_mut k f p)))"
  by (auto simp: and_then_mut_def split: option.splits prod.splits)

lemma queue_of_absent: "hm_get (idle_conns p) k = None \<Longrightarrow> queue_of p k = []"
  by (simp add: queue_of_def hm_or_insert_def)

end
