(* ===== verification/Transition.thy ===== *)
theory Transition
  imports Main
begin

text \<open>
  Transition systems: the states a program can reach from its initial ones, and invariants. The locale
  \<open>invariant_system\<close> is the contract of an invariant, to hold initially and to survive every
  step; its interpretations are the systems of the components, in which several clients share
  pools, connectors and locks. The tasks of a single-threaded runtime are a record of the world
  they share and of the place at which each of them is suspended.
\<close>

section \<open>Reachable states\<close>

inductive reachable :: "('s \<Rightarrow> bool) \<Rightarrow> ('s \<Rightarrow> 's \<Rightarrow> bool) \<Rightarrow> 's \<Rightarrow> bool" for init step where
  reach_init: "init s \<Longrightarrow> reachable init step s"
| reach_step: "reachable init step s \<Longrightarrow> step s t \<Longrightarrow> reachable init step t"

lemma reachable_run: "step\<^sup>*\<^sup>* s t \<Longrightarrow> reachable init step s \<Longrightarrow> reachable init step t"
  by (induction rule: rtranclp_induct) (auto intro: reachable.reach_step)

locale invariant_system =
  fixes init :: "'s \<Rightarrow> bool"
    and step :: "'s \<Rightarrow> 's \<Rightarrow> bool"
    and inv :: "'s \<Rightarrow> bool"
  assumes inv_init: "init s \<Longrightarrow> inv s"
    and inv_step: "inv s \<Longrightarrow> step s t \<Longrightarrow> inv t"
begin

lemma inv_reachable: "reachable init step s \<Longrightarrow> inv s"
  by (induction rule: reachable.induct) (auto intro: inv_init inv_step)

lemma inv_run: "step\<^sup>*\<^sup>* s t \<Longrightarrow> inv s \<Longrightarrow> inv t"
  by (induction rule: rtranclp_induct) (auto intro: inv_step)

end

section \<open>Tasks\<close>

record ('w, 'pc) tasks =
  ts_world :: 'w
  ts_task :: "nat \<Rightarrow> 'pc"

text \<open>One task runs to its next await point: it moves to \<open>pc\<close> and leaves the world \<open>w\<close>.\<close>

definition ts_upd :: "nat \<Rightarrow> 'pc \<Rightarrow> 'w \<Rightarrow> ('w, 'pc) tasks \<Rightarrow> ('w, 'pc) tasks" where
  "ts_upd i pc w s = s\<lparr>ts_world := w, ts_task := (ts_task s)(i := pc)\<rparr>"

lemma ts_upd_simps [simp]:
  "ts_world (ts_upd i pc w s) = w"
  "ts_task (ts_upd i pc w s) j = (if j = i then pc else ts_task s j)"
  by (simp_all add: ts_upd_def)

lemma ts_upd_twice [simp]: "ts_upd i pc' w' (ts_upd i pc w s) = ts_upd i pc' w' s"
  by (simp add: ts_upd_def)

lemma ts_upd_world: "(ts_upd i pc w s)\<lparr>ts_world := w'\<rparr> = ts_upd i pc w' s"
  by (simp add: ts_upd_def)

end
