(* ===== verification/Pool_Spec.thy ===== *)
theory Pool_Spec
  imports Pool Transition
begin

text \<open>
  What the connection pool promises. The locale \<open>fifo_pool\<close> is the interface the connectors
  work against: per key a first-in-first-out queue of bounded length. The abstract machine
  \<open>spec_get\<close>, \<open>spec_release\<close> forgets time stamps and hashing; the pool of the theory \<open>Pool\<close>
  refines it, keeps its well-formedness invariant in every reachable state and never hands the
  same connection out twice.
\<close>

section \<open>Interface\<close>

locale fifo_pool =
  fixes fetch :: "instant \<Rightarrow> 'k \<Rightarrow> 'p \<Rightarrow> 'c option \<times> 'p"
    and give :: "instant \<Rightarrow> 'k \<Rightarrow> 'c \<Rightarrow> 'p \<Rightarrow> 'p"
    and queue :: "'p \<Rightarrow> 'k \<Rightarrow> 'c list"
    and cap :: "'p \<Rightarrow> nat"
    and invar :: "'p \<Rightarrow> bool"
  assumes fetch_result: "invar p \<Longrightarrow> fst (fetch t k p) = front (queue p k)"
    and fetch_queue: "invar p \<Longrightarrow>
      queue (snd (fetch t k p)) j = (if j = k then tl (queue p k) else queue p j)"
    and give_queue: "queue (give t k c p) j =
      (if j = k then last_n (max 1 (cap p)) (queue p k @ [c]) else queue p j)"
    and cap_fetch: "cap (snd (fetch t k p)) = cap p"
    and cap_give: "cap (give t k c p) = cap p"
    and invar_fetch: "invar p \<Longrightarrow> invar (snd (fetch t k p))"
    and invar_give: "invar p \<Longrightarrow> invar (give t k c p)"
begin

text \<open>A run of \<open>n\<close> fetches under one key, and a run of returns.\<close>

fun fetches :: "instant \<Rightarrow> nat \<Rightarrow> 'k \<Rightarrow> 'p \<Rightarrow> 'c option list \<times> 'p" where
  "fetches t 0 k p = ([], p)"
| "fetches t (Suc n) k p =
     (let r = fetch t k p; rs = fetches t n k (snd r) in (fst r # fst rs, snd rs))"

fun gives :: "instant \<Rightarrow> 'k \<Rightarrow> 'c list \<Rightarrow> 'p \<Rightarrow> 'p" where
  "gives t k [] p = p"
| "gives t k (c # cs) p = gives t k cs (give t k c p)"

lemma invar_gives: "invar p \<Longrightarrow> invar (gives t k cs p)"
  by (induction cs arbitrary: p) (auto simp: invar_give)

lemma cap_gives: "cap (gives t k cs p) = cap p"
  by (induction cs arbitrary: p) (auto simp: cap_give)

lemma gives_queue: "length (queue p k) \<le> max 1 (cap p) \<Longrightarrow>
  queue (gives t k cs p) k = last_n (max 1 (cap p)) (queue p k @ cs)"
proof (induction cs arbitrary: p)
  case Nil
  then show ?case by (simp add: last_n_all)
next
  case (Cons c cs)
  have "length (queue (give t k c p) k) \<le> max 1 (cap (give t k c p))"
    by (simp add: give_queue cap_give)
  from Cons.IH [OF this] show ?case
    by (simp add: give_queue cap_give last_n_append_last_n)
qed

lemma fetches_queue: "invar p \<Longrightarrow> n \<le> length (queue p k) \<Longrightarrow>
  fst (fetches t n k p) = map Some (take n (queue p k))"
proof (induction n arbitrary: p)
  case 0
  show ?case by simp
next
  case (Suc n)
  from Suc.prems obtain c cs where q: "queue p k = c # cs" by (cases "queue p k") auto
  with Suc.prems have "fst (fetches t n k (snd (fetch t k p))) = map Some (take n cs)"
    using Suc.IH [OF invar_fetch [OF Suc.prems(1)]] by (simp add: fetch_queue)
  with q Suc.prems(1) show ?case by (simp add: Let_def fetch_result)
qed

text \<open>
  Connections come back in the order in which they were returned, and when more are returned
  than fit, the oldest are gone.
\<close>

lemma fifo_order:
  assumes "invar p" and "queue p k = []"
  shows "fst (fetches t' (min (max 1 (cap p)) (length cs)) k (gives t k cs p)) =
    map Some (last_n (max 1 (cap p)) cs)"
proof -
  have q: "queue (gives t k cs p) k = last_n (max 1 (cap p)) cs"
    using gives_queue [of p k t cs] assms(2) by simp
  show ?thesis
    using fetches_queue [OF invar_gives [OF assms(1)], of _ t k cs k t'] by (simp add: q)
qed

lemma give_bound: "length (queue p j) \<le> max 1 (cap p) \<Longrightarrow>
  length (queue (give t k c p) j) \<le> max 1 (cap (give t k c p))"
  by (simp add: give_queue cap_give)

end

section \<open>The abstract pool\<close>

type_synonym ('k, 'c) pool_spec = "'k \<Rightarrow> 'c list"

definition spec_get :: "'k \<Rightarrow> ('k, 'c) pool_spec \<Rightarrow> 'c option \<times> ('k, 'c) pool_spec" where
  "spec_get k a = (front (a k), a(k := tl (a k)))"

definition spec_release :: "usize \<Rightarrow> 'k \<Rightarrow> 'c \<Rightarrow> ('k, 'c) pool_spec \<Rightarrow> ('k, 'c) pool_spec" where
  "spec_release m k c a = a(k := last_n (max 1 m) (a k @ [c]))"

definition pool_abs :: "('k, 'c) PoolInner \<Rightarrow> ('k, 'c) pool_spec" where
  "pool_abs p k = map conn (queue_of p k)"

section \<open>Well-formed pools\<close>

definition pool_wf :: "('k, 'c) PoolInner \<Rightarrow> bool" where
  "pool_wf p \<longleftrightarrow>
     hm_inv (idle_conns p) \<and> idle_dur p = None \<and> max_idle p \<le> MAX_KEEPALIVE_CONNS"

definition pool_inv :: "('k, 'c) PoolInner \<Rightarrow> bool" where
  "pool_inv p \<longleftrightarrow> pool_wf p \<and> (\<forall>k. length (queue_of p k) \<le> Suc (max_idle p))"

lemma clamp_le: "clamp_max_idle m \<le> MAX_KEEPALIVE_CONNS"
  by (cases m) (auto simp: clamp_max_idle_def MAX_KEEPALIVE_CONNS_def DEFAULT_KEEPALIVE_CONNS_def)

lemma clamp_simps [simp]: "clamp_max_idle None = 256" "clamp_max_idle (Some n) = min n 16384"
  by (simp_all add: clamp_max_idle_def MAX_KEEPALIVE_CONNS_def DEFAULT_KEEPALIVE_CONNS_def)

lemma max_idle_new [simp]:
  "max_idle (PoolInner_new m) = clamp_max_idle m" "max_idle (new_with_dropper m) = clamp_max_idle m"
  by (simp_all add: PoolInner_new_def new_with_dropper_def)

lemma idle_dur_new [simp]:
  "idle_dur (PoolInner_new m) = None" "idle_dur (new_with_dropper m) = None"
  by (simp_all add: PoolInner_new_def new_with_dropper_def)

lemma pool_wf_new [simp]: "pool_wf (PoolInner_new m)" "pool_wf (new_with_dropper m)"
  by (simp_all add: pool_wf_def clamp_le PoolInner_new_def new_with_dropper_def)

lemma pool_wf_ops [simp]:
  "pool_wf p \<Longrightarrow> pool_wf (snd (pool_get now k p))"
  "pool_wf p \<Longrightarrow> pool_wf (pool_put now k c p)"
  "pool_wf p \<Longrightarrow> pool_wf (pool_release now k c p)"
  "pool_wf p \<Longrightarrow> pool_wf (clear_expired now d p)"
  "pool_wf p \<Longrightarrow> pool_wf (snd (and_then_mut k f p))"
  by (simp_all add: pool_wf_def)

lemma expired_opt_None [simp]: "expired_opt now None = (\<lambda>_. False)"
  by (auto simp: expired_opt_def)

lemma dropWhile_False [simp]: "dropWhile (\<lambda>_. False) xs = xs"
  by (cases xs) auto

text \<open>In a well-formed pool the loop of \<open>get\<close> never skips an entry.\<close>

lemma get_result_wf: "pool_wf p \<Longrightarrow> fst (pool_get now k p) = front (pool_abs p k)"
  by (cases "queue_of p k") (auto simp: pool_wf_def get_result pool_abs_def)

lemma get_queue_wf:
  "pool_wf p \<Longrightarrow> pool_abs (snd (pool_get now k p)) j = (if j = k then tl (pool_abs p k) else pool_abs p j)"
  by (simp add: pool_wf_def get_queue pool_abs_def map_tl)

lemma release_queue_abs:
  "pool_abs (pool_release now k c p) j =
     (if j = k then last_n (max 1 (max_idle p)) (pool_abs p k @ [c]) else pool_abs p j)"
  by (simp add: pool_abs_def release_queue map_last_n Idle_new_def)

lemma pool_abs_new [simp]: "pool_abs (PoolInner_new m) k = []" "pool_abs (new_with_dropper m) k = []"
  by (simp_all add: pool_abs_def)

interpretation pool: fifo_pool pool_get pool_release pool_abs max_idle pool_wf
  by unfold_locales (simp_all add: get_result_wf get_queue_wf release_queue_abs)

section \<open>Reachable pools\<close>

text \<open>
  The states a pool can get into: created by one of the constructors, then any sequence of the
  operations of \<open>ConnectionPool\<close>, of \<open>Pooled::drop\<close> and of the idle task, each at its own clock
  reading. The closures given to \<open>and_then_mut\<close> in the crate drop entries and renew time stamps;
  they never add an entry.
\<close>

inductive pool_reach :: "('k, 'c) PoolInner \<Rightarrow> bool" where
  new: "pool_reach (PoolInner_new m)"
| new_dropper: "pool_reach (new_with_dropper m)"
| get: "pool_reach p \<Longrightarrow> pool_reach (snd (pool_get now k p))"
| put: "pool_reach p \<Longrightarrow> pool_reach (pool_put now k c p)"
| release: "pool_reach p \<Longrightarrow> pool_reach (pool_release now k c p)"
| clear: "pool_reach p \<Longrightarrow> pool_reach (clear_expired now d p)"
| closure: "pool_reach p \<Longrightarrow> (\<And>q. length (snd (f q)) \<le> length q) \<Longrightarrow>
    pool_reach (snd (and_then_mut k (f :: 'c Idle list \<Rightarrow> 'c option \<times> 'c Idle list) p))"

lemma pool_inv_new: "pool_inv (PoolInner_new m)" "pool_inv (new_with_dropper m)"
  by (simp_all add: pool_inv_def)

lemma pool_inv_get: "pool_inv p \<Longrightarrow> pool_inv (snd (pool_get now k p))"
  by (auto simp: pool_inv_def get_queue pool_wf_def le_diff_conv intro: le_SucI)

lemma pool_inv_put: "pool_inv p \<Longrightarrow> pool_inv (pool_put now k c p)"
  by (auto simp: pool_inv_def put_queue)

lemma pool_inv_release: "pool_inv p \<Longrightarrow> pool_inv (pool_release now k c p)"
  by (auto simp: pool_inv_def release_queue)

lemma pool_inv_clear: "pool_inv p \<Longrightarrow> pool_inv (clear_expired now d p)"
  by (auto simp: pool_inv_def clear_queue pool_wf_def intro: order_trans [OF length_filter_le])

lemma pool_inv_closure:
  "pool_inv p \<Longrightarrow> (\<And>q. length (snd (f q)) \<le> length q) \<Longrightarrow> pool_inv (snd (and_then_mut k f p))"
  by (auto simp: pool_inv_def and_then_mut_queue intro: order_trans)

lemmas pool_inv_ops =
  pool_inv_new pool_inv_get pool_inv_put pool_inv_release pool_inv_clear pool_inv_closure

section \<open>Ownership\<close>

text \<open>How often a connection occurs in the pool, over all keys.\<close>

definition conn_count :: "'c \<Rightarrow> ('k, 'c) PoolInner \<Rightarrow> nat" where
  "conn_count c p = hm_sum (\<lambda>q. count_list (map conn q) c) (idle_conns p)"

text \<open>
  A pool together with the connections that are out, wrapped in \<open>Pooled\<close> handles. A connection
  that enters is new: the transport opened it, so it is neither in the pool nor out.
\<close>

record ('k, 'c) pool_sys =
  sys_pool :: "('k, 'c) PoolInner"
  handed :: "'c list"

definition is_fresh :: "'c \<Rightarrow> ('k, 'c) pool_sys \<Rightarrow> bool" where
  "is_fresh c s \<longleftrightarrow> conn_count c (sys_pool s) = 0 \<and> c \<notin> set (handed s)"

inductive sys_step :: "('k, 'c) pool_sys \<Rightarrow> ('k, 'c) pool_sys \<Rightarrow> bool" where
  sys_link: "is_fresh c s \<Longrightarrow> sys_step s (s\<lparr>handed := c # handed s\<rparr>)"
| sys_put: "is_fresh c s \<Longrightarrow> sys_step s (s\<lparr>sys_pool := pool_put now k c (sys_pool s)\<rparr>)"
| sys_get: "pool_get now k (sys_pool s) = (Some c, p) \<Longrightarrow>
    sys_step s (s\<lparr>sys_pool := p, handed := c # handed s\<rparr>)"
| sys_miss: "pool_get now k (sys_pool s) = (None, p) \<Longrightarrow> sys_step s (s\<lparr>sys_pool := p\<rparr>)"
| sys_drop_open: "c \<in> set (handed s) \<Longrightarrow>
    sys_step s (s\<lparr>sys_pool := pool_release now k c (sys_pool s), handed := remove1 c (handed s)\<rparr>)"
| sys_drop_closed: "c \<in> set (handed s) \<Longrightarrow> sys_step s (s\<lparr>handed := remove1 c (handed s)\<rparr>)"
| sys_clear: "sys_step s (s\<lparr>sys_pool := clear_expired now d (sys_pool s)\<rparr>)"

definition sys_start :: "('k, 'c) pool_sys \<Rightarrow> bool" where
  "sys_start s \<longleftrightarrow> pool_wf (sys_pool s) \<and> (\<forall>k. queue_of (sys_pool s) k = []) \<and> handed s = []"

abbreviation sys_reach :: "('k, 'c) pool_sys \<Rightarrow> bool" where
  "sys_reach \<equiv> reachable sys_start sys_step"

definition sys_inv :: "('k, 'c) pool_sys \<Rightarrow> bool" where
  "sys_inv s \<longleftrightarrow> pool_wf (sys_pool s) \<and>
     (\<forall>c. conn_count c (sys_pool s) + count_list (handed s) c \<le> 1)"

lemma conn_count_set_queue:
  assumes "pool_wf p"
  shows "conn_count c (set_queue k q p) + count_list (pool_abs p k) c
    = conn_count c p + count_list (map conn q) c"
  using hm.size_by_ins [of "idle_conns p" "\<lambda>q. count_list (map conn q) c" k q] assms
  by (auto simp: pool_wf_def conn_count_def set_queue_def pool_abs_def queue_of_def hm_or_insert_def
      split: option.splits)

lemma get_wf: "pool_wf p \<Longrightarrow> pool_get now k p =
  (case queue_of p k of [] \<Rightarrow> (None, p) | i # q \<Rightarrow> (Some (conn i), set_queue k q p))"
  by (subst pool_get.simps)
    (auto simp: pool_wf_def queue_of_def hm_or_insert_def split: option.splits list.splits)

lemma release_set_queue:
  "pool_release now k c p =
     set_queue k (last_n (max 1 (max_idle p)) (queue_of p k @ [Idle_new now c])) p"
  by (auto simp: pool_release_def Let_def make_room_push push_back_def last_n_all
      simp flip: queue_of_def)

lemma put_set_queue:
  "pool_put now k c p = set_queue k (queue_of (pool_put now k c p) k) p"
  by (simp add: pool_put_def Let_def)

lemma conn_count_get:
  assumes "pool_wf p" and "pool_get now k p = (Some c, p')"
  shows "conn_count x p' + (if x = c then 1 else 0) = conn_count x p"
proof -
  from assms obtain i q where q: "queue_of p k = i # q" and c: "c = conn i" and p': "p' = set_queue k q p"
    by (auto simp: get_wf split: list.splits)
  with conn_count_set_queue [OF assms(1), of x k q] show ?thesis by (auto simp: pool_abs_def)
qed

lemma conn_count_give_le:
  assumes "pool_wf p" and "count_list (map conn q) x \<le> count_list (pool_abs p k @ [c]) x"
  shows "conn_count x (set_queue k q p) \<le> conn_count x p + (if x = c then 1 else 0)"
  using conn_count_set_queue [OF assms(1), of x k q] assms(2) by (auto split: if_splits)

lemma conn_count_release:
  assumes "pool_wf p"
  shows "conn_count x (pool_release now k c p) \<le> conn_count x p + (if x = c then 1 else 0)"
  unfolding release_set_queue
  by (rule conn_count_give_le [OF assms], unfold map_last_n, rule order_trans [OF count_list_last_n])
    (simp add: pool_abs_def Idle_new_def)

lemma conn_count_put:
  assumes "pool_wf p"
  shows "conn_count x (pool_put now k c p) \<le> conn_count x p + (if x = c then 1 else 0)"
proof -
  have "count_list (map conn (queue_of (pool_put now k c p) k)) x \<le> count_list (pool_abs p k @ [c]) x"
    using count_list_last_n [of _ "map conn (queue_of p k) @ [c]" x]
    by (auto simp: put_queue map_last_n pool_abs_def Idle_new_def)
  from conn_count_give_le [OF assms this] show ?thesis
    using put_set_queue [of now k c p] by simp
qed

lemma conn_count_clear: "conn_count x (clear_expired now d p) \<le> conn_count x p"
proof -
  have "count_list (map conn (filter P q)) x \<le> count_list (map conn q) x" for P and q :: "'a Idle list"
    by (induction q) auto
  then show ?thesis
    unfolding conn_count_def clear_expired_def
    by (simp, intro hm_sum_retain_le) (simp add: Let_def retain_def)
qed

lemma conn_count_member: "c \<in> set (pool_abs p k) \<Longrightarrow> 1 \<le> conn_count c p"
proof -
  assume c: "c \<in> set (pool_abs p k)"
  then have "hm_get (idle_conns p) k \<noteq> None" by (intro notI) (simp add: pool_abs_def queue_of_absent)
  then obtain q where q: "hm_get (idle_conns p) k = Some q" "pool_abs p k = map conn q"
    by (auto simp: pool_abs_def hm_get_queue_of)
  with c have "1 \<le> count_list (map conn q) c" by (metis Suc_leI count_list_0_iff One_nat_def neq0_conv)
  also have "\<dots> \<le> conn_count c p"
    unfolding conn_count_def by (rule hm_sum_member [OF q(1)])
  finally show ?thesis .
qed

lemma conn_count_empty:
  assumes "pool_wf p" and "\<And>k. queue_of p k = []"
  shows "conn_count c p = 0"
proof -
  have "count_list (map conn (the (hm_get (idle_conns p) k))) c = 0"
    if "hm_get (idle_conns p) k \<noteq> None" for k
    using that assms(2) [of k] by (auto simp: queue_of_def hm_or_insert_def)
  then show ?thesis
    using assms(1) by (simp add: conn_count_def pool_wf_def hm.size_by_sum)
qed

lemma sys_inv_le:
  assumes "sys_inv s" and "pool_wf (sys_pool t)"
    and "\<And>x. conn_count x (sys_pool t) + count_list (handed t) x
      \<le> conn_count x (sys_pool s) + count_list (handed s) x + (if x = c \<and> is_fresh c s then 1 else 0)"
  shows "sys_inv t"
  unfolding sys_inv_def
proof (intro conjI allI)
  fix x
  have "conn_count x (sys_pool s) + count_list (handed s) x \<le> 1"
    using assms(1) by (simp add: sys_inv_def)
  moreover have "is_fresh x s \<Longrightarrow> conn_count x (sys_pool s) + count_list (handed s) x = 0"
    by (simp add: is_fresh_def count_list_0_iff)
  ultimately show "conn_count x (sys_pool t) + count_list (handed t) x \<le> 1"
    using assms(3) [of x] by (auto split: if_splits)
qed (rule assms(2))

lemma sys_inv_step: "sys_step s t \<Longrightarrow> sys_inv s \<Longrightarrow> sys_inv t"
proof (induction rule: sys_step.induct)
  case (sys_link c s)
  then have "pool_wf (sys_pool s)" by (simp add: sys_inv_def)
  with sys_link.hyps show ?case
    by (auto intro!: sys_inv_le [OF sys_link.prems, where c = c])
next
  case (sys_put c s now k)
  then have "pool_wf (sys_pool s)" by (simp add: sys_inv_def)
  with sys_put.hyps conn_count_put [of "sys_pool s" _ now k c] show ?case
    by (auto intro!: sys_inv_le [OF sys_put.prems, where c = c] split: if_splits)
next
  case (sys_get now k s c p)
  then have wf: "pool_wf (sys_pool s)" by (simp add: sys_inv_def)
  have same: "conn_count x p + count_list (c # handed s) x
    = conn_count x (sys_pool s) + count_list (handed s) x" for x
    using conn_count_get [OF wf sys_get.hyps, of x] by auto
  have "pool_wf p"
    using pool_wf_ops(1) [OF wf, of now k] sys_get.hyps by simp
  with same show ?case
    by - (rule sys_inv_le [OF sys_get.prems, where c = c], simp_all del: count_list.simps)
next
  case (sys_miss now k s p)
  then show ?case by (auto simp: sys_inv_def get_wf split: list.splits)
next
  case (sys_drop_open c s now k)
  then have wf: "pool_wf (sys_pool s)" by (simp add: sys_inv_def)
  have "0 < count_list (handed s) c"
    using sys_drop_open.hyps by (metis count_list_0_iff neq0_conv)
  then have "conn_count x (pool_release now k c (sys_pool s)) + count_list (remove1 c (handed s)) x
    \<le> conn_count x (sys_pool s) + count_list (handed s) x" for x
    using conn_count_release [OF wf, of x now k c] by (auto simp: count_list_remove1 split: if_splits)
  with wf show ?case
    by - (rule sys_inv_le [OF sys_drop_open.prems, where c = c], simp_all add: trans_le_add1)
next
  case (sys_drop_closed c s)
  then have "pool_wf (sys_pool s)" by (simp add: sys_inv_def)
  then show ?case
    by (auto intro!: sys_inv_le [OF sys_drop_closed.prems, where c = c] simp: count_list_remove1)
next
  case (sys_clear s now d)
  then have "pool_wf (sys_pool s)" by (simp add: sys_inv_def)
  with conn_count_clear [of _ now d "sys_pool s"] show ?case
    by (auto intro!: sys_inv_le [OF sys_clear.prems, where c = undefined] intro: trans_le_add1)
qed

interpretation sys: invariant_system sys_start sys_step sys_inv
  by unfold_locales (simp add: sys_start_def sys_inv_def conn_count_empty, rule sys_inv_step)

lemmas sys_inv_reach = sys.inv_reachable

section \<open>Time stamps\<close>

text \<open>
  Entries of a queue are in the order in which they became idle, as long as nothing renews a time
  stamp in the middle (the hyper HTTP/2 connector does).
\<close>

definition stamps_sorted :: "instant \<Rightarrow> ('k, 'c) PoolInner \<Rightarrow> bool" where
  "stamps_sorted now p \<longleftrightarrow>
     (\<forall>k. sorted (map idle_at (queue_of p k)) \<and> (\<forall>i \<in> set (queue_of p k). idle_at i \<le> now))"

lemma sorted_snoc_stamp:
  "sorted (map idle_at q) \<Longrightarrow> (\<forall>i \<in> set q. idle_at i \<le> now) \<Longrightarrow> now \<le> now' \<Longrightarrow>
   sorted (map idle_at (q @ [Idle_new now' c])) \<and> (\<forall>i \<in> set (q @ [Idle_new now' c]). idle_at i \<le> now')"
  by (fastforce simp: sorted_append Idle_new_def)

lemma last_n_stamps:
  "sorted (map idle_at q) \<and> (\<forall>i \<in> set q. idle_at i \<le> now) \<Longrightarrow>
   sorted (map idle_at (last_n n q)) \<and> (\<forall>i \<in> set (last_n n q). idle_at i \<le> now)"
  using set_last_n_subset [of n q] by (auto simp: map_last_n sorted_last_n)

lemma stamps_sorted_new: "stamps_sorted now (PoolInner_new m)" "stamps_sorted now (new_with_dropper m)"
  by (simp_all add: stamps_sorted_def)

lemma stamps_sorted_give:
  assumes "stamps_sorted now p" and "now \<le> now'"
  shows "stamps_sorted now' (pool_release now' k c p)" and "stamps_sorted now' (pool_put now' k c p)"
proof -
  have old: "sorted (map idle_at (queue_of p j)) \<and> (\<forall>i \<in> set (queue_of p j). idle_at i \<le> now')" for j
    using assms by (fastforce simp: stamps_sorted_def)
  have new: "sorted (map idle_at (queue_of p k @ [Idle_new now' c]))
    \<and> (\<forall>i \<in> set (queue_of p k @ [Idle_new now' c]). idle_at i \<le> now')"
    using old [of k] sorted_snoc_stamp [of "queue_of p k" now' now' c] by simp
  show "stamps_sorted now' (pool_release now' k c p)"
    unfolding stamps_sorted_def release_queue using old last_n_stamps [OF new] by (simp add: release_queue)
  show "stamps_sorted now' (pool_put now' k c p)"
    unfolding stamps_sorted_def put_queue using old new last_n_stamps [OF new] by (simp add: put_queue)
qed

lemma sorted_map_dropWhile: "sorted (map f xs) \<Longrightarrow> sorted (map f (dropWhile P xs))"
  using sorted_wrt_drop [of "(\<le>)" "map f xs"] by (simp add: dropWhile_eq_drop drop_map)

lemma stamps_sorted_get:
  assumes "stamps_sorted now p" and "now \<le> now'"
  shows "stamps_sorted now' (snd (pool_get now' k p))"
proof -
  let ?rest = "dropWhile (expired_opt now' (idle_dur p)) (queue_of p k)"
  have "sorted (map idle_at (tl ?rest))"
    using assms(1) sorted_map_dropWhile [of idle_at "queue_of p k"] by (simp add: stamps_sorted_def map_tl sorted_tl)
  moreover have "set (tl ?rest) \<subseteq> set (queue_of p k)"
    unfolding dropWhile_eq_drop tl_drop drop_Suc [symmetric] by (rule set_drop_subset)
  ultimately show ?thesis
    using assms by (fastforce simp: stamps_sorted_def get_queue)
qed

lemma stamps_sorted_clear:
  "stamps_sorted now p \<Longrightarrow> pool_wf p \<Longrightarrow> now \<le> now' \<Longrightarrow> stamps_sorted now' (clear_expired now' d p)"
  by (fastforce simp: stamps_sorted_def pool_wf_def clear_queue intro: sorted_filter)

section \<open>The number of idle connections\<close>

lemma count_set_queue:
  assumes "pool_wf p"
  shows "get_idle_connection_count (set_queue k q p) + length (queue_of p k)
    = get_idle_connection_count p + length q"
  using hm.size_by_ins [of "idle_conns p" length k q] assms
  by (auto simp: pool_wf_def get_idle_connection_count_def set_queue_def queue_of_def hm_or_insert_def
      split: option.splits)

section \<open>Pools used through handles only\<close>

text \<open>
  The HTTP/1.1 pools and \<open>PooledConnector\<close> never call \<open>put\<close>: connections come back through
  \<open>Pooled::drop\<close> only.
\<close>

inductive handle_reach :: "('k, 'c) PoolInner \<Rightarrow> bool" where
  "handle_reach (PoolInner_new m)"
| "handle_reach (new_with_dropper m)"
| "handle_reach p \<Longrightarrow> handle_reach (snd (pool_get now k p))"
| "handle_reach p \<Longrightarrow> handle_reach (pool_release now k c p)"
| "handle_reach p \<Longrightarrow> handle_reach (clear_expired now d p)"

lemma handle_reach_bound:
  "handle_reach p \<Longrightarrow> pool_wf p \<and> (\<forall>k. length (queue_of p k) \<le> max 1 (max_idle p))"
proof (induction rule: handle_reach.induct)
  case (3 p now k)
  then show ?case by (auto simp: get_queue pool_wf_def le_diff_conv intro: le_SucI trans_le_add1)
next
  case (4 p now k c)
  then show ?case by (auto simp: release_queue)
next
  case (5 p now d)
  then show ?case by (auto simp: clear_queue pool_wf_def intro: order_trans [OF length_filter_le])
qed auto

text \<open>Runs of \<open>get\<close> and of returned handles under one key.\<close>

fun get_n :: "instant \<Rightarrow> nat \<Rightarrow> 'k \<Rightarrow> ('k, 'c) PoolInner \<Rightarrow> 'c option list \<times> ('k, 'c) PoolInner" where
  "get_n now 0 k p = ([], p)"
| "get_n now (Suc n) k p =
     (let r = pool_get now k p; rs = get_n now n k (snd r) in (fst r # fst rs, snd rs))"

fun release_all :: "instant \<Rightarrow> 'k \<Rightarrow> 'c list \<Rightarrow> ('k, 'c) PoolInner \<Rightarrow> ('k, 'c) PoolInner" where
  "release_all now k [] p = p"
| "release_all now k (c # cs) p = release_all now k cs (pool_release now k c p)"

lemma get_n_fetches: "get_n now n k p = pool.fetches now n k p"
  by (induction n arbitrary: p) (simp_all add: Let_def)

lemma release_all_gives: "release_all now k cs p = pool.gives now k cs p"
  by (induction cs arbitrary: p) simp_all

lemma pool_inv_reach: "pool_reach p \<Longrightarrow> pool_inv p"
proof (induction rule: pool_reach.induct)
  case (closure p f k)
  then show ?case by (intro pool_inv_closure)
qed (auto intro: pool_inv_ops)

section \<open>Properties\<close>

text \<open>
  Property C31. In every state a pool can reach, whatever operations run at whatever times, the
  limit is at most \<open>MAX_KEEPALIVE_CONNS\<close>, no queue is longer than the limit plus one, and the
  age limit of \<open>get\<close> is unset.
\<close>

theorem pool_reach_bounded:
  assumes "pool_reach p"
  shows "max_idle p \<le> 16384 \<and> length (queue_of p k) \<le> max_idle p + 1 \<and> idle_dur p = None"
  using pool_inv_reach [OF assms]
  by (simp add: pool_inv_def pool_wf_def MAX_KEEPALIVE_CONNS_def)

theorem pool_reach_bounded_witness:
  "length (queue_of (pool_put 7 ''a'' (2::nat) (pool_put 5 ''a'' 1 (PoolInner_new (Some 1)))) ''a'') \<le> 2"
proof -
  have "pool_reach (pool_put 7 ''a'' (2::nat) (pool_put 5 ''a'' 1 (PoolInner_new (Some 1))))"
    by (intro pool_reach.intros)
  from pool_reach_bounded [OF this, of "''a''"] show ?thesis by simp
qed

text \<open>The length of a queue after a number of puts, and after a number of dropped handles.\<close>

lemma fold_put:
  fixes p :: "('k, 'c) PoolInner" and k :: 'k
  defines "P \<equiv> fold (\<lambda>(now, c). pool_put now k c)"
  assumes "queue_of p k = []"
  shows "max_idle (P xs p) = max_idle p"
    and "length (queue_of (P xs p) k) =
      (if length xs \<le> max_idle p then length xs
       else if max_idle p = 0 \<or> odd (length xs - max_idle p) then Suc (max_idle p) else max_idle p)"
proof -
  show m: "max_idle (P xs p) = max_idle p" for xs
    unfolding P_def by (induction xs arbitrary: p) (auto simp: case_prod_beta)
  show "length (queue_of (P xs p) k) =
      (if length xs \<le> max_idle p then length xs
       else if max_idle p = 0 \<or> odd (length xs - max_idle p) then Suc (max_idle p) else max_idle p)"
  proof (induction xs rule: rev_induct)
    case Nil
    then show ?case using assms(2) by (simp add: P_def)
  next
    case (snoc x xs)
    have "P (xs @ [x]) p = pool_put (fst x) k (snd x) (P xs p)" by (simp add: P_def case_prod_beta)
    then show ?case
      using snoc m [of xs] by (auto simp: put_queue last_n_def Suc_diff_le not_le)
  qed
qed

lemma fold_release:
  fixes p :: "('k, 'c) PoolInner" and k :: 'k
  defines "R \<equiv> fold (\<lambda>(now, c). pool_release now k c)"
  assumes "queue_of p k = []"
  shows "length (queue_of (R xs p) k) = min (length xs) (max 1 (max_idle p))"
proof -
  have m: "max_idle (R xs p) = max_idle p" for xs
    unfolding R_def by (induction xs arbitrary: p) (auto simp: case_prod_beta)
  show ?thesis
  proof (induction xs rule: rev_induct)
    case Nil
    then show ?case using assms(2) by (simp add: R_def)
  next
    case (snoc x xs)
    have "R (xs @ [x]) p = pool_release (fst x) k (snd x) (R xs p)" by (simp add: R_def case_prod_beta)
    then show ?case using snoc m [of xs] by (auto simp: release_queue last_n_def min_def max_def)
  qed
qed

text \<open>
  Property C35. How many connections of a key a new pool holds after any number of \<open>put\<close>s: all of them
  up to \<open>max_idle + 1\<close>, one more than the limit the constructor documents, because \<open>put\<close> tests
  \<open>len > max_idle\<close>; from then on it evicts two connections at every second call, so that the number
  alternates between \<open>max_idle\<close> and \<open>max_idle + 1\<close> (a limit of 0 always keeps one). As many handles that
  are dropped, where the test is \<open>len >= max_idle\<close>, leave at most \<open>max_idle\<close> connections, or one.
\<close>

theorem put_exceeds_max_idle:
  "length (queue_of (fold (\<lambda>(now, c). pool_put now k c) xs (PoolInner_new m)) k) =
     (if length xs \<le> clamp_max_idle m then length xs
      else if 0 < clamp_max_idle m \<and> even (length xs - clamp_max_idle m) then clamp_max_idle m else Suc (clamp_max_idle m))
   \<and> length (queue_of (fold (\<lambda>(now, c). pool_release now k c) xs (PoolInner_new m)) k) =
     min (length xs) (max 1 (clamp_max_idle m))"
proof -
  have "max_idle (PoolInner_new m) = clamp_max_idle m" by (simp add: PoolInner_new_def)
  then show ?thesis by (simp add: fold_put fold_release)
qed

text \<open>
  Property C34. A pool whose connections come back through handles only holds at most
  \<open>max 1 max_idle\<close> connections per key: the limit is exact, except that a limit of 0 still keeps
  one connection.
\<close>

theorem handle_pool_bounded:
  assumes "handle_reach p"
  shows "length (queue_of p k) \<le> max 1 (max_idle p)"
  using handle_reach_bound [OF assms] by simp

theorem handle_pool_bounded_witness:
  "length (queue_of (pool_release 3 ''a'' (1::nat) (PoolInner_new (Some 0))) ''a'') \<le> 1"
proof -
  have "handle_reach (pool_release 3 ''a'' (1::nat) (PoolInner_new (Some 0)))"
    by (intro handle_reach.intros)
  from handle_pool_bounded [OF this, of "''a''"] show ?thesis by simp
qed

text \<open>
  Property C29. Refinement of \<open>get\<close>: on every reachable pool, \<open>ConnectionPool::get\<close> serves the
  oldest connection of the key and removes it, and leaves every other key alone.
\<close>

theorem get_refines:
  assumes "pool_reach p"
  shows "(fst (pool_get now k p), pool_abs (snd (pool_get now k p))) = spec_get k (pool_abs p)"
proof -
  from pool_inv_reach [OF assms] have "pool_wf p" by (simp add: pool_inv_def)
  then show ?thesis
    by (simp add: spec_get_def pool.fetch_result fun_eq_iff pool.fetch_queue)
qed

theorem get_refines_witness:
  "fst (pool_get 9 ''a'' (pool_release 3 ''a'' (1::nat) (PoolInner_new None))) = Some 1"
proof -
  have "pool_reach (pool_release 3 ''a'' (1::nat) (PoolInner_new None))"
    by (intro pool_reach.intros)
  from get_refines [OF this, of 9 "''a''"] show ?thesis
    by (simp add: spec_get_def release_queue_abs last_n_all)
qed

text \<open>
  Property C2. Refinement of \<open>Pooled::drop\<close> with an open connection and a live pool: the
  connection becomes the youngest of its key, and of the queue the youngest \<open>max 1 max_idle\<close>
  stay.
\<close>

theorem release_refines:
  "pool_abs (pool_release now k c p) = spec_release (max_idle p) k c (pool_abs p)"
  by (simp add: spec_release_def fun_eq_iff pool.give_queue)

text \<open>
  Order of service: handles returned one after the other under a key with an empty
  queue are served in that order, and when more come back than the limit allows, it is the
  oldest that are gone.
\<close>

lemma fifo_service:
  assumes "pool_wf p" and "queue_of p k = []"
  shows "fst (get_n now' (min (max 1 (max_idle p)) (length cs)) k (release_all now k cs p)) =
    map Some (last_n (max 1 (max_idle p)) cs)"
  unfolding get_n_fetches release_all_gives
  using assms by (intro pool.fifo_order) (simp_all add: pool_abs_def)

text \<open>
  Property C30. No connection is handed out twice: in every reachable state of a pool and its
  handles, the connections that are out are distinct, and none of them is in the pool.
\<close>

theorem no_double_handout:
  assumes "sys_reach s"
  shows "distinct (handed s) \<and> set (handed s) \<inter> set (pool_abs (sys_pool s) k) = {}"
proof
  note inv = sys_inv_reach [OF assms, unfolded sys_inv_def, THEN conjunct2, rule_format]
  have "count_list (handed s) c \<le> 1" for c using inv [of c] by simp
  then show "distinct (handed s)"
    by (metis One_nat_def count_list_0_iff count_mset distinct_count_atmost_1 le_Suc_eq le_zero_eq set_mset_mset)
  have "c \<notin> set (handed s)" if "c \<in> set (pool_abs (sys_pool s) k)" for c
    using conn_count_member [OF that] inv [of c] by (auto simp flip: count_list_0_iff)
  then show "set (handed s) \<inter> set (pool_abs (sys_pool s) k) = {}" by blast
qed

theorem no_double_handout_witness:
  "set (handed \<lparr>sys_pool = PoolInner_new None, handed = [1 :: nat]\<rparr>)
     \<inter> set (pool_abs (PoolInner_new None :: (string, nat) PoolInner) ''a'') = {}"
proof -
  have "sys_reach \<lparr>sys_pool = PoolInner_new None :: (string, nat) PoolInner, handed = []\<rparr>"
    by (rule reachable.reach_init) (simp add: sys_start_def)
  then have "sys_reach \<lparr>sys_pool = PoolInner_new None :: (string, nat) PoolInner, handed = [1]\<rparr>"
    by (rule reachable.reach_step) (use sys_step.sys_link [of 1
        "\<lparr>sys_pool = PoolInner_new None :: (string, nat) PoolInner, handed = []\<rparr>"]
        in \<open>simp add: is_fresh_def conn_count_empty\<close>)
  from no_double_handout [OF this, of "''a''"] show ?thesis by simp
qed

text \<open>
  \<open>clear_expired\<close> is exact: an entry stays if and only if it has been idle for at
  most the given duration, the entries that stay keep their order, and no key is left with an
  empty queue.
\<close>

lemma clear_expired_exact:
  assumes "pool_reach p"
  shows "queue_of (clear_expired now d p) k = [i \<leftarrow> queue_of p k. now - idle_at i \<le> d]
    \<and> hm_get (idle_conns (clear_expired now d p)) k \<noteq> Some []"
proof -
  from pool_inv_reach [OF assms] have "hm_inv (idle_conns p)"
    by (simp add: pool_inv_def pool_wf_def)
  then show ?thesis
    by (simp add: clear_queue clear_no_empty expired_def elapsed_def not_less)
qed

text \<open>
  With a clock that does not run backwards the time stamps of a queue are sorted,
  and then what \<open>clear_expired\<close> removes is a prefix: its scan of the whole queue gives the same
  queue as popping from the front until the first fresh entry.
\<close>

lemma clear_expired_prefix:
  assumes "stamps_sorted t p" and "pool_wf p"
  shows "queue_of (clear_expired now d p) k = dropWhile (expired now d) (queue_of p k)"
proof -
  have "filter (\<lambda>i. \<not> expired now d i) (queue_of p k)
      = dropWhile (\<lambda>i. \<not> \<not> expired now d i) (queue_of p k)"
    by (rule filter_sorted_prefix [where f = idle_at])
      (use assms in \<open>auto simp: stamps_sorted_def expired_def elapsed_def\<close>)
  with assms(2) show ?thesis by (simp add: clear_queue pool_wf_def)
qed

text \<open>
  The two builds agree: on a reachable pool the loop compiled with the feature
  \<open>time\<close> returns the same connection and leaves the same pool as the single pop compiled
  without it.
\<close>

lemma get_builds_agree:
  assumes "pool_reach p"
  shows "pool_get now k p = pool_get_untimed k p"
proof -
  from pool_inv_reach [OF assms] have "pool_wf p" by (simp add: pool_inv_def)
  then show ?thesis
    by (auto simp: get_wf pool_get_untimed_def hm_get_queue_of queue_of_absent
        split: option.splits list.splits prod.splits)
qed

text \<open>
  \<open>get_idle_connection_count\<close> is exact: a successful \<open>get\<close> lowers it by one, a
  miss leaves it, and a returned handle changes the share of its key to what the limit allows.
\<close>

lemma idle_count_exact:
  assumes "pool_reach p"
  shows "get_idle_connection_count (snd (pool_get now k p)) + (if queue_of p k = [] then 0 else 1)
      = get_idle_connection_count p
    \<and> get_idle_connection_count (pool_release now k c p) + length (queue_of p k)
      = get_idle_connection_count p + min (max 1 (max_idle p)) (length (queue_of p k) + 1)"
proof -
  have wf: "pool_wf p" using pool_inv_reach [OF assms] by (simp add: pool_inv_def)
  have "get_idle_connection_count (snd (pool_get now k p)) + (if queue_of p k = [] then 0 else 1)
      = get_idle_connection_count p"
  proof (cases "queue_of p k")
    case Nil
    with wf show ?thesis by (simp add: get_wf)
  next
    case (Cons i q)
    with wf count_set_queue [OF wf, of k q] show ?thesis by (simp add: get_wf)
  qed
  then show ?thesis
    using count_set_queue [OF wf, of k "last_n (max 1 (max_idle p)) (queue_of p k @ [Idle_new now c])"]
    by (simp add: release_set_queue)
qed

end
