(* ===== verification/Rc_Store.thy ===== *)
theory Rc_Store
  imports Prelude
begin

text \<open>
  Reference counted cells: \<open>Rc<UnsafeCell<T>>\<close> and \<open>Weak<UnsafeCell<T>>\<close>. A store maps addresses
  to boxes with a strong count. The last strong reference frees the box, after which a weak
  reference no longer upgrades; addresses are never used again, so a stale weak reference cannot
  meet a later box. The locale \<open>rc_spec\<close> is what the pool relies on, and the store below
  provides it.
\<close>

section \<open>Interface\<close>

locale rc_spec =
  fixes read :: "nat \<Rightarrow> 's \<Rightarrow> 'a option"
    and alloc :: "'a \<Rightarrow> 's \<Rightarrow> nat \<times> 's"
    and store :: "nat \<Rightarrow> 'a \<Rightarrow> 's \<Rightarrow> 's"
    and clone :: "nat \<Rightarrow> 's \<Rightarrow> 's"
    and release :: "nat \<Rightarrow> 's \<Rightarrow> 's"
    and count :: "nat \<Rightarrow> 's \<Rightarrow> nat"
    and invar :: "'s \<Rightarrow> bool"
  assumes read_alloc: "read b (snd (alloc v s)) = (if b = fst (alloc v s) then Some v else read b s)"
    and alloc_fresh: "invar s \<Longrightarrow> read (fst (alloc v s)) s = None"
    and count_alloc: "count b (snd (alloc v s)) = (if b = fst (alloc v s) then 1 else count b s)"
    and read_write: "read b (store a v s) = (if b = a \<and> read a s \<noteq> None then Some v else read b s)"
    and count_write: "count b (store a v s) = count b s"
    and read_clone: "read b (clone a s) = read b s"
    and count_clone: "count b (clone a s) = (if b = a \<and> read a s \<noteq> None then Suc (count b s) else count b s)"
    and read_release: "read b (release a s) = (if b = a \<and> count a s \<le> 1 then None else read b s)"
    and count_release: "count b (release a s) = (if b = a then count b s - 1 else count b s)"
    and alive: "invar s \<Longrightarrow> read a s \<noteq> None \<longleftrightarrow> 0 < count a s"
    and invar_alloc: "invar s \<Longrightarrow> invar (snd (alloc v s))"
    and invar_write: "invar s \<Longrightarrow> invar (store a v s)"
    and invar_clone: "invar s \<Longrightarrow> invar (clone a s)"
    and invar_release: "invar s \<Longrightarrow> invar (release a s)"
begin

text \<open>
  Working through an upgraded weak reference, which is released at the end of the scope, is
  the same to every reader as the bare write.
\<close>

lemma upgraded_write_read:
  assumes "invar s" and "read a s \<noteq> None"
  shows "read b (release a (store a v (clone a s))) = read b (store a v s)"
proof -
  from assms have "0 < count a s" using alive by simp
  then show ?thesis
    using assms(2) by (auto simp: read_release read_write read_clone count_write count_clone)
qed

lemma upgraded_write_count:
  assumes "read a s \<noteq> None"
  shows "count b (release a (store a v (clone a s))) = count b s"
  using assms by (auto simp: count_release count_write count_clone)

lemma invar_upgraded_write: "invar s \<Longrightarrow> invar (release a (store a v (clone a s)))"
  by (simp add: invar_release invar_write invar_clone)

end

section \<open>The store\<close>

record 'a rc_box =
  strong :: nat
  contents :: 'a

record 'a rc_store =
  boxes :: "nat \<rightharpoonup> 'a rc_box"
  next_addr :: nat

definition rc_empty :: "'a rc_store" where
  "rc_empty = \<lparr>boxes = Map.empty, next_addr = 0\<rparr>"

definition rc_new :: "'a \<Rightarrow> 'a rc_store \<Rightarrow> nat \<times> 'a rc_store" where
  "rc_new v s =
     (next_addr s,
      s\<lparr>boxes := (boxes s)(next_addr s \<mapsto> \<lparr>strong = 1, contents = v\<rparr>),
        next_addr := Suc (next_addr s)\<rparr>)"

definition rc_read :: "nat \<Rightarrow> 'a rc_store \<Rightarrow> 'a option" where
  "rc_read a s = map_option contents (boxes s a)"

definition rc_write :: "nat \<Rightarrow> 'a \<Rightarrow> 'a rc_store \<Rightarrow> 'a rc_store" where
  "rc_write a v s =
     (case boxes s a of
        None \<Rightarrow> s
      | Some b \<Rightarrow> s\<lparr>boxes := (boxes s)(a \<mapsto> b\<lparr>contents := v\<rparr>)\<rparr>)"

definition rc_clone :: "nat \<Rightarrow> 'a rc_store \<Rightarrow> 'a rc_store" where
  "rc_clone a s =
     (case boxes s a of
        None \<Rightarrow> s
      | Some b \<Rightarrow> s\<lparr>boxes := (boxes s)(a \<mapsto> b\<lparr>strong := Suc (strong b)\<rparr>)\<rparr>)"

definition rc_drop :: "nat \<Rightarrow> 'a rc_store \<Rightarrow> 'a rc_store" where
  "rc_drop a s =
     (case boxes s a of
        None \<Rightarrow> s
      | Some b \<Rightarrow>
          if strong b \<le> 1 then s\<lparr>boxes := (boxes s)(a := None)\<rparr>
          else s\<lparr>boxes := (boxes s)(a \<mapsto> b\<lparr>strong := strong b - 1\<rparr>)\<rparr>)"

text \<open>\<open>Weak::upgrade\<close>: a new strong reference if the box is still there.\<close>

definition weak_upgrade :: "nat \<Rightarrow> 'a rc_store \<Rightarrow> bool \<times> 'a rc_store" where
  "weak_upgrade a s = (case boxes s a of None \<Rightarrow> (False, s) | Some _ \<Rightarrow> (True, rc_clone a s))"

definition strong_count :: "nat \<Rightarrow> 'a rc_store \<Rightarrow> nat" where
  "strong_count a s = (case boxes s a of None \<Rightarrow> 0 | Some b \<Rightarrow> strong b)"

definition rc_inv :: "'a rc_store \<Rightarrow> bool" where
  "rc_inv s \<longleftrightarrow> (\<forall>a b. boxes s a = Some b \<longrightarrow> 0 < strong b \<and> a < next_addr s)"

lemmas rc_defs = rc_new_def rc_read_def rc_write_def rc_clone_def rc_drop_def strong_count_def

lemma rc_inv_empty [simp]: "rc_inv rc_empty"
  by (simp add: rc_inv_def rc_empty_def)

lemma rc_read_empty [simp]: "rc_read a rc_empty = None"
  by (simp add: rc_read_def rc_empty_def)

lemma rc_inv_new: "rc_inv s \<Longrightarrow> rc_inv (snd (rc_new v s))"
  by (fastforce simp: rc_inv_def rc_new_def split: if_splits)

lemma rc_inv_write: "rc_inv s \<Longrightarrow> rc_inv (rc_write a v s)"
  by (auto simp: rc_inv_def rc_write_def split: option.splits)

lemma rc_inv_clone: "rc_inv s \<Longrightarrow> rc_inv (rc_clone a s)"
  by (auto simp: rc_inv_def rc_clone_def split: option.splits)

lemma rc_inv_drop: "rc_inv s \<Longrightarrow> rc_inv (rc_drop a s)"
  by (auto simp: rc_inv_def rc_drop_def split: option.splits if_splits)

interpretation rc: rc_spec rc_read rc_new rc_write rc_clone rc_drop strong_count rc_inv
proof
  show "rc_inv s \<Longrightarrow> rc_read (fst (rc_new v s)) s = None" for v :: 'a and s
    by (cases "boxes s (next_addr s)") (auto simp: rc_inv_def rc_read_def rc_new_def)
  show "rc_inv s \<Longrightarrow> rc_read a s \<noteq> None \<longleftrightarrow> 0 < strong_count a s" for a and s :: "'a rc_store"
    by (auto simp: rc_inv_def rc_read_def strong_count_def split: option.splits)
  show "rc_inv s \<Longrightarrow> rc_inv (snd (rc_new v s))" for v :: 'a and s by (rule rc_inv_new)
  show "rc_inv s \<Longrightarrow> rc_inv (rc_write a v s)" for a and v :: 'a and s by (rule rc_inv_write)
  show "rc_inv s \<Longrightarrow> rc_inv (rc_clone a s)" for a and s :: "'a rc_store" by (rule rc_inv_clone)
  show "rc_inv s \<Longrightarrow> rc_inv (rc_drop a s)" for a and s :: "'a rc_store" by (rule rc_inv_drop)
qed (auto simp: rc_defs split: option.splits)

lemma weak_upgrade_eq:
  "weak_upgrade a s = (if rc_read a s = None then (False, s) else (True, rc_clone a s))"
  by (simp add: weak_upgrade_def rc_read_def split: option.splits)

end
