(* ===== verification/Shared_Pool.thy ===== *)
theory Shared_Pool
  imports Pool_Spec Rc_Store
begin

text \<open>
  Sharing of a pool, \<open>src/pool/mod.rs\<close>: the handle \<open>Pooled\<close> with its destructor, the reference
  counted \<open>ConnectionPool\<close> and the background \<open>IdleTask\<close>. A \<open>SharedPool\<close> and a \<open>WeakPool\<close> are
  addresses of the store of the theory \<open>Rc_Store\<close>. An operation through a strong reference yields
  \<open>None\<close> if the cell is gone: that would be the undefined behaviour of the code's
  \<open>unsafe { &mut *self.shared.get() }\<close>, and it is proved not to happen.
\<close>

section \<open>Pooled\<close>

type_synonym ('k, 'c) pool_store = "('k, 'c) PoolInner rc_store"
type_synonym pool_ref = nat

datatype panic = NotDropped | KeyIsEmpty | UnwrapErr

record ('k, 'c) Pooled =
  p_value :: "'c option"
  p_is_reused :: bool
  p_key :: "'k option"
  p_pool :: "pool_ref option"

definition Pooled_new :: "'k \<Rightarrow> 'c \<Rightarrow> bool \<Rightarrow> pool_ref \<Rightarrow> ('k, 'c) Pooled" where
  "Pooled_new k v r pool = \<lparr>p_value = Some v, p_is_reused = r, p_key = Some k, p_pool = Some pool\<rparr>"

definition unpooled :: "'c \<Rightarrow> ('k, 'c) Pooled" where
  "unpooled v = \<lparr>p_value = Some v, p_is_reused = False, p_key = None, p_pool = None\<rparr>"

definition Pooled_is_reused :: "('k, 'c) Pooled \<Rightarrow> bool" where
  "Pooled_is_reused h = p_is_reused h"

text \<open>\<open>as_ref\<close>, and \<open>deref\<close> through it: \<open>expect("not dropped")\<close>.\<close>

definition Pooled_as_ref :: "('k, 'c) Pooled \<Rightarrow> ('c, panic) result" where
  "Pooled_as_ref h = ok_or NotDropped (p_value h)"

text \<open>
  \<open>as_mut\<close>, \<open>deref_mut\<close> and the forwarded calls of \<open>AsyncReadRent\<close> and \<open>AsyncWriteRent\<close>: an
  operation of the inner connection that yields an answer and the changed connection. The
  forwarders use \<open>unwrap_unchecked\<close>; where the value is missing the model yields \<open>None\<close>.
\<close>

definition Pooled_as_mut :: "('c \<Rightarrow> 'a \<times> 'c) \<Rightarrow> ('k, 'c) Pooled \<Rightarrow> ('a \<times> ('k, 'c) Pooled, panic) result" where
  "Pooled_as_mut f h =
     (case p_value h of
        None \<Rightarrow> Err NotDropped
      | Some v \<Rightarrow> (case f v of (a, v') \<Rightarrow> Ok (a, h\<lparr>p_value := Some v'\<rparr>)))"

definition Pooled_forward :: "('c \<Rightarrow> 'a \<times> 'c) \<Rightarrow> ('k, 'c) Pooled \<Rightarrow> ('a \<times> ('k, 'c) Pooled) option" where
  "Pooled_forward f h =
     map_option (\<lambda>v. case f v of (a, v') \<Rightarrow> (a, h\<lparr>p_value := Some v'\<rparr>)) (p_value h)"

text \<open>\<open>unsafe { &mut *cell.get() }\<close> through a reference that keeps the cell alive.\<close>

definition rc_modify :: "nat \<Rightarrow> ('a \<Rightarrow> 'a) \<Rightarrow> 'a rc_store \<Rightarrow> 'a rc_store" where
  "rc_modify a f s = (case rc_read a s of None \<Rightarrow> s | Some v \<Rightarrow> rc_write a (f v) s)"

definition Pooled_drop :: "('c \<Rightarrow> bool) \<Rightarrow> instant \<Rightarrow> ('k, 'c) Pooled \<Rightarrow> ('k, 'c) pool_store
    \<Rightarrow> (('k, 'c) pool_store, panic) result" where
  "Pooled_drop is_open now self s =
     (case p_value self of
        None \<Rightarrow> Ok s
      | Some val \<Rightarrow>
          if \<not> is_open val then Ok s
          else
            (case p_pool self of
               None \<Rightarrow> Ok s
             | Some weak \<Rightarrow>
                 (case weak_upgrade weak s of
                    (upgraded, s') \<Rightarrow>
                      if \<not> upgraded then Ok s'
                      else (case p_key self of
                         None \<Rightarrow> Err KeyIsEmpty
                       | Some k \<Rightarrow> Ok (rc_drop weak (rc_modify weak (pool_release now k val) s'))))))"

section \<open>ConnectionPool\<close>

definition ConnectionPool_new :: "usize option \<Rightarrow> ('k, 'c) pool_store \<Rightarrow> pool_ref \<times> ('k, 'c) pool_store" where
  "ConnectionPool_new m s = rc_new (PoolInner_new m) s"

definition ConnectionPool_default :: "('k, 'c) pool_store \<Rightarrow> pool_ref \<times> ('k, 'c) pool_store" where
  "ConnectionPool_default s = ConnectionPool_new None s"

definition ConnectionPool_clone :: "pool_ref \<Rightarrow> ('k, 'c) pool_store \<Rightarrow> pool_ref \<times> ('k, 'c) pool_store" where
  "ConnectionPool_clone a s = (a, rc_clone a s)"

definition ConnectionPool_get :: "instant \<Rightarrow> pool_ref \<Rightarrow> 'k \<Rightarrow> ('k, 'c) pool_store
    \<Rightarrow> (('k, 'c) Pooled option \<times> ('k, 'c) pool_store) option" where
  "ConnectionPool_get now a k s =
     (case rc_read a s of
        None \<Rightarrow> None
      | Some inner \<Rightarrow>
          (case pool_get now k inner of
             (r, inner') \<Rightarrow> Some (map_option (\<lambda>c. Pooled_new k c True a) r, rc_write a inner' s)))"

definition ConnectionPool_put :: "instant \<Rightarrow> pool_ref \<Rightarrow> 'k \<Rightarrow> 'c \<Rightarrow> ('k, 'c) pool_store
    \<Rightarrow> ('k, 'c) pool_store option" where
  "ConnectionPool_put now a k c s =
     (case rc_read a s of
        None \<Rightarrow> None
      | Some inner \<Rightarrow> Some (rc_write a (pool_put now k c inner) s))"

definition ConnectionPool_link :: "pool_ref \<Rightarrow> 'k \<Rightarrow> 'c \<Rightarrow> ('k, 'c) Pooled" where
  "ConnectionPool_link a k c = Pooled_new k c False a"

definition ConnectionPool_count :: "pool_ref \<Rightarrow> ('k, 'c) pool_store \<Rightarrow> usize option" where
  "ConnectionPool_count a s = map_option get_idle_connection_count (rc_read a s)"

section \<open>The idle task\<close>

text \<open>
  The task owns the sending end of a one-shot channel whose receiver sits in the pool, a weak
  reference to the pool and a timer. \<open>closed\<close> stands for \<open>tx.poll_closed(cx).is_ready()\<close> and
  \<open>tick\<close> for \<open>interval.poll_tick(cx)\<close>, both from libraries: \<open>tick now iv\<close> is \<open>None\<close> when pending
  and otherwise the timer after the tick.
\<close>

record 'i IdleTask =
  t_conns :: pool_ref
  t_interval :: 'i
  t_idle_dur :: duration

datatype poll = Ready | Pending

definition MIN_INTERVAL :: duration where
  "MIN_INTERVAL = from_secs 1"

definition new_with_idle_interval :: "(duration \<Rightarrow> 'i) \<Rightarrow> duration option \<Rightarrow> usize option
    \<Rightarrow> ('k, 'c) pool_store \<Rightarrow> (pool_ref \<times> 'i IdleTask option) \<times> ('k, 'c) pool_store" where
  "new_with_idle_interval mk_interval idle_interval m s =
     (case idle_interval of
        Some iv \<Rightarrow>
          (case rc_new (new_with_dropper m) s of
             (shared, s') \<Rightarrow>
               ((shared,
                 Some \<lparr>t_conns = shared, t_interval = mk_interval (max iv MIN_INTERVAL), t_idle_dur = iv\<rparr>),
                s'))
      | None \<Rightarrow> (case rc_new (PoolInner_new m) s of (shared, s') \<Rightarrow> ((shared, None), s')))"

partial_function (option) idle_task_poll ::
  "(('k, 'c) pool_store \<Rightarrow> bool) \<Rightarrow> (instant \<Rightarrow> 'i \<Rightarrow> 'i option) \<Rightarrow> instant \<Rightarrow> 'i IdleTask
    \<Rightarrow> ('k, 'c) pool_store \<Rightarrow> (poll \<times> 'i IdleTask \<times> ('k, 'c) pool_store) option" where
  "idle_task_poll closed tick now this s =
     (if closed s then Some (Ready, this, s)
      else
        (case tick now (t_interval this) of
           None \<Rightarrow> Some (Pending, this, s)
         | Some iv \<Rightarrow>
             (case weak_upgrade (t_conns this) s of
                (upgraded, s') \<Rightarrow>
                  if upgraded then
                  idle_task_poll closed tick now (this\<lparr>t_interval := iv\<rparr>)
                    (rc_drop (t_conns this)
                      (rc_modify (t_conns this) (clear_expired now (t_idle_dur this)) s'))
                  else Some (Ready, this\<lparr>t_interval := iv\<rparr>, s'))))"

section \<open>Reading through the store\<close>

lemma rc_read_modify:
  "rc_read b (rc_modify a f s) = (if b = a then map_option f (rc_read a s) else rc_read b s)"
  by (auto simp: rc_modify_def rc.read_write split: option.splits)

text \<open>
  An upgraded weak reference, used and released, is a plain modification of the cell.
\<close>

lemma upgraded_modify:
  assumes "rc_inv s" and "rc_read a s \<noteq> None"
  shows "rc_read b (rc_drop a (rc_modify a f (rc_clone a s))) = rc_read b (rc_modify a f s)"
    and "strong_count b (rc_drop a (rc_modify a f (rc_clone a s))) = strong_count b s"
    and "rc_inv (rc_drop a (rc_modify a f (rc_clone a s)))"
  using assms rc.upgraded_write_read [OF assms] rc.upgraded_write_count [OF assms(2)]
    rc.invar_upgraded_write [OF assms(1)]
  by (auto simp: rc_modify_def rc.read_clone)

lemma rc_modify_frame [simp]:
  "rc_inv s \<Longrightarrow> rc_inv (rc_modify a f s)"
  "strong_count b (rc_modify a f s) = strong_count b s"
  by (auto simp: rc_modify_def rc.invar_write rc.count_write split: option.splits)

text \<open>The destructor, by cases.\<close>

lemma drop_noop:
  "\<not> is_open v \<Longrightarrow> Pooled_drop is_open now (h\<lparr>p_value := Some v\<rparr>) s = Ok s"
  "p_pool h = None \<Longrightarrow> Pooled_drop is_open now h s = Ok s"
  "p_pool h = Some a \<Longrightarrow> rc_read a s = None \<Longrightarrow> Pooled_drop is_open now h s = Ok s"
  by (auto simp: Pooled_drop_def weak_upgrade_eq split: option.splits)

lemma drop_live:
  assumes "is_open v" and "rc_read a s = Some p"
  shows "Pooled_drop is_open now (Pooled_new k v r a) s =
    Ok (rc_drop a (rc_modify a (pool_release now k v) (rc_clone a s)))"
  using assms by (simp add: Pooled_drop_def Pooled_new_def weak_upgrade_eq)

lemma drop_live_read:
  assumes "rc_inv s" and "is_open v" and "rc_read a s = Some p"
    and "Pooled_drop is_open now (Pooled_new k v r a) s = Ok s'"
  shows "rc_read b s' = (if b = a then Some (pool_release now k v p) else rc_read b s)"
    and "strong_count b s' = strong_count b s" and "rc_inv s'"
  using assms upgraded_modify [where s = s and a = a and f = "pool_release now k v"] drop_live [of is_open v a s p now k r]
  by (auto simp: rc_read_modify)

section \<open>Clients sharing pools\<close>

text \<open>
  A program that uses pools: the strong references it holds (each \<open>ConnectionPool\<close> value is one)
  and the handles that are alive. Idle tasks hold weak references only, so their rounds are steps
  at any address.
\<close>

record ('k, 'c) shared =
  st :: "('k, 'c) pool_store"
  pools :: "pool_ref list"
  live :: "('k, 'c) Pooled list"

inductive shared_step :: "('c \<Rightarrow> bool) \<Rightarrow> ('k, 'c) shared \<Rightarrow> ('k, 'c) shared \<Rightarrow> bool" for is_open where
  sh_new: "ConnectionPool_new m (st s) = (a, st') \<Longrightarrow>
    shared_step is_open s (s\<lparr>st := st', pools := a # pools s\<rparr>)"
| sh_clone: "a \<in> set (pools s) \<Longrightarrow> ConnectionPool_clone a (st s) = (b, st') \<Longrightarrow>
    shared_step is_open s (s\<lparr>st := st', pools := b # pools s\<rparr>)"
| sh_drop_pool: "a \<in> set (pools s) \<Longrightarrow>
    shared_step is_open s (s\<lparr>st := rc_drop a (st s), pools := remove1 a (pools s)\<rparr>)"
| sh_get: "a \<in> set (pools s) \<Longrightarrow> ConnectionPool_get now a k (st s) = Some (r, st') \<Longrightarrow>
    shared_step is_open s (s\<lparr>st := st', live := (case r of None \<Rightarrow> live s | Some h \<Rightarrow> h # live s)\<rparr>)"
| sh_put: "a \<in> set (pools s) \<Longrightarrow> ConnectionPool_put now a k c (st s) = Some st' \<Longrightarrow>
    shared_step is_open s (s\<lparr>st := st'\<rparr>)"
| sh_link: "a \<in> set (pools s) \<Longrightarrow>
    shared_step is_open s (s\<lparr>live := ConnectionPool_link a k c # live s\<rparr>)"
| sh_unpooled: "shared_step is_open s (s\<lparr>live := unpooled c # live s\<rparr>)"
| sh_use: "h \<in> set (live s) \<Longrightarrow> Pooled_as_mut f h = Ok ((), h') \<Longrightarrow>
    shared_step is_open s (s\<lparr>live := h' # remove1 h (live s)\<rparr>)"
| sh_drop: "h \<in> set (live s) \<Longrightarrow> Pooled_drop is_open now h (st s) = Ok st' \<Longrightarrow>
    shared_step is_open s (s\<lparr>st := st', live := remove1 h (live s)\<rparr>)"
| sh_idle: "weak_upgrade a (st s) = (True, st') \<Longrightarrow>
    shared_step is_open s (s\<lparr>st := rc_drop a (rc_modify a (clear_expired now d) st')\<rparr>)"

definition shared_start :: "('k, 'c) shared \<Rightarrow> bool" where
  "shared_start s \<longleftrightarrow> s = \<lparr>st = rc_empty, pools = [], live = []\<rparr>"

abbreviation shared_reach :: "('c \<Rightarrow> bool) \<Rightarrow> ('k, 'c) shared \<Rightarrow> bool" where
  "shared_reach is_open \<equiv> reachable shared_start (shared_step is_open)"

text \<open>A handle that has not been dropped holds its connection, and knows its key if it knows a pool.\<close>

definition handle_ok :: "('k, 'c) Pooled \<Rightarrow> bool" where
  "handle_ok h \<longleftrightarrow> p_value h \<noteq> None \<and> (p_pool h \<noteq> None \<longrightarrow> p_key h \<noteq> None)"

definition shared_inv :: "('k, 'c) shared \<Rightarrow> bool" where
  "shared_inv s \<longleftrightarrow> rc_inv (st s) \<and>
     (\<forall>a. strong_count a (st s) = count_list (pools s) a) \<and>
     (\<forall>h \<in> set (live s). handle_ok h) \<and>
     (\<forall>a p. rc_read a (st s) = Some p \<longrightarrow> pool_reach p)"

lemma handle_ok_new [simp]: "handle_ok (Pooled_new k c r a)" "handle_ok (unpooled c)"
  by (simp_all add: handle_ok_def Pooled_new_def unpooled_def)

lemma handle_ok_use: "handle_ok h \<Longrightarrow> Pooled_as_mut f h = Ok (a, h') \<Longrightarrow> handle_ok h'"
  by (auto simp: handle_ok_def Pooled_as_mut_def split: option.splits prod.splits)

lemma count_list_pos: "x \<in> set xs \<Longrightarrow> 0 < count_list xs x"
  by (metis count_list_0_iff neq0_conv)

lemma shared_alive:
  assumes "shared_inv s" and "a \<in> set (pools s)"
  shows "rc_read a (st s) \<noteq> None"
  using assms count_list_pos [OF assms(2)] rc.alive [of "st s" a] by (simp add: shared_inv_def)

lemma ok_handle_drop:
  assumes "handle_ok h"
  shows "\<exists>s'. Pooled_drop is_open now h s = Ok s'"
  using assms by (auto simp: handle_ok_def Pooled_drop_def split: option.splits prod.splits)

text \<open>What a destructor does to the store, whichever branch it takes.\<close>

lemma drop_store:
  assumes "rc_inv s" and "Pooled_drop is_open now h s = Ok s'"
  shows "rc_inv s'" and "strong_count b s' = strong_count b s"
    and "rc_read b s' = rc_read b s \<or>
      (\<exists>k c p. rc_read b s = Some p \<and> rc_read b s' = Some (pool_release now k c p))"
proof -
  have "s' = s \<or> (\<exists>a k v. rc_read a s \<noteq> None \<and>
      s' = rc_drop a (rc_modify a (pool_release now k v) (rc_clone a s)))"
    using assms(2) by (auto simp: Pooled_drop_def weak_upgrade_eq split: option.splits if_splits)
  then have "rc_inv s' \<and> strong_count b s' = strong_count b s \<and> (rc_read b s' = rc_read b s \<or>
      (\<exists>k c p. rc_read b s = Some p \<and> rc_read b s' = Some (pool_release now k c p)))"
    using assms(1) upgraded_modify [OF assms(1)] by (auto simp: rc_read_modify) blast
  then show "rc_inv s'" "strong_count b s' = strong_count b s"
    "rc_read b s' = rc_read b s \<or>
      (\<exists>k c p. rc_read b s = Some p \<and> rc_read b s' = Some (pool_release now k c p))" by blast+
qed

lemma shared_invI:
  assumes "rc_inv (st t)" and "\<And>a. strong_count a (st t) = count_list (pools t) a"
    and "\<And>h. h \<in> set (live t) \<Longrightarrow> handle_ok h"
    and "\<And>a p. rc_read a (st t) = Some p \<Longrightarrow> pool_reach p"
  shows "shared_inv t"
  using assms by (simp add: shared_inv_def)

lemma shared_inv_step: "shared_step is_open s t \<Longrightarrow> shared_inv s \<Longrightarrow> shared_inv t"
proof (induction rule: shared_step.induct)
  case (sh_new m s a st')
  then have st': "st' = snd (rc_new (PoolInner_new m) (st s))" and a: "a = fst (rc_new (PoolInner_new m) (st s))"
    by (simp_all add: ConnectionPool_new_def)
  have fresh: "strong_count a (st s) = 0"
    using sh_new.prems rc.alloc_fresh rc.alive a by (metis neq0_conv shared_inv_def)
  then have "count_list (pools s) a = 0" using sh_new.prems by (simp add: shared_inv_def)
  then show ?case
    using sh_new.prems rc.invar_alloc [of "st s" "PoolInner_new m"]
    by (auto simp: shared_inv_def st' a rc.count_alloc rc.read_alloc intro: pool_reach.new split: if_splits)
next
  case (sh_clone a s b st')
  then have "rc_read a (st s) \<noteq> None" by (intro shared_alive)
  with sh_clone show ?case
    by (auto simp: shared_inv_def ConnectionPool_clone_def rc.invar_clone rc.count_clone rc.read_clone)
next
  case (sh_drop_pool a s)
  then show ?case
    by (auto simp: shared_inv_def rc.invar_release rc.count_release rc.read_release count_list_remove1 split: if_splits)
next
  case (sh_get a s now k r st')
  then obtain p where p: "rc_read a (st s) = Some p"
    and st': "st' = rc_write a (snd (pool_get now k p)) (st s)"
    and r: "r = map_option (\<lambda>c. Pooled_new k c True a) (fst (pool_get now k p))"
    by (auto simp: ConnectionPool_get_def split: option.splits prod.splits)
  from sh_get.prems p have "pool_reach (snd (pool_get now k p))"
    by (auto simp: shared_inv_def intro: pool_reach.get)
  with sh_get.prems p r show ?case
    by (auto simp: shared_inv_def st' rc.invar_write rc.count_write rc.read_write
        split: option.splits if_splits)
next
  case (sh_put a s now k c st')
  then obtain p where p: "rc_read a (st s) = Some p" and st': "st' = rc_write a (pool_put now k c p) (st s)"
    by (auto simp: ConnectionPool_put_def split: option.splits)
  from sh_put.prems p have "pool_reach (pool_put now k c p)"
    by (auto simp: shared_inv_def intro: pool_reach.put)
  with sh_put.prems p show ?case
    by (auto simp: shared_inv_def st' rc.invar_write rc.count_write rc.read_write split: if_splits)
next
  case (sh_link a s k c)
  then show ?case by (simp add: shared_inv_def ConnectionPool_link_def)
next
  case (sh_unpooled s c)
  then show ?case by (simp add: shared_inv_def)
next
  case (sh_use h s f h')
  then have "handle_ok h'" by (auto simp: shared_inv_def intro: handle_ok_use)
  with sh_use.prems show ?case
    by (auto simp: shared_inv_def dest: notin_set_remove1 [rotated])
next
  case (sh_drop h s now st')
  then have inv: "rc_inv (st s)" by (simp add: shared_inv_def)
  note d = drop_store [OF inv sh_drop.hyps(2)]
  show ?case
  proof (rule shared_invI)
    fix a p assume "rc_read a (st (s\<lparr>st := st', live := remove1 h (live s)\<rparr>)) = Some p"
    then show "pool_reach p"
      using d(3) [of a] sh_drop.prems by (auto simp: shared_inv_def intro: pool_reach.release)
  qed (use sh_drop.prems d(1,2) in \<open>auto simp: shared_inv_def dest: notin_set_remove1 [rotated]\<close>)
next
  case (sh_idle a s st' now d)
  then have alive: "rc_read a (st s) \<noteq> None" and inv: "rc_inv (st s)"
    and st': "st' = rc_clone a (st s)"
    by (auto simp: shared_inv_def weak_upgrade_eq split: if_splits)
  note u = upgraded_modify [OF inv alive, where f = "clear_expired now d"]
  show ?case
    by (rule shared_invI) (use sh_idle.prems u in
      \<open>auto simp: shared_inv_def st' rc_read_modify intro: pool_reach.clear split: if_splits\<close>)
qed

interpretation shared: invariant_system shared_start "shared_step is_open" shared_inv
  by unfold_locales (simp add: shared_start_def shared_inv_def strong_count_def rc_empty_def rc_read_def
      rc_inv_def, rule shared_inv_step)

lemmas shared_inv_reach = shared.inv_reachable

section \<open>The idle task\<close>

text \<open>
  The timer's contract: a tick is due only once its deadline is reached, and moves the deadline
  forward. \<open>monoio::time::interval\<close> refuses a period of zero and adds the period at every tick.
\<close>

definition timer_law :: "('i \<Rightarrow> instant) \<Rightarrow> (instant \<Rightarrow> 'i \<Rightarrow> 'i option) \<Rightarrow> bool" where
  "timer_law deadline tick \<longleftrightarrow>
     (\<forall>now iv iv'. tick now iv = Some iv' \<longrightarrow> deadline iv \<le> now \<and> deadline iv < deadline iv')"

text \<open>The channel's contract: the sender sees it closed once the receiver, and so the pool, is gone.\<close>

definition closed_law :: "pool_ref \<Rightarrow> (('k, 'c) pool_store \<Rightarrow> bool) \<Rightarrow> bool" where
  "closed_law a closed \<longleftrightarrow> (\<forall>s. closed s \<longleftrightarrow> rc_read a s = None)"

text \<open>What one or more rounds at the same clock reading make of a pool.\<close>

definition swept :: "instant \<Rightarrow> duration \<Rightarrow> ('k, 'c) PoolInner \<Rightarrow> ('k, 'c) PoolInner \<Rightarrow> bool" where
  "swept now d p p' \<longleftrightarrow> (\<exists>n. p' = (clear_expired now d ^^ Suc n) p)"

lemma clear_repeat_queue:
  "pool_wf p \<Longrightarrow> pool_wf ((clear_expired now d ^^ Suc n) p) \<and>
   queue_of ((clear_expired now d ^^ Suc n) p) k = filter (\<lambda>i. \<not> expired now d i) (queue_of p k)"
proof (induction n)
  case 0
  then show ?case by (simp add: clear_queue pool_wf_def)
next
  case (Suc n)
  then have wf: "pool_wf ((clear_expired now d ^^ Suc n) p)" by blast
  then have inv: "hm_inv (idle_conns ((clear_expired now d ^^ Suc n) p))" by (simp add: pool_wf_def)
  show ?case
    unfolding funpow.simps(2) [of "Suc n"] o_apply clear_queue [OF inv]
    using Suc wf by simp
qed

lemma idle_poll_alive:
  assumes "timer_law deadline tick" and "closed_law (t_conns task) closed"
    and "rc_inv s" and "rc_read (t_conns task) s = Some p"
  shows "\<exists>task' s'. idle_task_poll closed tick now task s = Some (Pending, task', s') \<and>
    (\<exists>p'. rc_read (t_conns task) s' = Some p' \<and>
      (if tick now (t_interval task) = None then p' = p else swept now (t_idle_dur task) p p'))"
  using assms
proof (induction "Suc now - deadline (t_interval task)" arbitrary: task s p rule: less_induct)
  case less
  have open_now: "\<not> closed s" using less.prems by (simp add: closed_law_def)
  show ?case
  proof (cases "tick now (t_interval task)")
    case None
    with open_now less.prems(4) show ?thesis by (subst idle_task_poll.simps) simp
  next
    case (Some iv)
    let ?a = "t_conns task" and ?f = "clear_expired now (t_idle_dur task)"
    let ?task = "task\<lparr>t_interval := iv\<rparr>" and ?s = "rc_drop (t_conns task) (rc_modify (t_conns task) (clear_expired now (t_idle_dur task)) (rc_clone (t_conns task) s))"
    have step: "idle_task_poll closed tick now task s = idle_task_poll closed tick now ?task ?s"
      using open_now Some less.prems(4) by (subst idle_task_poll.simps) (simp add: weak_upgrade_eq)
    have "rc_read ?a s \<noteq> None" using less.prems(4) by simp
    note u = upgraded_modify [OF less.prems(3) this, where f = ?f]
    have r: "rc_read ?a ?s = Some (?f p)" using u(1) [of ?a] less.prems(4) by (simp add: rc_read_modify)
    from less.prems(1) Some have "deadline (t_interval task) \<le> now" "deadline (t_interval task) < deadline iv"
      by (auto simp: timer_law_def)
    then have "Suc now - deadline (t_interval ?task) < Suc now - deadline (t_interval task)" by simp
    from less.hyps [OF this less.prems(1), of ?s "?f p"] less.prems(2) u(3) r
    obtain task' s' p' where res: "idle_task_poll closed tick now ?task ?s = Some (Pending, task', s')"
      and p': "rc_read ?a s' = Some p'"
      and how: "if tick now iv = None then p' = ?f p else swept now (t_idle_dur task) (?f p) p'"
      by (auto cong: if_cong)
    from how have "swept now (t_idle_dur task) p p'"
    proof (cases "tick now iv = None")
      case True
      with how have "p' = (?f ^^ Suc 0) p" by simp
      then show ?thesis unfolding swept_def by blast
    next
      case False
      with how obtain n where "p' = (?f ^^ Suc n) (?f p)" by (auto simp: swept_def)
      then have "p' = (?f ^^ Suc (Suc n)) p" by (simp add: funpow_swap1)
      then show ?thesis unfolding swept_def by blast
    qed
    with step res p' Some show ?thesis by auto
  qed
qed

section \<open>Properties\<close>

text \<open>
  Property C1. The \<open>unsafe\<close> code is safe: in every reachable state of a program that creates,
  clones and drops pools, takes, links, uses and drops handles while idle tasks run, the cell of
  every \<open>ConnectionPool\<close> still exists, so \<open>get\<close> and \<open>put\<close> do not touch freed memory, and every
  live handle still holds its connection, so \<open>deref\<close> does not panic, the unchecked unwraps of
  the forwarders are defined, and the destructor finds its key.
\<close>

theorem shared_memory_safe:
  assumes "shared_reach is_open s"
  shows "(a \<in> set (pools s) \<longrightarrow>
        ConnectionPool_get now a k (st s) \<noteq> None \<and> ConnectionPool_put now a k c (st s) \<noteq> None)
    \<and> (h \<in> set (live s) \<longrightarrow>
        is_ok (Pooled_as_ref h) \<and> Pooled_forward f h \<noteq> None \<and> is_ok (Pooled_drop is_open now h (st s)))"
proof (intro conjI impI)
  note inv = shared_inv_reach [OF assms]
  assume "a \<in> set (pools s)"
  then have "rc_read a (st s) \<noteq> None" by (rule shared_alive [OF inv])
  then show "ConnectionPool_get now a k (st s) \<noteq> None" "ConnectionPool_put now a k c (st s) \<noteq> None"
    by (auto simp: ConnectionPool_get_def ConnectionPool_put_def split: prod.splits)
next
  assume "h \<in> set (live s)"
  then have ok: "handle_ok h" using shared_inv_reach [OF assms] by (simp add: shared_inv_def)
  then show "is_ok (Pooled_as_ref h)" "Pooled_forward f h \<noteq> None"
    by (auto simp: handle_ok_def Pooled_as_ref_def Pooled_forward_def is_ok_def split: sum.splits)
  show "is_ok (Pooled_drop is_open now h (st s))"
    using ok_handle_drop [OF ok, of is_open now "st s"] by (auto simp: is_ok_def)
qed

theorem shared_memory_safe_witness:
  "ConnectionPool_get 5 0 ''a'' (snd (ConnectionPool_new (Some 1) (rc_empty :: (string, nat) pool_store))) \<noteq> None"
proof -
  let ?s = "\<lparr>st = rc_empty :: (string, nat) pool_store, pools = [], live = []\<rparr>"
  have new: "ConnectionPool_new (Some 1) (st ?s) = (0, snd (ConnectionPool_new (Some 1) (st ?s)))"
    by (simp add: ConnectionPool_new_def rc_new_def rc_empty_def)
  have "shared_reach (\<lambda>_. True) ?s" by (rule reachable.reach_init) (simp add: shared_start_def)
  then have "shared_reach (\<lambda>_. True) (?s\<lparr>st := snd (ConnectionPool_new (Some 1) (st ?s)), pools := [0]\<rparr>)"
    by (rule reachable.reach_step) (use shared_step.sh_new [OF new] in simp)
  from shared_memory_safe [OF this, of 0 5 "''a''"] show ?thesis by simp
qed

text \<open>
  Aliasing: what one clone of a \<open>ConnectionPool\<close> is given back, every clone serves.
  A handle dropped with an open connection while the pool is alive is what the next \<open>get\<close> of
  its key returns when the queue was empty, marked as reused, through whichever reference.
\<close>

lemma drop_then_get:
  assumes "rc_inv s" and "rc_read a s = Some p" and "pool_reach p" and "queue_of p k = []"
    and "is_open c"
    and "Pooled_drop is_open now (Pooled_new k c r a) s = Ok s'"
  shows "\<exists>s''. ConnectionPool_get now' a k s' = Some (Some (Pooled_new k c True a), s'')"
proof -
  have s': "rc_read a s' = Some (pool_release now k c p)"
    using drop_live_read(1) [OF assms(1) assms(5,2,6)] by simp
  have "pool_wf p" using pool_inv_reach [OF assms(3)] by (simp add: pool_inv_def)
  moreover have "pool_abs p k = []" using assms(4) by (simp add: pool_abs_def)
  ultimately have "fst (pool_get now' k (pool_release now k c p)) = Some c"
    by (simp add: pool.fetch_result pool.give_queue last_n_all)
  then show ?thesis
    by (cases "pool_get now' k (pool_release now k c p)") (simp add: ConnectionPool_get_def s')
qed

text \<open>
  A closed connection never enters a pool, and neither does one whose pool is gone
  or that was never pooled: the destructor leaves every pool as it was.
\<close>

lemma drop_rejects:
  assumes "\<not> is_open c \<or> rc_read a s = None"
  shows "Pooled_drop is_open now (Pooled_new k c r a) s = Ok s
    \<and> Pooled_drop is_open now (unpooled c) s = Ok s"
  using assms by (auto simp: Pooled_drop_def Pooled_new_def unpooled_def weak_upgrade_eq)

text \<open>
  Property C32. One poll of the idle task of a live pool returns: it ends pending, with the pool
  unchanged when no tick is due, and otherwise with exactly the entries left that are not older
  than the idle duration. The task stays alive as long as the pool.
\<close>

theorem idle_task_sweeps:
  assumes "timer_law deadline tick" and "closed_law (t_conns task) closed"
    and "rc_inv s" and "rc_read (t_conns task) s = Some p" and "pool_reach p"
  shows "\<exists>task' s' p'. idle_task_poll closed tick now task s = Some (Pending, task', s')
    \<and> rc_read (t_conns task) s' = Some p'
    \<and> queue_of p' k = (if tick now (t_interval task) = None then queue_of p k
        else [i \<leftarrow> queue_of p k. now - idle_at i \<le> t_idle_dur task])"
proof -
  have wf: "pool_wf p" using pool_inv_reach [OF assms(5)] by (simp add: pool_inv_def)
  from idle_poll_alive [OF assms(1-4), of now] obtain task' s' p' where
    res: "idle_task_poll closed tick now task s = Some (Pending, task', s')"
    and p': "rc_read (t_conns task) s' = Some p'"
    and how: "if tick now (t_interval task) = None then p' = p else swept now (t_idle_dur task) p p'"
    by blast
  have "queue_of p' k = [i \<leftarrow> queue_of p k. \<not> expired now (t_idle_dur task) i]"
    if "swept now (t_idle_dur task) p p'"
    using that clear_repeat_queue [OF wf] unfolding swept_def by blast
  with res p' how show ?thesis by (auto simp: expired_def elapsed_def not_less)
qed

theorem idle_task_sweeps_witness:
  "\<exists>task' s' p'. idle_task_poll (\<lambda>s. rc_read 0 s = None)
      (\<lambda>now t. if t \<le> now then Some (t + MIN_INTERVAL) else None) 20
      \<lparr>t_conns = 0, t_interval = 3, t_idle_dur = 10\<rparr>
      (snd (rc_new (pool_put 5 ''a'' (7::nat) (new_with_dropper None)) rc_empty)) = Some (Pending, task', s')
    \<and> rc_read 0 s' = Some p' \<and> queue_of p' ''a'' = []"
proof -
  let ?p = "pool_put 5 ''a'' (7::nat) (new_with_dropper None)"
  let ?s = "snd (rc_new ?p rc_empty)"
  have t: "timer_law (\<lambda>t. t) (\<lambda>now t. if t \<le> now then Some (t + MIN_INTERVAL) else None)"
    by (simp add: timer_law_def MIN_INTERVAL_def from_secs_def)
  have c: "closed_law 0 (\<lambda>s :: (string, nat) pool_store. rc_read 0 s = None)"
    by (simp add: closed_law_def)
  have r: "rc_read 0 ?s = Some ?p" by (simp add: rc_new_def rc_empty_def rc_read_def)
  have "pool_reach ?p" by (intro pool_reach.intros)
  from idle_task_sweeps [OF t _ _ _ this, of "\<lparr>t_conns = 0, t_interval = 3, t_idle_dur = 10\<rparr>"
      "\<lambda>s. rc_read 0 s = None" ?s 20 "''a''"] c r
  show ?thesis by (simp add: rc.invar_alloc put_queue Idle_new_def)
qed

text \<open>
  The idle task ends with its pool: once the last \<open>ConnectionPool\<close> is dropped, the
  next poll that sees the channel closed or a tick due finishes the task and touches nothing.
\<close>

lemma idle_task_exits:
  assumes "rc_read (t_conns task) s = None" and "closed s \<or> tick now (t_interval task) \<noteq> None"
  shows "\<exists>task'. idle_task_poll closed tick now task s = Some (Ready, task', s)"
  using assms by (subst idle_task_poll.simps) (auto simp: weak_upgrade_eq)

end
