(* ===== verification/Connectors.thy ===== *)
theory Connectors
  imports Shared_Pool
begin

text \<open>
  Connectors and their combinators: \<open>src/connectors/mod.rs\<close> (the trait, the timeout extension and
  the ALPN metadata), \<open>src/pool/map.rs\<close> (\<open>ConnectorMap\<close>), \<open>src/pool/reuse.rs\<close> (\<open>Reuse\<close> and
  \<open>ReuseConnector\<close>) and \<open>src/pool/connector.rs\<close> (\<open>PooledConnector\<close>). A connector is a function
  from the key to an effectful computation; the combinators build one from another.
\<close>

section \<open>The trait and the metadata\<close>

type_synonym ('w, 'k, 'c, 'e) connector = "'k \<Rightarrow> ('w, 'c, 'e) io"

text \<open>
  \<open>connect_with_timeout\<close>: the runtime's \<open>timeout\<close> turns a computation into one that may instead
  report that the time has elapsed; it is a parameter.
\<close>

definition connect_with_timeout ::
  "(duration \<Rightarrow> ('w \<Rightarrow> ('c, 'e) result \<times> 'w) \<Rightarrow> 'w \<Rightarrow> (('c, 'e) result, 'elapsed) result \<times> 'w)
    \<Rightarrow> ('w, 'k, 'c, 'e) connector \<Rightarrow> 'k \<Rightarrow> duration \<Rightarrow> 'w \<Rightarrow> (('c, 'e) result, 'elapsed) result \<times> 'w" where
  "connect_with_timeout timeout connect key d = timeout d (connect key)"

datatype Alpn = HTTP2 | HTTP11 | NoAlpn

record TransportConnMeta =
  alpn :: Alpn

definition TransportConnMeta_default :: TransportConnMeta where
  "TransportConnMeta_default = \<lparr>alpn = NoAlpn\<rparr>"

definition as_bytes :: "string \<Rightarrow> u8 list" where
  "as_bytes s = map of_char s"

definition set_alpn :: "u8 list option \<Rightarrow> TransportConnMeta \<Rightarrow> TransportConnMeta" where
  "set_alpn a m =
     m\<lparr>alpn := (case a of Some p \<Rightarrow> if p = as_bytes ''h2'' then HTTP2 else NoAlpn | None \<Rightarrow> NoAlpn)\<rparr>"

definition is_alpn_h2 :: "TransportConnMeta \<Rightarrow> bool" where
  "is_alpn_h2 m = (case alpn m of HTTP2 \<Rightarrow> True | _ \<Rightarrow> False)"

lemma of_char_u8_inj: "(of_char a :: u8) = of_char b \<longleftrightarrow> a = b"
proof
  assume "(of_char a :: u8) = of_char b"
  then have "(of_nat (of_char a) :: u8) = of_nat (of_char b)" by (simp only: of_nat_of_char)
  then have "unat (of_nat (of_char a) :: u8) = unat (of_nat (of_char b) :: u8)" by simp
  then have "(of_char a :: nat) = of_char b"
    by (simp add: unat_of_nat)
  then show "a = b" by simp
qed simp

lemma as_bytes_inj: "as_bytes s = as_bytes t \<longleftrightarrow> s = t"
  unfolding as_bytes_def by (rule inj_map_eq_map) (simp add: inj_def of_char_u8_inj)

lemma is_alpn_h2_set: "is_alpn_h2 (set_alpn a m) \<longleftrightarrow> a = Some (as_bytes ''h2'')"
  by (auto simp: is_alpn_h2_def set_alpn_def split: option.splits)

section \<open>ConnectorMap\<close>

text \<open>
  A mapper is a function on results. A closure maps a result by a call of itself; the unit mapper
  is the identity.
\<close>

type_synonym ('c, 'e, 'd, 'f) mapper = "('c, 'e) result \<Rightarrow> ('d, 'f) result"

definition mapper_map :: "('c, 'e, 'd, 'f) mapper \<Rightarrow> ('c, 'e) result \<Rightarrow> ('d, 'f) result" where
  [simp]: "mapper_map self inner = self inner"

definition unit_mapper :: "('c, 'e, 'c, 'e) mapper" where
  "unit_mapper inner = inner"

record ('w, 'k, 'c, 'e, 'd, 'f) ConnectorMap =
  cm_inner :: "('w, 'k, 'c, 'e) connector"
  cm_mapper :: "('c, 'e, 'd, 'f) mapper"

definition ConnectorMap_new :: "('w, 'k, 'c, 'e) connector \<Rightarrow> ('c, 'e, 'd, 'f) mapper
    \<Rightarrow> ('w, 'k, 'c, 'e, 'd, 'f) ConnectorMap" where
  "ConnectorMap_new inner m = \<lparr>cm_inner = inner, cm_mapper = m\<rparr>"

definition with_mapper :: "('c, 'e, 'd2, 'f2) mapper \<Rightarrow> ('w, 'k, 'c, 'e, 'd, 'f) ConnectorMap
    \<Rightarrow> ('w, 'k, 'c, 'e, 'd2, 'f2) ConnectorMap" where
  "with_mapper m self = \<lparr>cm_inner = cm_inner self, cm_mapper = m\<rparr>"

text \<open>\<open>inner_default\<close> is the default of the inner connector.\<close>

definition ConnectorMap_default :: "('w, 'k, 'c, 'e) connector \<Rightarrow> ('w, 'k, 'c, 'e, 'c, 'e) ConnectorMap" where
  "ConnectorMap_default inner_default = \<lparr>cm_inner = inner_default, cm_mapper = unit_mapper\<rparr>"

definition ConnectorMap_from :: "('w, 'k, 'c, 'e) connector \<Rightarrow> ('w, 'k, 'c, 'e, 'c, 'e) ConnectorMap" where
  "ConnectorMap_from inner = \<lparr>cm_inner = inner, cm_mapper = unit_mapper\<rparr>"

definition ConnectorMap_connect :: "('w, 'k, 'c, 'e, 'd, 'f) ConnectorMap \<Rightarrow> ('w, 'k, 'd, 'f) connector" where
  "ConnectorMap_connect self key w = (case cm_inner self key w of (inner, w') \<Rightarrow> (mapper_map (cm_mapper self) inner, w'))"

section \<open>Reuse\<close>

record 'c Reuse =
  r_inner :: 'c
  r_reuse :: bool

definition Reuse_new :: "'c \<Rightarrow> bool \<Rightarrow> 'c Reuse" where
  "Reuse_new c b = \<lparr>r_inner = c, r_reuse = b\<rparr>"

definition into_inner :: "'c Reuse \<Rightarrow> 'c" where
  "into_inner r = r_inner r"

definition Reuse_is_reused :: "'c Reuse \<Rightarrow> bool" where
  "Reuse_is_reused r = r_reuse r"

definition set_reuse :: "bool \<Rightarrow> 'c Reuse \<Rightarrow> 'c Reuse" where
  "set_reuse b r = r\<lparr>r_reuse := b\<rparr>"

definition Reuse_is_open :: "'c Reuse \<Rightarrow> bool" where
  "Reuse_is_open r = r_reuse r"

text \<open>\<open>deref_mut\<close>, \<open>as_mut\<close> and the forwarded reads and writes: an operation on the inner value.\<close>

definition Reuse_forward :: "('c \<Rightarrow> 'a \<times> 'c) \<Rightarrow> 'c Reuse \<Rightarrow> 'a \<times> 'c Reuse" where
  "Reuse_forward f r = (case f (r_inner r) of (a, c) \<Rightarrow> (a, r\<lparr>r_inner := c\<rparr>))"

definition ReuseConnector_connect :: "('w, 'k, 'c, 'e) connector \<Rightarrow> ('w, 'k, 'c Reuse, 'e) connector" where
  "ReuseConnector_connect inner key = io_bind (inner key) (\<lambda>c. io_return (Reuse_new c True))"

section \<open>PooledConnector\<close>

text \<open>
  The world of a connector that owns a pool: the store of pools, the clock and the rest. While the
  transport connector is awaited other tasks run, so it acts on the whole world.
\<close>

record ('k, 'c, 'w) world =
  w_store :: "('k, 'c) pool_store"
  w_clock :: instant
  w_env :: 'w

record ('k, 'c, 'e, 'w) PooledConnector =
  transport_connector :: "(('k, 'c, 'w) world, 'k, 'c, 'e) connector"
  pc_pool :: pool_ref

definition PooledConnector_new :: "(('k, 'c, 'w) world, 'k, 'c, 'e) connector \<Rightarrow> pool_ref
    \<Rightarrow> ('k, 'c, 'e, 'w) PooledConnector" where
  "PooledConnector_new c p = \<lparr>transport_connector = c, pc_pool = p\<rparr>"

definition into_parts :: "('k, 'c, 'e, 'w) PooledConnector
    \<Rightarrow> (('k, 'c, 'w) world, 'k, 'c, 'e) connector \<times> pool_ref" where
  "into_parts self = (transport_connector self, pc_pool self)"

definition get_transport_connector :: "('k, 'c, 'e, 'w) PooledConnector \<Rightarrow> (('k, 'c, 'w) world, 'k, 'c, 'e) connector" where
  "get_transport_connector self = transport_connector self"

definition get_pool :: "('k, 'c, 'e, 'w) PooledConnector \<Rightarrow> pool_ref" where
  "get_pool self = pc_pool self"

definition new_with_default_pool :: "(('k, 'c, 'w) world, 'k, 'c, 'e) connector \<Rightarrow> ('k, 'c, 'w) world
    \<Rightarrow> ('k, 'c, 'e, 'w) PooledConnector \<times> ('k, 'c, 'w) world" where
  "new_with_default_pool c w =
     (case ConnectionPool_default (w_store w) of (p, s) \<Rightarrow> (PooledConnector_new c p, w\<lparr>w_store := s\<rparr>))"

definition PooledConnector_default :: "(('k, 'c, 'w) world, 'k, 'c, 'e) connector \<Rightarrow> ('k, 'c, 'w) world
    \<Rightarrow> ('k, 'c, 'e, 'w) PooledConnector \<times> ('k, 'c, 'w) world" where
  "PooledConnector_default c_default w =
     (case ConnectionPool_default (w_store w) of (p, s) \<Rightarrow> (PooledConnector_new c_default p, w\<lparr>w_store := s\<rparr>))"

definition PooledConnector_clone :: "('k, 'c, 'e, 'w) PooledConnector \<Rightarrow> ('k, 'c, 'w) world
    \<Rightarrow> ('k, 'c, 'e, 'w) PooledConnector \<times> ('k, 'c, 'w) world" where
  "PooledConnector_clone self w =
     (case ConnectionPool_clone (pc_pool self) (w_store w) of
        (p, s) \<Rightarrow> (\<lparr>transport_connector = transport_connector self, pc_pool = p\<rparr>, w\<lparr>w_store := s\<rparr>))"

definition PooledConnector_connect :: "('k, 'c, 'e, 'w) PooledConnector \<Rightarrow> 'k \<Rightarrow> ('k, 'c, 'w) world
    \<Rightarrow> ((('k, 'c) Pooled, 'e) result \<times> ('k, 'c, 'w) world) option" where
  "PooledConnector_connect self key w =
     (case ConnectionPool_get (w_clock w) (pc_pool self) key (w_store w) of
        None \<Rightarrow> None
      | Some (Some c, s) \<Rightarrow> Some (Ok c, w\<lparr>w_store := s\<rparr>)
      | Some (None, s) \<Rightarrow>
          Some (io_bind (transport_connector self key)
                  (\<lambda>io. io_return (ConnectionPool_link (pc_pool self) key io))
                  (w\<lparr>w_store := s\<rparr>)))"

section \<open>Behaviour\<close>

lemma rc_write_same: "rc_read a s = Some v \<Longrightarrow> rc_write a v s = s"
  by (cases s) (auto simp: rc_write_def rc_read_def fun_eq_iff split: option.splits)

lemma pooled_connect_hit:
  assumes "rc_read (pc_pool pc) (w_store w) = Some p" and "pool_wf p" and "queue_of p key = i # q"
  shows "PooledConnector_connect pc key w =
    Some (Ok (Pooled_new key (conn i) True (pc_pool pc)),
      w\<lparr>w_store := rc_write (pc_pool pc) (set_queue key q p) (w_store w)\<rparr>)"
  using assms by (simp add: PooledConnector_connect_def ConnectionPool_get_def get_wf)

lemma pooled_connect_miss:
  assumes "rc_read (pc_pool pc) (w_store w) = Some p" and "pool_wf p" and "queue_of p key = []"
  shows "PooledConnector_connect pc key w =
    Some (case transport_connector pc key w of
        (Inl e, w') \<Rightarrow> (Inl e, w')
      | (Inr c, w') \<Rightarrow> (Inr (Pooled_new key c False (pc_pool pc)), w'))"
  using assms
  by (simp add: PooledConnector_connect_def ConnectionPool_get_def get_wf rc_write_same io_bind_def
      io_return_def ConnectionPool_link_def split: prod.splits sum.splits)

section \<open>Properties\<close>

text \<open>
  Property C16. \<open>PooledConnector::connect\<close>: with an idle connection under the key it returns the
  oldest one, marked as reused, without calling the transport, so that nothing but the pool
  changes; without one it is the transport's answer to the same key, an error as it is and a
  connection wrapped as a fresh handle of that key and pool.
\<close>

theorem pooled_connect_spec:
  assumes "rc_read (pc_pool pc) (w_store w) = Some p" and "pool_reach p"
  shows "PooledConnector_connect pc key w =
    (case queue_of p key of
       i # q \<Rightarrow> Some (Ok (Pooled_new key (conn i) True (pc_pool pc)),
          w\<lparr>w_store := rc_write (pc_pool pc) (set_queue key q p) (w_store w)\<rparr>)
     | [] \<Rightarrow> Some (case transport_connector pc key w of
          (Inl e, w') \<Rightarrow> (Inl e, w')
        | (Inr c, w') \<Rightarrow> (Inr (Pooled_new key c False (pc_pool pc)), w')))"
proof -
  have "pool_wf p" using pool_inv_reach [OF assms(2)] by (simp add: pool_inv_def)
  with assms(1) show ?thesis
    by (auto simp: pooled_connect_hit pooled_connect_miss split: list.splits)
qed

theorem pooled_connect_spec_witness:
  "PooledConnector_connect \<lparr>transport_connector = (\<lambda>k w. (Inr (3::nat), w\<lparr>w_env := Suc (w_env w)\<rparr>)), pc_pool = 0\<rparr>
     ''a'' \<lparr>w_store = snd (ConnectionPool_new None rc_empty), w_clock = 4, w_env = 0\<rparr>
   = Some (Inr (Pooled_new ''a'' 3 False 0) :: ((string, nat) Pooled, unit) result,
       \<lparr>w_store = snd (ConnectionPool_new None rc_empty), w_clock = 4, w_env = 1\<rparr>)"
proof -
  let ?w = "\<lparr>w_store = snd (ConnectionPool_new None rc_empty) :: (string, nat) pool_store, w_clock = 4, w_env = 0 :: nat\<rparr>"
  have "rc_read 0 (w_store ?w) = Some (PoolInner_new None)"
    by (simp add: ConnectionPool_new_def rc_new_def rc_empty_def rc_read_def)
  then show ?thesis
    using pooled_connect_spec [of "\<lparr>transport_connector = (\<lambda>k w. (Inr (3::nat), w\<lparr>w_env := Suc (w_env w)\<rparr>)), pc_pool = 0\<rparr>"
        ?w "PoolInner_new None" "''a''", OF _ pool_reach.new]
    by simp
qed

text \<open>
  Reuse through the pool: when a handle is dropped with an open connection and the
  queue of its key is empty, the next \<open>connect\<close> with that key returns the very same connection
  and does not call the transport.
\<close>

lemma pooled_connect_reuses:
  assumes "rc_inv (w_store w)" and "rc_read (pc_pool pc) (w_store w) = Some p" and "pool_reach p"
    and "queue_of p key = []" and "is_open c"
    and "Pooled_drop is_open now (Pooled_new key c r (pc_pool pc)) (w_store w) = Ok s'"
  shows "\<exists>s''. PooledConnector_connect pc key (w\<lparr>w_store := s'\<rparr>) =
    Some (Ok (Pooled_new key c True (pc_pool pc)), w\<lparr>w_store := s''\<rparr>)"
proof -
  have wf: "pool_wf p" using pool_inv_reach [OF assms(3)] by (simp add: pool_inv_def)
  have read: "rc_read (pc_pool pc) (w_store (w\<lparr>w_store := s'\<rparr>)) = Some (pool_release now key c p)"
    using drop_live_read(1) [OF assms(1) _ assms(2,6)] assms(5) by simp
  have "queue_of (pool_release now key c p) key = [Idle_new now c]"
    using assms(4) by (simp add: release_queue last_n_all)
  from pooled_connect_hit [OF read pool_wf_ops(3) [OF wf] this]
  have "PooledConnector_connect pc key (w\<lparr>w_store := s'\<rparr>) =
    Some (Ok (Pooled_new key c True (pc_pool pc)),
      w\<lparr>w_store := rc_write (pc_pool pc) (set_queue key [] (pool_release now key c p)) s'\<rparr>)"
    by (simp add: Idle_new_def)
  then show ?thesis by blast
qed

lemma reuse_connector_open: "fst (ReuseConnector_connect inner key w) = Ok c \<Longrightarrow> Reuse_is_open c"
  by (auto simp: ReuseConnector_connect_def io_defs Reuse_new_def Reuse_is_open_def split: prod.splits sum.splits)

text \<open>
  \<open>Reuse\<close> decides about pooling: a connection from \<open>ReuseConnector\<close> counts as open
  until \<open>set_reuse(false)\<close>, and a dropped handle returns it to a live pool exactly in that case.
\<close>

lemma reuse_controls_pooling:
  assumes "rc_inv s" and "rc_read a s = Some p"
  shows "(\<exists>s'. Pooled_drop Reuse_is_open now (Pooled_new k (set_reuse b c) r a) s = Ok s'
      \<and> rc_read a s' = Some (if b then pool_release now k (set_reuse b c) p else p))
    \<and> (fst (ReuseConnector_connect inner key w) = Ok c0 \<longrightarrow> Reuse_is_open c0)"
proof (intro conjI impI reuse_connector_open)
  show "\<exists>s'. Pooled_drop Reuse_is_open now (Pooled_new k (set_reuse b c) r a) s = Ok s'
      \<and> rc_read a s' = Some (if b then pool_release now k (set_reuse b c) p else p)"
  proof (cases b)
    case True
    then have "Reuse_is_open (set_reuse b c)" by (simp add: Reuse_is_open_def set_reuse_def)
    moreover obtain s' where "Pooled_drop Reuse_is_open now (Pooled_new k (set_reuse b c) r a) s = Ok s'"
      using drop_live [where is_open = Reuse_is_open, OF calculation assms(2), of now k r] by blast
    ultimately show ?thesis
      using drop_live_read(1) [OF assms(1) _ assms(2), of Reuse_is_open "set_reuse b c" now k r s' a] True by auto
  next
    case False
    then show ?thesis
      using assms(2) by (simp add: Pooled_drop_def Pooled_new_def Reuse_is_open_def set_reuse_def)
  qed
qed

text \<open>
  The metadata of a transport says HTTP/2 exactly when the negotiated protocol is the
  two bytes \<open>h2\<close>; the value \<open>Alpn::HTTP11\<close> is never set.
\<close>

lemma alpn_decision:
  "is_alpn_h2 (set_alpn a m) = (a = Some [0x68, 0x32]) \<and> alpn (set_alpn a m) \<noteq> HTTP11"
proof (rule conjI)
  show "is_alpn_h2 (set_alpn a m) = (a = Some [0x68, 0x32])"
    unfolding is_alpn_h2_set by (simp add: as_bytes_def)
  show "alpn (set_alpn a m) \<noteq> HTTP11"
    by (auto simp: set_alpn_def split: option.splits)
qed

text \<open>
  \<open>ConnectorMap\<close> composes: mapping twice is mapping once with the composed mapper, the
  connector converted with \<open>From\<close> behaves as the inner one, and \<open>with_mapper\<close> forgets the
  mapper it replaces.
\<close>

lemma connector_map_laws:
  "ConnectorMap_connect (ConnectorMap_new (ConnectorMap_connect (ConnectorMap_new c f)) g)
     = ConnectorMap_connect (ConnectorMap_new c (g \<circ> f))
   \<and> ConnectorMap_connect (ConnectorMap_from c) = c
   \<and> ConnectorMap_connect (with_mapper g (ConnectorMap_new c f)) = ConnectorMap_connect (ConnectorMap_new c g)"
  by (simp add: ConnectorMap_connect_def ConnectorMap_new_def ConnectorMap_from_def with_mapper_def
      unit_mapper_def fun_eq_iff split: prod.splits)

end
