(* ===== verification/Http_Connection.thy ===== *)
theory Http_Connection
  imports Streams Connectors
begin

text \<open>
  HTTP connections, \<open>src/http/connection.rs\<close>: \<open>Http1Connection\<close> over the codec of monoio-http,
  \<open>Http2Connection\<close> over its \<open>SendRequest\<close>, and the enum \<open>HttpConnection\<close>. The codec, the HTTP/2
  client and the request body are library code: their operations are fields of the records
  \<open>h1_codec\<close> and \<open>h2_client\<close>, and the codec and body states stand for everything those own,
  the peer's bytes included. The loops are partial functions, so that a response that never ends
  is the value \<open>None\<close>.
\<close>

section \<open>HTTP/1.1\<close>

datatype 'd PayloadDecoder = PayloadDecoder_None | PayloadDecoder_Fixed 'd | PayloadDecoder_Streamed 'd

text \<open>
  A payload is what its sender has been fed: the pairs of \<open>fixed_payload_pair\<close> and
  \<open>stream_payload_pair\<close> connect the sender used here with the receiver inside the response.
\<close>

datatype ('b, 'e) Payload = Payload_None | Payload_Fixed "('b, 'e) result list" | Payload_Stream "'b option list"

record ('p, 'body) Response =
  resp_parts :: 'p
  resp_body :: 'body

record ('cd, 'req, 'p, 'd, 'b, 'e) h1_codec =
  send_and_flush :: "'req \<Rightarrow> 'cd \<Rightarrow> (unit, 'e) result \<times> 'cd"
  next_response :: "'cd \<Rightarrow> ('p \<times> 'd PayloadDecoder, 'e) result option \<times> 'cd"
  next_data :: "('d \<times> 'cd, 'b, 'e) source"
  UnexpectedEof :: 'e

record 'cd Http1Connection =
  framed :: 'cd
  using_conn :: bool
  open_conn :: bool

definition Http1Connection_new :: "'cd \<Rightarrow> 'cd Http1Connection" where
  "Http1Connection_new cd = \<lparr>framed = cd, using_conn = False, open_conn = True\<rparr>"

definition Http1Connection_is_open :: "'cd Http1Connection \<Rightarrow> bool" where
  "Http1Connection_is_open c \<longleftrightarrow> open_conn c \<and> \<not> using_conn c"

text \<open>
  The loop of the streamed branch. It returns the items fed to the payload, with the end mark,
  or the decoder's error.
\<close>

partial_function (option) stream_payload_loop :: "('d \<times> 'cd, 'b, 'e) source \<Rightarrow> 'b option list \<Rightarrow> 'd \<times> 'cd
    \<Rightarrow> (('b option list, 'e) result \<times> 'cd) option" where
  "stream_payload_loop nxt fed s =
     (case nxt s of
        (r, s') \<Rightarrow>
          (case r of
             None \<Rightarrow> Some (Ok (fed @ [None]), snd s')
           | Some (Inl e) \<Rightarrow> Some (Err e, snd s')
           | Some (Inr d) \<Rightarrow> stream_payload_loop nxt (fed @ [Some d]) s'))"

text \<open>\<open>Http1Connection::send_request\<close>: the answer, the boolean next to it, and the connection afterwards.\<close>

type_synonym ('p, 'b, 'e) h1_answer = "(('p, ('b, 'e) Payload) Response, 'e) result \<times> bool"

definition Http1Connection_send_request :: "('cd, 'req, 'p, 'd, 'b, 'e) h1_codec \<Rightarrow> 'cd Http1Connection \<Rightarrow> 'req
    \<Rightarrow> (('p, 'b, 'e) h1_answer \<times> 'cd Http1Connection) option" where
  "Http1Connection_send_request C self request =
     (case send_and_flush C request (framed self) of
        (Inl e, cd) \<Rightarrow> Some ((Err e, False), self\<lparr>framed := cd, open_conn := False\<rparr>)
      | (Inr _, cd) \<Rightarrow>
          (case next_response C cd of
             (Some (Inr (parts, decoder)), cd1) \<Rightarrow>
               (case decoder of
                  PayloadDecoder_None \<Rightarrow>
                    Some ((Ok \<lparr>resp_parts = parts, resp_body = Payload_None\<rparr>, False), self\<lparr>framed := cd1\<rparr>)
                | PayloadDecoder_Fixed d \<Rightarrow>
                    (case next_data C (d, cd1) of
                       (data, s) \<Rightarrow>
                         Some ((Ok \<lparr>resp_parts = parts,
                                    resp_body = Payload_Fixed (case data of None \<Rightarrow> [] | Some r \<Rightarrow> [r])\<rparr>, False),
                               self\<lparr>framed := snd s\<rparr>))
                | PayloadDecoder_Streamed d \<Rightarrow>
                    (case stream_payload_loop (next_data C) [] (d, cd1) of
                       None \<Rightarrow> None
                     | Some (Inl e, cd2) \<Rightarrow> Some ((Err e, False), self\<lparr>framed := cd2, open_conn := False\<rparr>)
                     | Some (Inr fed, cd2) \<Rightarrow>
                         Some ((Ok \<lparr>resp_parts = parts, resp_body = Payload_Stream fed\<rparr>, False),
                               self\<lparr>framed := cd2\<rparr>)))
           | (Some (Inl e), cd1) \<Rightarrow> Some ((Err e, False), self\<lparr>framed := cd1, open_conn := False\<rparr>)
           | (None, cd1) \<Rightarrow>
               Some ((Err (UnexpectedEof C), False), self\<lparr>framed := cd1, open_conn := False\<rparr>)))"

section \<open>HTTP/2\<close>

record 'tx Http2Connection =
  tx :: 'tx

text \<open>
  The client of monoio-http: \<open>has_conn_error\<close> and \<open>conn_error\<close> read the state of the shared
  connection, which lives in the world \<open>'w\<close>; a clone of a \<open>SendRequest\<close> refers to the same one.
  \<open>'rf\<close> is the response future, \<open>'st\<close> the stream that sends the body.
\<close>

record ('w, 'tx, 'hd, 'rf, 'st, 'b, 'p, 'rb, 'e) h2_client =
  tx_conn_error :: "'w \<Rightarrow> 'tx \<Rightarrow> 'e option"
  tx_ready :: "'tx \<Rightarrow> ('w, 'tx, 'e) io"
  tx_send_request :: "'tx \<Rightarrow> 'hd \<Rightarrow> bool \<Rightarrow> ('w, 'rf \<times> 'st, 'e) io"
  send_data :: "'st \<Rightarrow> 'b \<Rightarrow> bool \<Rightarrow> ('w, unit, 'e) io"
  await_response :: "'rf \<Rightarrow> ('w, 'p \<times> 'rb, 'e) io"
  Bytes_new :: 'b

definition Http2Connection_new :: "'tx \<Rightarrow> 'tx Http2Connection" where
  "Http2Connection_new t = \<lparr>tx = t\<rparr>"

definition Http2Connection_to_owned :: "'tx Http2Connection \<Rightarrow> 'tx Http2Connection" where
  "Http2Connection_to_owned c = \<lparr>tx = tx c\<rparr>"

definition conn_error :: "('w \<Rightarrow> 'tx \<Rightarrow> 'e option) \<Rightarrow> 'w \<Rightarrow> 'tx Http2Connection \<Rightarrow> 'e option" where
  "conn_error err w c = err w (tx c)"

definition Http2Connection_is_open :: "('w \<Rightarrow> 'tx \<Rightarrow> 'e option) \<Rightarrow> 'w \<Rightarrow> 'tx Http2Connection \<Rightarrow> bool" where
  "Http2Connection_is_open err w c \<longleftrightarrow> \<not> (err w (tx c) \<noteq> None)"

text \<open>The loop over the request body: the first error of the body or of a send ends it.\<close>

partial_function (option) send_body_loop :: "('body, 'b, 'e) source \<Rightarrow> ('b \<Rightarrow> ('w, unit, 'e) io) \<Rightarrow> 'body \<Rightarrow> 'w
    \<Rightarrow> ((unit, 'e) result \<times> 'w) option" where
  "send_body_loop nxt send body w =
     (case nxt body of
        (r, body') \<Rightarrow>
          (case r of
             None \<Rightarrow> Some (Ok (), w)
           | Some (Inl e) \<Rightarrow> Some (Err e, w)
           | Some (Inr d) \<Rightarrow>
               (case send d w of
                  (q, w') \<Rightarrow>
                    (case q of
                       Inl e \<Rightarrow> Some (Err e, w')
                     | Inr _ \<Rightarrow> send_body_loop nxt send body' w'))))"

definition Http2Connection_send_request ::
  "('w, 'tx, 'hd, 'rf, 'st, 'b, 'p, 'rb, 'e) h2_client \<Rightarrow> ('body, 'b, 'e) source
    \<Rightarrow> 'tx Http2Connection \<Rightarrow> 'hd \<times> 'body \<Rightarrow> 'w
    \<Rightarrow> (((('p, 'rb) Response, 'e) result \<times> bool) \<times> 'w) option" where
  "Http2Connection_send_request C nxt self request w =
     (case tx_ready C (tx self) w of
        (Inl e, w1) \<Rightarrow> Some ((Err e, False), w1)
      | (Inr client, w1) \<Rightarrow>
          (case request of
             (parts, body) \<Rightarrow>
               (case tx_send_request C client parts False w1 of
                  (Inl e, w2) \<Rightarrow> Some ((Err e, False), w2)
                | (Inr (response, send_stream), w2) \<Rightarrow>
                    (case send_body_loop nxt (\<lambda>d. send_data C send_stream d False) body w2 of
                       None \<Rightarrow> None
                     | Some (Inl e, w3) \<Rightarrow> Some ((Err e, False), w3)
                     | Some (Inr _, w3) \<Rightarrow>
                         (case send_data C send_stream (Bytes_new C) True w3 of
                            (_, w4) \<Rightarrow>
                              (case await_response C response w4 of
                                 (Inl e, w5) \<Rightarrow> Some ((Err e, False), w5)
                               | (Inr (rparts, rbody), w5) \<Rightarrow>
                                   Some ((Ok \<lparr>resp_parts = rparts, resp_body = rbody\<rparr>, True), w5)))))))"

section \<open>The unified connection\<close>

datatype ('k, 'cd, 'tx) HttpConnection =
  Http1 "('k, 'cd Http1Connection) Pooled"
| Http2 "'tx Http2Connection"

definition HttpConnection_is_open :: "('w \<Rightarrow> 'tx \<Rightarrow> 'e option) \<Rightarrow> 'w \<Rightarrow> ('k, 'cd, 'tx) HttpConnection
    \<Rightarrow> (bool, panic) result" where
  "HttpConnection_is_open err w self =
     (case self of
        Http1 pooled \<Rightarrow> res_map Http1Connection_is_open (Pooled_as_ref pooled)
      | Http2 c \<Rightarrow> Ok (Http2Connection_is_open err w c))"

text \<open>A body of either kind, the target of the two \<open>into()\<close> of the code.\<close>

datatype ('b, 'e, 'rb) HttpBody = H1Body "('b, 'e) Payload" | H2Body 'rb

definition to_body :: "('a \<Rightarrow> 'b) \<Rightarrow> ('p, 'a) Response \<Rightarrow> ('p, 'b) Response" where
  "to_body f r = \<lparr>resp_parts = resp_parts r, resp_body = f (resp_body r)\<rparr>"

definition HttpConnection_send_request ::
  "('cd, 'hd \<times> 'body, 'p, 'd, 'b, 'e) h1_codec \<Rightarrow> ('w, 'tx, 'hd, 'rf, 'st, 'b, 'p, 'rb, 'e) h2_client
    \<Rightarrow> ('body, 'b, 'e) source \<Rightarrow> ('k, 'cd, 'tx) HttpConnection \<Rightarrow> 'hd \<times> 'body \<Rightarrow> 'w
    \<Rightarrow> (((('p, ('b, 'e, 'rb) HttpBody) Response, 'e) result \<times> bool) \<times> ('k, 'cd, 'tx) HttpConnection \<times> 'w, panic) result option" where
  "HttpConnection_send_request C1 C2 nxt self request w =
     (case self of
        Http1 pooled \<Rightarrow>
          (case p_value pooled of
             None \<Rightarrow> Some (Err NotDropped)
           | Some c \<Rightarrow>
               (case Http1Connection_send_request C1 c request of
                  None \<Rightarrow> None
                | Some ((res, reuse), c') \<Rightarrow>
                    Some (Ok ((res_map (to_body H1Body) res, reuse), Http1 (pooled\<lparr>p_value := Some c'\<rparr>), w))))
      | Http2 c \<Rightarrow>
          (case Http2Connection_send_request C2 nxt c request w of
             None \<Rightarrow> None
           | Some ((res, reuse), w') \<Rightarrow> Some (Ok ((res_map (to_body H2Body) res, reuse), Http2 c, w'))))"

section \<open>The loops\<close>

lemma stream_loop_ends:
  "ends_with nxt s xs s' \<Longrightarrow> stream_payload_loop nxt fed s = Some (Ok (fed @ map Some xs @ [None]), snd s')"
proof (induction xs arbitrary: s fed)
  case Nil
  then show ?case by (subst stream_payload_loop.simps) simp
next
  case (Cons x xs)
  then obtain s1 where "nxt s = (Some (Inr x), s1)" "ends_with nxt s1 xs s'" by (auto simp: ends_with_Cons)
  with Cons.IH [of s1 "fed @ [Some x]"] show ?case by (subst stream_payload_loop.simps) simp
qed

lemma stream_loop_fails:
  "fails_with nxt s xs e s' \<Longrightarrow> stream_payload_loop nxt fed s = Some (Err e, snd s')"
proof (induction xs arbitrary: s fed)
  case Nil
  then show ?case by (subst stream_payload_loop.simps) simp
next
  case (Cons x xs)
  then obtain s1 where "nxt s = (Some (Inr x), s1)" "fails_with nxt s1 xs e s'" by (auto simp: fails_with_Cons)
  with Cons.IH [of s1 "fed @ [Some x]"] show ?case by (subst stream_payload_loop.simps) simp
qed

text \<open>The loop returns only when the source stops.\<close>

lemma stream_loop_returns:
  assumes "stream_payload_loop nxt fed s = Some r"
  shows "\<exists>xs. (\<exists>s'. ends_with nxt s xs s') \<or> (\<exists>e s'. fails_with nxt s xs e s')"
proof (induction rule: stream_payload_loop.raw_induct [OF _ assms])
  case (1 loop nxt fed s r)
  obtain o1 s1 where n: "nxt s = (o1, s1)" by (cases "nxt s")
  show ?case
  proof (cases o1)
    case None
    with n have "ends_with nxt s [] s1" by simp
    then show ?thesis by blast
  next
    case (Some q)
    show ?thesis
    proof (cases q)
      case (Inl e)
      with n Some have "fails_with nxt s [] e s1" by simp
      then show ?thesis by blast
    next
      case (Inr d)
      with 1(2) n Some have "loop nxt (fed @ [Some d]) s1 = Some r" by simp
      from 1(1) [OF this] obtain xs where
        "(\<exists>s'. ends_with nxt s1 xs s') \<or> (\<exists>e s'. fails_with nxt s1 xs e s')" by blast
      with n Some Inr have "(\<exists>s'. ends_with nxt s (d # xs) s') \<or> (\<exists>e s'. fails_with nxt s (d # xs) e s')"
        by (simp add: ends_with_Cons fails_with_Cons)
      then show ?thesis by blast
    qed
  qed
qed

lemma stream_loop_None:
  "stream_payload_loop nxt fed s = None \<longleftrightarrow>
   \<not> (\<exists>xs s'. ends_with nxt s xs s' \<or> (\<exists>e. fails_with nxt s xs e s'))"
proof
  assume "stream_payload_loop nxt fed s = None"
  then show "\<not> (\<exists>xs s'. ends_with nxt s xs s' \<or> (\<exists>e. fails_with nxt s xs e s'))"
    using stream_loop_ends [of nxt s _ _ fed] stream_loop_fails [of nxt s _ _ _ fed] by fastforce
next
  assume "\<not> (\<exists>xs s'. ends_with nxt s xs s' \<or> (\<exists>e. fails_with nxt s xs e s'))"
  then show "stream_payload_loop nxt fed s = None"
    using stream_loop_returns [of nxt fed s] by (cases "stream_payload_loop nxt fed s") blast+
qed

text \<open>Sending a list of chunks one after the other, stopping at the first error.\<close>

primrec send_all :: "('b \<Rightarrow> ('w, unit, 'e) io) \<Rightarrow> 'b list \<Rightarrow> ('w, unit, 'e) io" where
  "send_all send [] = io_return ()"
| "send_all send (x # xs) = io_bind (send x) (\<lambda>_. send_all send xs)"

lemma body_loop_ends:
  "ends_with nxt body xs body' \<Longrightarrow> send_body_loop nxt send body w = Some (send_all send xs w)"
proof (induction xs arbitrary: body w)
  case Nil
  then show ?case by (subst send_body_loop.simps) (simp add: io_defs)
next
  case (Cons x xs)
  then obtain b1 where "nxt body = (Some (Inr x), b1)" "ends_with nxt b1 xs body'" by (auto simp: ends_with_Cons)
  with Cons.IH [of b1] show ?case
    by (subst send_body_loop.simps) (auto simp: io_defs split: prod.splits sum.splits)
qed

lemma body_loop_fails:
  "fails_with nxt body xs e body' \<Longrightarrow>
   send_body_loop nxt send body w = Some (io_bind (send_all send xs) (\<lambda>_. io_throw e) w)"
proof (induction xs arbitrary: body w)
  case Nil
  then show ?case by (subst send_body_loop.simps) (simp add: io_defs)
next
  case (Cons x xs)
  then obtain b1 where "nxt body = (Some (Inr x), b1)" "fails_with nxt b1 xs e body'" by (auto simp: fails_with_Cons)
  with Cons.IH [of b1] show ?case
    by (subst send_body_loop.simps) (auto simp: io_defs split: prod.splits sum.splits)
qed

text \<open>The whole HTTP/2 exchange as one sequence of operations that stops at the first error.\<close>

definition h2_exchange :: "('w, 'tx, 'hd, 'rf, 'st, 'b, 'p, 'rb, 'e) h2_client \<Rightarrow> 'tx \<Rightarrow> 'hd
    \<Rightarrow> (('b \<Rightarrow> ('w, unit, 'e) io) \<Rightarrow> ('w, unit, 'e) io) \<Rightarrow> ('w, ('p, 'rb) Response, 'e) io" where
  "h2_exchange C t head send =
     io_bind (tx_ready C t) (\<lambda>client.
     io_bind (tx_send_request C client head False) (\<lambda>(rf, st).
     io_bind (send (\<lambda>d. send_data C st d False)) (\<lambda>_.
     io_bind (io_ignore (send_data C st (Bytes_new C) True)) (\<lambda>_.
     io_map (\<lambda>(p, b). \<lparr>resp_parts = p, resp_body = b\<rparr>) (await_response C rf)))))"

lemma h2_send_request_loop:
  assumes "\<And>send w. send_body_loop nxt send body w = Some (f send w)"
  shows "Http2Connection_send_request C nxt c (head, body) w =
    Some (case h2_exchange C (tx c) head f w of (r, w') \<Rightarrow> ((r, is_ok r), w'))"
  by (auto simp: Http2Connection_send_request_def assms h2_exchange_def io_defs is_ok_def
      split: prod.splits sum.splits)

lemma h1_send_request_frame:
  assumes "Http1Connection_send_request C c req = Some ((res, reuse), c')"
  shows "\<not> reuse" and "using_conn c' = using_conn c" and "open_conn c' \<longleftrightarrow> open_conn c \<and> is_ok res"
  using assms
  by (auto simp: Http1Connection_send_request_def is_ok_def
      split: prod.splits sum.splits option.splits PayloadDecoder.splits)

text \<open>A codec whose peer sends one response and then the items of a list, for concrete runs.\<close>

definition list_codec :: "'p \<Rightarrow> 'd PayloadDecoder \<Rightarrow> 'e \<Rightarrow> (('b, 'e) result list, 'req, 'p, 'd, 'b, 'e) h1_codec" where
  "list_codec p dec eof =
     \<lparr>send_and_flush = (\<lambda>_ cd. (Ok (), cd)),
      next_response = (\<lambda>cd. (Some (Ok (p, dec)), cd)),
      next_data = (\<lambda>(d, cd). case list_source cd of (r, cd') \<Rightarrow> (r, (d, cd'))),
      UnexpectedEof = eof\<rparr>"

lemma list_codec_ends: "ends_with (next_data (list_codec p dec eof)) (d, map Inr xs) xs (d, [])"
  by (induction xs) (simp_all add: ends_with_Cons list_codec_def)

lemma list_codec_fails: "fails_with (next_data (list_codec p dec eof)) (d, map Inr xs @ Inl e # rest) xs e (d, rest)"
  by (induction xs) (simp_all add: fails_with_Cons list_codec_def)

section \<open>Properties\<close>

text \<open>
  Property C4. Only healthy HTTP/1.1 connections are pooled again: when a request on an open
  connection has returned, dropping the handle puts the connection back into its live pool if the
  request returned a response, and leaves the pool as it was if it returned an error.
\<close>

theorem h1_request_then_drop:
  assumes "rc_inv s" and "rc_read a s = Some p" and "Http1Connection_is_open c"
    and "Http1Connection_send_request C c req = Some ((res, reuse), c')"
  shows "\<exists>s'. Pooled_drop Http1Connection_is_open now (Pooled_new k c' r a) s = Ok s'
    \<and> rc_read a s' = Some (if is_ok res then pool_release now k c' p else p)"
proof -
  have opened: "Http1Connection_is_open c' \<longleftrightarrow> is_ok res"
    using assms(3) h1_send_request_frame(2,3) [OF assms(4)] by (auto simp: Http1Connection_is_open_def)
  show ?thesis
  proof (cases "is_ok res")
    case True
    with opened have op: "Http1Connection_is_open c'" by simp
    obtain s' where "Pooled_drop Http1Connection_is_open now (Pooled_new k c' r a) s = Ok s'"
      using drop_live [where is_open = Http1Connection_is_open, OF op assms(2), of now k r] by blast
    with True drop_live_read(1) [OF assms(1) op assms(2) this, of a] show ?thesis by auto
  next
    case False
    with opened assms(2) show ?thesis by (simp add: Pooled_drop_def Pooled_new_def)
  qed
qed

theorem h1_request_then_drop_witness:
  "\<exists>c' s'. Http1Connection_send_request (list_codec ''200'' (PayloadDecoder_Streamed ()) ''eof'')
       (Http1Connection_new [Inr (5::nat), Inl ''bad'']) ''GET'' = Some ((Err ''bad'', False), c')
     \<and> Pooled_drop Http1Connection_is_open 9 (Pooled_new ''a'' c' False 0) (snd (ConnectionPool_new None rc_empty)) = Ok s'
     \<and> rc_read 0 s' = Some (PoolInner_new None)"
proof -
  let ?C = "list_codec ''200'' (PayloadDecoder_Streamed ()) ''eof'' :: (_, string, _, _, nat, _) h1_codec"
  let ?c = "Http1Connection_new [Inr (5::nat), Inl ''bad'']"
  let ?s = "snd (ConnectionPool_new None rc_empty) :: (string, (nat, string) result list Http1Connection) pool_store"
  have inv: "rc_inv ?s" by (simp add: ConnectionPool_new_def rc.invar_alloc)
  have r: "rc_read 0 ?s = Some (PoolInner_new None)"
    by (simp add: ConnectionPool_new_def rc_new_def rc_empty_def rc_read_def)
  have op: "Http1Connection_is_open ?c" by (simp add: Http1Connection_is_open_def Http1Connection_new_def)
  have "stream_payload_loop (next_data ?C) [] ((), [Inr 5, Inl ''bad'']) = Some (Err ''bad'', [])"
    using stream_loop_fails [OF list_codec_fails [where xs = "[5]" and rest = "[]"]] by simp
  then have q: "Http1Connection_send_request ?C ?c ''GET'' =
      Some ((Err ''bad'', False), ?c\<lparr>framed := [], open_conn := False\<rparr>)"
    by (simp add: Http1Connection_send_request_def Http1Connection_new_def list_codec_def)
  from h1_request_then_drop [OF inv r op q, of 9 "''a''" False] q show ?thesis
    by (auto simp: is_ok_def)
qed

text \<open>
  Property C14. A streamed response is delivered whole or not at all. \<open>send_request\<close> returns exactly
  when the decoder stops; if it stops after the chunks \<open>ds\<close> the response carries them in order,
  followed by the end mark, and if it stops with an error the request fails with that error.
\<close>

theorem h1_streamed_response:
  assumes "send_and_flush C req (framed c) = (Ok (), cd)"
    and "next_response C cd = (Some (Ok (parts, PayloadDecoder_Streamed d)), cd1)"
  shows "(ends_with (next_data C) (d, cd1) ds s' \<longrightarrow>
      Http1Connection_send_request C c req =
        Some ((Ok \<lparr>resp_parts = parts, resp_body = Payload_Stream (map Some ds @ [None])\<rparr>, False),
              c\<lparr>framed := snd s'\<rparr>))
    \<and> (fails_with (next_data C) (d, cd1) ds e s' \<longrightarrow>
      Http1Connection_send_request C c req = Some ((Err e, False), c\<lparr>framed := snd s', open_conn := False\<rparr>))
    \<and> (Http1Connection_send_request C c req = None \<longleftrightarrow>
      \<not> (\<exists>xs s1. ends_with (next_data C) (d, cd1) xs s1 \<or> (\<exists>e. fails_with (next_data C) (d, cd1) xs e s1)))"
proof (intro conjI impI)
  assume "ends_with (next_data C) (d, cd1) ds s'"
  from stream_loop_ends [OF this, of "[]"] assms show "Http1Connection_send_request C c req =
        Some ((Ok \<lparr>resp_parts = parts, resp_body = Payload_Stream (map Some ds @ [None])\<rparr>, False),
              c\<lparr>framed := snd s'\<rparr>)"
    by (simp add: Http1Connection_send_request_def)
next
  assume "fails_with (next_data C) (d, cd1) ds e s'"
  from stream_loop_fails [OF this, of "[]"] assms
  show "Http1Connection_send_request C c req = Some ((Err e, False), c\<lparr>framed := snd s', open_conn := False\<rparr>)"
    by (simp add: Http1Connection_send_request_def)
next
  have "Http1Connection_send_request C c req = None \<longleftrightarrow> stream_payload_loop (next_data C) [] (d, cd1) = None"
    using assms by (auto simp: Http1Connection_send_request_def split: option.splits sum.splits)
  then show "Http1Connection_send_request C c req = None \<longleftrightarrow>
      \<not> (\<exists>xs s1. ends_with (next_data C) (d, cd1) xs s1 \<or> (\<exists>e. fails_with (next_data C) (d, cd1) xs e s1))"
    by (simp only: stream_loop_None)
qed

theorem h1_streamed_response_witness:
  "Http1Connection_send_request (list_codec ''200'' (PayloadDecoder_Streamed ()) ''eof'')
     (Http1Connection_new [Inr (5::nat), Inr 6]) ''GET''
   = Some ((Ok \<lparr>resp_parts = ''200'', resp_body = Payload_Stream [Some 5, Some 6, None]\<rparr>, False),
       Http1Connection_new [])"
proof -
  let ?C = "list_codec ''200'' (PayloadDecoder_Streamed ()) ''eof'' :: (_, string, _, _, nat, _) h1_codec"
  have "ends_with (next_data ?C) ((), [Inr 5, Inr 6]) [5, 6] ((), [])"
    using list_codec_ends [where xs = "[5, 6]"] by simp
  with h1_streamed_response [of ?C "''GET''" "Http1Connection_new [Inr 5, Inr 6]" "[Inr 5, Inr 6]" "''200''" "()"
      "[Inr 5, Inr 6]" "[5, 6]" "((), [])"]
  show ?thesis by (simp add: list_codec_def Http1Connection_new_def)
qed

text \<open>
  Property C36. A response with a fixed length is different: when decoding its body fails, the
  request still returns a response, with the error inside its body, and the connection stays
  marked as open although its codec stopped in the middle of a message, so that dropping the
  handle puts it back into the pool and the next \<open>get\<close> serves it.
\<close>

theorem h1_fixed_error_reused:
  assumes "send_and_flush C req (framed c) = (Ok (), cd)"
    and "next_response C cd = (Some (Ok (parts, PayloadDecoder_Fixed d)), cd1)"
    and "next_data C (d, cd1) = (Some (Err e), s1)"
    and "Http1Connection_is_open c" and "pool_reach p" and "queue_of p k = []"
  shows "\<exists>c'. Http1Connection_send_request C c req =
        Some ((Ok \<lparr>resp_parts = parts, resp_body = Payload_Fixed [Err e]\<rparr>, False), c')
    \<and> framed c' = snd s1 \<and> Http1Connection_is_open c'
    \<and> fst (pool_get now' k (pool_release now k c' p)) = Some c'"
proof -
  have "pool_wf p" using pool_inv_reach [OF assms(5)] by (simp add: pool_inv_def)
  moreover have "pool_abs p k = []" using assms(6) by (simp add: pool_abs_def)
  ultimately have "fst (pool_get now' k (pool_release now k c' p)) = Some c'" for c'
    by (simp add: pool.fetch_result pool.give_queue last_n_all)
  with assms show ?thesis by (simp add: Http1Connection_send_request_def Http1Connection_is_open_def)
qed

theorem h1_fixed_error_reused_witness:
  "\<exists>c'. Http1Connection_send_request (list_codec ''200'' (PayloadDecoder_Fixed ()) ''eof'')
       (Http1Connection_new [Inl ''bad'', Inr (7::nat)]) ''GET''
     = Some ((Ok \<lparr>resp_parts = ''200'', resp_body = Payload_Fixed [Err ''bad'']\<rparr>, False), c')
     \<and> fst (pool_get 9 ''a'' (pool_release 5 ''a'' c' (PoolInner_new None))) = Some c'"
proof -
  let ?C = "list_codec ''200'' (PayloadDecoder_Fixed ()) ''eof'' :: (_, string, _, _, nat, _) h1_codec"
  from h1_fixed_error_reused [of ?C "''GET''" "Http1Connection_new [Inl ''bad'', Inr 7]" _ "''200''" "()"
      "[Inl ''bad'', Inr 7]" "''bad''" "((), [Inr 7])" "PoolInner_new None" "''a''" 9 5]
  show ?thesis
    by (auto simp: list_codec_def Http1Connection_new_def Http1Connection_is_open_def queue_of_new intro: pool_reach.new)
qed

text \<open>
  Property C15. \<open>Http2Connection::send_request\<close> is one sequence of operations that stops at the
  first error: wait until ready, open the stream with the request head, send every chunk of the
  body in order, an error of the body itself coming after the chunks before it, send the empty
  chunk that ends the stream whose error is ignored, and await the response. The boolean says
  whether a response was received.
\<close>

theorem h2_request_sequence:
  assumes "stop = None \<and> ends_with nxt body ds body' \<or> (\<exists>e. stop = Some e \<and> fails_with nxt body ds e body')"
  shows "Http2Connection_send_request C nxt c (head, body) w =
    Some (case h2_exchange C (tx c) head
            (\<lambda>send. io_bind (send_all send ds) (\<lambda>_. case stop of None \<Rightarrow> io_return () | Some e \<Rightarrow> io_throw e)) w of
        (r, w') \<Rightarrow> ((r, is_ok r), w'))"
proof (rule h2_send_request_loop)
  fix send w
  from assms show "send_body_loop nxt send body w =
      Some (io_bind (send_all send ds) (\<lambda>_. case stop of None \<Rightarrow> io_return () | Some e \<Rightarrow> io_throw e) w)"
    by (auto simp: body_loop_ends body_loop_fails)
qed

text \<open>A client that records every call in its world and accepts them all.\<close>

definition log_client :: "(string list, unit, string, unit, unit, string, string, string, string) h2_client" where
  "log_client =
     \<lparr>tx_conn_error = (\<lambda>_ _. None),
      tx_ready = (\<lambda>t w. (Ok t, w @ [''ready''])),
      tx_send_request = (\<lambda>_ head eos w. (Ok ((), ()), w @ [head])),
      send_data = (\<lambda>_ d eos w. (Ok (), w @ [if eos then ''end'' else d])),
      await_response = (\<lambda>_ w. (Ok (''200'', ''body''), w @ [''response''])),
      Bytes_new = []\<rparr>"

theorem h2_request_sequence_witness:
  "Http2Connection_send_request log_client list_source (Http2Connection_new ()) (''head'', [Inr ''x'', Inr ''y'']) []
   = Some ((Ok \<lparr>resp_parts = ''200'', resp_body = ''body''\<rparr>, True),
       [''ready'', ''head'', ''x'', ''y'', ''end'', ''response''])"
  using h2_request_sequence [of None list_source "[Inr ''x'', Inr ''y'']" "[''x'', ''y'']" "[]" log_client
      "Http2Connection_new ()" "''head''" "[]"] list_source_ends [of "[''x'', ''y'']"]
  by (simp add: h2_exchange_def io_defs log_client_def is_ok_def)

end
