(* ===== verification/Forwarding.thy ===== *)
theory Forwarding
  imports Prelude
begin

text \<open>
  Streams that forward to another stream. A stream is its run function: a call of a client and the
  state of the stream give the answer and the next state. The locale \<open>forwards\<close> is the contract of
  a wrapper whose every call is the call on what it wraps; it is interpreted for the streams with
  rented buffers and for the poll based ones.
\<close>

type_synonym ('c, 's, 'a) runner = "'c \<Rightarrow> 's \<Rightarrow> 'a \<times> 's"

fun session :: "('c, 's, 'a) runner \<Rightarrow> 'c list \<Rightarrow> 's \<Rightarrow> 'a list \<times> 's" where
  "session run [] s = ([], s)"
| "session run (c # cs) s =
     (case run c s of (a, s') \<Rightarrow> (case session run cs s' of (as, s'') \<Rightarrow> (a # as, s'')))"

locale forwards =
  fixes inner :: "('c, 's, 'a) runner"
    and outer :: "('c, 't, 'a) runner"
    and wrap :: "'s \<Rightarrow> 't"
  assumes forward: "outer c (wrap s) = map_prod id wrap (inner c s)"
begin

lemma session_forward: "session outer cs (wrap s) = map_prod id wrap (session inner cs s)"
  by (induction cs arbitrary: s) (auto simp: forward split: prod.splits)

end

text \<open>Wrappers compose: a wrapper of a wrapper is one.\<close>

locale forwards_twice = low: forwards inner middle wrap + high: forwards middle outer wrap'
  for inner :: "('c, 's, 'a) runner" and middle :: "('c, 't, 'a) runner" and wrap
    and outer :: "('c, 'u, 'a) runner" and wrap'

sublocale forwards_twice \<subseteq> both: forwards inner outer "wrap' \<circ> wrap"
  by unfold_locales (simp add: low.forward high.forward prod.map_comp)

end
