(* ===== verification/L4_Connector.thy ===== *)
theory L4_Connector
  imports Connectors Forwarding Streams
begin

text \<open>
  Transport layer connectors, \<open>src/connectors/l4_connector.rs\<close>, with the error types of
  \<open>src/error.rs\<close>. The sockets of monoio, the resolver and the accessors of \<open>http::Uri\<close> are
  library code: a stream is its record \<open>rent_io\<close> of operations, the resolver is an argument and a
  URI is the record of what its accessors return.
\<close>

section \<open>Errors\<close>

datatype ('dns, 'io) FromUriError =
  InvalidDnsName 'dns
| UnsupportScheme
| NoAuthority
| Resolve 'io
| NoResolve

text \<open>The payloads of \<open>TransportError\<close> come from libraries and are type parameters.\<close>

datatype ('dns, 'http, 'dec, 'io, 'tls, 'json, 'h2, 'recv, 'herr, 'acq) TransportError =
  FromUri "('dns, 'io) FromUriError"
| TE_Http 'http
| H1Decode 'dec
| TE_Io 'io
| TE_Tls 'tls
| Json 'json
| H2Error 'h2
| ConnManagerRespRecvError 'recv
| ConnManagerReqSendError
| ClosePooledConnection
| HttpError 'herr
| MissingCodec
| Validation string
| LockError 'acq

section \<open>Streams with rented buffers\<close>

text \<open>\<open>AsyncReadRent\<close> and \<open>AsyncWriteRent\<close>: the operations of a stream; buffers are handed back.\<close>

type_synonym ('s, 'buf, 'e) rw_call = "'buf \<Rightarrow> 's \<Rightarrow> ((usize, 'e) result \<times> 'buf) \<times> 's"

record ('s, 'rb, 'rv, 'wb, 'wv, 'e) rent_io =
  io_read :: "('s, 'rb, 'e) rw_call"
  io_readv :: "('s, 'rv, 'e) rw_call"
  io_write :: "('s, 'wb, 'e) rw_call"
  io_writev :: "('s, 'wv, 'e) rw_call"
  io_flush :: "'s \<Rightarrow> (unit, 'e) result \<times> 's"
  io_shutdown :: "'s \<Rightarrow> (unit, 'e) result \<times> 's"

text \<open>A call of a client and its answer, and a session of several calls.\<close>

datatype ('rb, 'rv, 'wb, 'wv) rent_call = Read 'rb | Readv 'rv | Write 'wb | Writev 'wv | Flush | Shutdown

datatype ('rb, 'rv, 'wb, 'wv, 'e) rent_answer =
  A_read "(usize, 'e) result" 'rb
| A_readv "(usize, 'e) result" 'rv
| A_write "(usize, 'e) result" 'wb
| A_writev "(usize, 'e) result" 'wv
| A_unit "(unit, 'e) result"

fun rent_run :: "('s, 'rb, 'rv, 'wb, 'wv, 'e) rent_io \<Rightarrow> ('rb, 'rv, 'wb, 'wv) rent_call \<Rightarrow> 's
    \<Rightarrow> ('rb, 'rv, 'wb, 'wv, 'e) rent_answer \<times> 's" where
  "rent_run io (Read b) s = (case io_read io b s of ((r, b'), s') \<Rightarrow> (A_read r b', s'))"
| "rent_run io (Readv b) s = (case io_readv io b s of ((r, b'), s') \<Rightarrow> (A_readv r b', s'))"
| "rent_run io (Write b) s = (case io_write io b s of ((r, b'), s') \<Rightarrow> (A_write r b', s'))"
| "rent_run io (Writev b) s = (case io_writev io b s of ((r, b'), s') \<Rightarrow> (A_writev r b', s'))"
| "rent_run io Flush s = (case io_flush io s of (r, s') \<Rightarrow> (A_unit r, s'))"
| "rent_run io Shutdown s = (case io_shutdown io s of (r, s') \<Rightarrow> (A_unit r, s'))"

abbreviation rent_session :: "('s, 'rb, 'rv, 'wb, 'wv, 'e) rent_io \<Rightarrow> ('rb, 'rv, 'wb, 'wv) rent_call list \<Rightarrow> 's
    \<Rightarrow> ('rb, 'rv, 'wb, 'wv, 'e) rent_answer list \<times> 's" where
  "rent_session io \<equiv> session (rent_run io)"

section \<open>TCP and Unix sockets\<close>

record TcpConnector =
  no_delay :: bool

definition TcpConnector_default :: TcpConnector where
  "TcpConnector_default = \<lparr>no_delay = True\<rparr>"

text \<open>\<open>TcpStream::connect\<close> and \<open>set_nodelay\<close> are arguments; the outcome of the latter is ignored.\<close>

definition TcpConnector_connect :: "('k \<Rightarrow> ('w, 's, 'e) io) \<Rightarrow> ('s \<Rightarrow> bool \<Rightarrow> ('w, unit, 'f) io) \<Rightarrow> TcpConnector
    \<Rightarrow> ('w, 'k, 's, 'e) connector" where
  "TcpConnector_connect tcp_connect set_nodelay self key =
     io_bind (tcp_connect key) (\<lambda>io.
       if no_delay self then io_bind (io_ignore (set_nodelay io True)) (\<lambda>_. io_return io)
       else io_return io)"

definition TcpStream_get_conn_metadata :: "'s \<Rightarrow> TransportConnMeta" where
  "TcpStream_get_conn_metadata s = TransportConnMeta_default"

definition UnixConnector_connect :: "('p \<Rightarrow> ('w, 's, 'e) io) \<Rightarrow> ('w, 'p, 's, 'e) connector" where
  "UnixConnector_connect unix_connect key = unix_connect key"

definition UnixStream_get_conn_metadata :: "'s \<Rightarrow> TransportConnMeta" where
  "UnixStream_get_conn_metadata s = TransportConnMeta_default"

section \<open>The unified connector\<close>

datatype ('a, 'p) UnifiedL4Addr = L4_Tcp 'a | L4_Unix 'p

definition UnifiedL4Addr_as_ref :: "('a, 'p) UnifiedL4Addr \<Rightarrow> ('a, 'p) UnifiedL4Addr" where
  "UnifiedL4Addr_as_ref self = self"

datatype ('t, 'u) UnifiedL4Stream = Tcp 't | Unix 'u

text \<open>The two connectors as fields; the connector of Unix sockets has no data of its own.\<close>

record ('w, 'a, 'p, 't, 'u, 'e) UnifiedL4Connector =
  l4_tcp :: "('w, 'a, 't, 'e) connector"
  l4_unix :: "('w, 'p, 'u, 'e) connector"

definition UnifiedL4Connector_connect :: "('w, 'a, 'p, 't, 'u, 'e) UnifiedL4Connector
    \<Rightarrow> ('w, ('a, 'p) UnifiedL4Addr, ('t, 'u) UnifiedL4Stream, 'e) connector" where
  "UnifiedL4Connector_connect self key =
     (case key of
        L4_Tcp addr \<Rightarrow> io_map Tcp (l4_tcp self addr)
      | L4_Unix path \<Rightarrow> io_map Unix (l4_unix self path))"

section \<open>Addresses from URIs\<close>

datatype scheme = Scheme_HTTP | Scheme_HTTPS | Scheme_other string

record uri_view =
  uri_host :: "string option"
  uri_scheme :: "scheme option"
  uri_port_u16 :: "u16 option"

type_synonym ('a, 'e) resolver = "string \<Rightarrow> u16 \<Rightarrow> ('a list, 'e) result"

text \<open>
  A resolver answers for a host and a port; it stands for the lookups made during one conversion and
  for those compared in one statement, as the answers of a name service may change over time.
\<close>

definition default_port :: "scheme option \<Rightarrow> u16" where
  "default_port s = (case s of Some Scheme_HTTP \<Rightarrow> 80 | Some Scheme_HTTPS \<Rightarrow> 443 | _ \<Rightarrow> 0)"

definition unwrap_or :: "'a \<Rightarrow> 'a option \<Rightarrow> 'a" where
  "unwrap_or d x = (case x of None \<Rightarrow> d | Some a \<Rightarrow> a)"

definition first_addr :: "('a list, 'io) result \<Rightarrow> ('a, ('dns, 'io) FromUriError) result" where
  "first_addr r = (case r of Inl e \<Rightarrow> Err (Resolve e) | Inr addrs \<Rightarrow> ok_or NoResolve (front addrs))"

definition UnifiedL4Addr_try_from :: "('a, 'io) resolver \<Rightarrow> uri_view
    \<Rightarrow> (('a, 'p) UnifiedL4Addr, ('dns, 'io) FromUriError) result" where
  "UnifiedL4Addr_try_from resolve uri =
     (case uri_host uri of
        None \<Rightarrow> Err NoAuthority
      | Some host \<Rightarrow>
          res_map L4_Tcp (first_addr (resolve host (unwrap_or (default_port (uri_scheme uri)) (uri_port_u16 uri)))))"

section \<open>Dispatch of reads and writes\<close>

definition UnifiedL4Stream_read :: "('t, 'b, 'e) rw_call \<Rightarrow> ('u, 'b, 'e) rw_call
    \<Rightarrow> (('t, 'u) UnifiedL4Stream, 'b, 'e) rw_call" where
  "UnifiedL4Stream_read tcp unix buf s =
     (case s of
        Tcp t \<Rightarrow> map_prod id Tcp (tcp buf t)
      | Unix u \<Rightarrow> map_prod id Unix (unix buf u))"

definition UnifiedL4Stream_flush :: "('t \<Rightarrow> (unit, 'e) result \<times> 't) \<Rightarrow> ('u \<Rightarrow> (unit, 'e) result \<times> 'u)
    \<Rightarrow> ('t, 'u) UnifiedL4Stream \<Rightarrow> (unit, 'e) result \<times> ('t, 'u) UnifiedL4Stream" where
  "UnifiedL4Stream_flush tcp unix s =
     (case s of
        Tcp t \<Rightarrow> map_prod id Tcp (tcp t)
      | Unix u \<Rightarrow> map_prod id Unix (unix u))"

text \<open>
  The four calls with a buffer have one shape, \<open>UnifiedL4Stream_read\<close>, and the two without one
  have the shape \<open>UnifiedL4Stream_flush\<close>.
\<close>

definition UnifiedL4Stream_io :: "('t, 'rb, 'rv, 'wb, 'wv, 'e) rent_io \<Rightarrow> ('u, 'rb, 'rv, 'wb, 'wv, 'e) rent_io
    \<Rightarrow> (('t, 'u) UnifiedL4Stream, 'rb, 'rv, 'wb, 'wv, 'e) rent_io" where
  "UnifiedL4Stream_io tcp unix =
     \<lparr>io_read = UnifiedL4Stream_read (io_read tcp) (io_read unix),
      io_readv = UnifiedL4Stream_read (io_readv tcp) (io_readv unix),
      io_write = UnifiedL4Stream_read (io_write tcp) (io_write unix),
      io_writev = UnifiedL4Stream_read (io_writev tcp) (io_writev unix),
      io_flush = UnifiedL4Stream_flush (io_flush tcp) (io_flush unix),
      io_shutdown = UnifiedL4Stream_flush (io_shutdown tcp) (io_shutdown unix)\<rparr>"

lemmas l4_dispatch_defs = UnifiedL4Stream_io_def UnifiedL4Stream_read_def UnifiedL4Stream_flush_def

interpretation l4tcp: forwards "rent_run tcp" "rent_run (UnifiedL4Stream_io tcp unix)" Tcp for tcp unix
proof unfold_locales
  fix c s
  show "rent_run (UnifiedL4Stream_io tcp unix) c (Tcp s) = map_prod id Tcp (rent_run tcp c s)"
    by (cases c) (auto simp: l4_dispatch_defs split: prod.splits)
qed

interpretation l4unix: forwards "rent_run unix" "rent_run (UnifiedL4Stream_io tcp unix)" Unix for tcp unix
proof unfold_locales
  fix c s
  show "rent_run (UnifiedL4Stream_io tcp unix) c (Unix s) = map_prod id Unix (rent_run unix c s)"
    by (cases c) (auto simp: l4_dispatch_defs split: prod.splits)
qed

section \<open>Forwarding through \<open>Reuse\<close>\<close>

definition Reuse_io :: "('s, 'rb, 'rv, 'wb, 'wv, 'e) rent_io \<Rightarrow> ('s Reuse, 'rb, 'rv, 'wb, 'wv, 'e) rent_io" where
  "Reuse_io io =
     \<lparr>io_read = (\<lambda>b. Reuse_forward (io_read io b)),
      io_readv = (\<lambda>b. Reuse_forward (io_readv io b)),
      io_write = (\<lambda>b. Reuse_forward (io_write io b)),
      io_writev = (\<lambda>b. Reuse_forward (io_writev io b)),
      io_flush = Reuse_forward (io_flush io),
      io_shutdown = Reuse_forward (io_shutdown io)\<rparr>"

interpretation reuse_fwd: forwards "rent_run io" "rent_run (Reuse_io io)" "\<lambda>s. Reuse_new s b" for io b
proof unfold_locales
  fix c s
  show "rent_run (Reuse_io io) c (Reuse_new s b) = map_prod id (\<lambda>s. Reuse_new s b) (rent_run io c s)"
    by (cases c) (auto simp: Reuse_io_def Reuse_forward_def Reuse_new_def split: prod.splits)
qed

end
