(* ===== verification/Tls_Connector.thy ===== *)
theory Tls_Connector
  imports L4_Connector
begin

text \<open>
  TLS connectors and addresses, \<open>src/connectors/tls_connector.rs\<close>. The TLS library is an argument:
  its configuration is the list of advertised protocols next to the rest, \<open>tls_connect\<close> performs
  the handshake, \<open>alpn_protocol\<close> reads the protocol it negotiated. The conversion of a host into a
  server name is an argument too, because the two TLS backends differ: rustls parses it and may
  fail, native-tls takes the string as it is.
\<close>

section \<open>TlsConnector\<close>

record 'x client_config =
  alpn_protocols :: "u8 list list"
  cfg_rest :: 'x

record ('c, 'x) TlsConnector =
  inner_connector :: 'c
  tls_connector :: "'x client_config"

definition TlsConnector_new :: "'c \<Rightarrow> 'x client_config \<Rightarrow> ('c, 'x) TlsConnector" where
  "TlsConnector_new c t = \<lparr>inner_connector = c, tls_connector = t\<rparr>"

text \<open>\<open>builder\<close> is the configuration with the default roots and no client certificate.\<close>

definition new_with_tls_default :: "'x client_config \<Rightarrow> 'c \<Rightarrow> string list option \<Rightarrow> ('c, 'x) TlsConnector" where
  "new_with_tls_default builder c alpns =
     (case alpns of
        Some a \<Rightarrow> TlsConnector_new c (builder\<lparr>alpn_protocols := map as_bytes a\<rparr>)
      | None \<Rightarrow> TlsConnector_new c builder)"

text \<open>
  The same function of the native-tls build: \<open>request_alpns\<close> and \<open>build\<close> are those of its builder, and
  a configuration that cannot be built is a panic of \<open>unwrap\<close>.
\<close>

definition new_with_tls_default_native :: "(string list \<Rightarrow> 'bd \<Rightarrow> 'bd) \<Rightarrow> ('bd \<Rightarrow> ('x client_config, 'e) result) \<Rightarrow> 'bd \<Rightarrow> 'c
    \<Rightarrow> string list option \<Rightarrow> (('c, 'x) TlsConnector, panic) result" where
  "new_with_tls_default_native request_alpns build builder c alpns =
     (let tls_connector = (case alpns of Some a \<Rightarrow> request_alpns a builder | None \<Rightarrow> builder)
      in case build tls_connector of
           Inl _ \<Rightarrow> Err UnwrapErr
         | Inr cfg \<Rightarrow> Ok (TlsConnector_new c cfg))"

definition TlsConnector_default :: "'x client_config \<Rightarrow> 'c \<Rightarrow> ('c, 'x) TlsConnector" where
  "TlsConnector_default builder c = new_with_tls_default builder c (Some [''h2'', ''http/1.1''])"

definition get_inner_connector :: "('c, 'x) TlsConnector \<Rightarrow> 'c" where
  "get_inner_connector self = inner_connector self"

definition get_tls_connector :: "('c, 'x) TlsConnector \<Rightarrow> 'x client_config" where
  "get_tls_connector self = tls_connector self"

text \<open>The \<open>Debug\<close> text shows the inner connector only, never the configuration with its keys.\<close>

definition TlsConnector_fmt :: "('c \<Rightarrow> string) \<Rightarrow> ('c, 'x) TlsConnector \<Rightarrow> string" where
  "TlsConnector_fmt inner_debug self = ''TlsConnector, inner: '' @ inner_debug (inner_connector self)"

definition TlsStream_get_conn_metadata :: "('s \<Rightarrow> u8 list option) \<Rightarrow> 's \<Rightarrow> TransportConnMeta" where
  "TlsStream_get_conn_metadata alpn_protocol s = set_alpn (alpn_protocol s) TransportConnMeta_default"

text \<open>
  \<open>connect\<close>: the inner connection, then the handshake under the server name of the key;
  \<open>from_io\<close> is the conversion of an I/O error into a TLS error made by the operator \<open>?\<close>.
\<close>

definition TlsConnector_connect :: "('x client_config \<Rightarrow> 'sn \<Rightarrow> 's \<Rightarrow> ('w, 'ts, 'te) io) \<Rightarrow> ('ioe \<Rightarrow> 'te)
    \<Rightarrow> ('k \<Rightarrow> 'sn) \<Rightarrow> (('w, 'k, 's, 'ioe) connector, 'x) TlsConnector \<Rightarrow> ('w, 'k, 'ts, 'te) connector" where
  "TlsConnector_connect tls_connect from_io server_name self key =
     io_bind (io_map_err from_io (inner_connector self key)) (\<lambda>stream.
       tls_connect (tls_connector self) (server_name key) stream)"

section \<open>Addresses\<close>

record ('a, 'p, 'sn) UnifiedTlsAddr =
  uta_addr :: "('a, 'p) UnifiedL4Addr"
  uta_sn :: 'sn

record 'sn TcpTlsAddr =
  tta_host :: string
  tta_port :: u16
  tta_sn :: 'sn

record ('a, 'p, 'sn) UnifiedAddr =
  ua_addr :: "('a, 'p) UnifiedL4Addr"
  ua_sn :: "'sn option"

definition TcpTlsAddr_to_socket_addrs :: "('a, 'e) resolver \<Rightarrow> 'sn TcpTlsAddr \<Rightarrow> ('a list, 'e) result" where
  "TcpTlsAddr_to_socket_addrs resolve self = resolve (tta_host self) (tta_port self)"

definition TcpTlsAddr_try_from :: "(string \<Rightarrow> ('sn, 'dns) result) \<Rightarrow> uri_view
    \<Rightarrow> ('sn TcpTlsAddr, ('dns, 'io) FromUriError) result" where
  "TcpTlsAddr_try_from server_name uri =
     (case uri_host uri of
        None \<Rightarrow> Err NoAuthority
      | Some host \<Rightarrow>
          (case (case uri_scheme uri of Some Scheme_HTTP \<Rightarrow> (False, 80) | Some Scheme_HTTPS \<Rightarrow> (True, 443) | _ \<Rightarrow> (False, 0)) of
             (tls, port0) \<Rightarrow>
               if \<not> tls then Err UnsupportScheme
               else
                 (case server_name host of
                    Inl e \<Rightarrow> Err (InvalidDnsName e)
                  | Inr sn \<Rightarrow> Ok \<lparr>tta_host = host, tta_port = unwrap_or port0 (uri_port_u16 uri), tta_sn = sn\<rparr>)))"

definition UnifiedAddr_try_from :: "('a, 'io) resolver \<Rightarrow> (string \<Rightarrow> ('sn, 'dns) result) \<Rightarrow> uri_view
    \<Rightarrow> (('a, 'p, 'sn) UnifiedAddr, ('dns, 'io) FromUriError) result" where
  "UnifiedAddr_try_from resolve server_name uri =
     (case uri_host uri of
        None \<Rightarrow> Err NoAuthority
      | Some host \<Rightarrow>
          (case (case uri_scheme uri of Some Scheme_HTTP \<Rightarrow> (False, 80) | Some Scheme_HTTPS \<Rightarrow> (True, 443) | _ \<Rightarrow> (False, 0)) of
             (tls, port0) \<Rightarrow>
               (case first_addr (resolve host (unwrap_or port0 (uri_port_u16 uri))) of
                  Inl e \<Rightarrow> Err e
                | Inr a \<Rightarrow>
                    if tls then
                      (case server_name host of
                         Inl e \<Rightarrow> Err (InvalidDnsName e)
                       | Inr sn \<Rightarrow> Ok \<lparr>ua_addr = L4_Tcp a, ua_sn = Some sn\<rparr>)
                    else Ok \<lparr>ua_addr = L4_Tcp a, ua_sn = None\<rparr>)))"

text \<open>The server name of the native-tls build: the host itself, no error possible.\<close>

definition native_server_name :: "string \<Rightarrow> (string, 'dns) result" where
  "native_server_name host = Ok host"

section \<open>UnifiedConnector\<close>

type_synonym ('w, 'a, 'p, 't, 'u, 'e, 'x) UnifiedConnector =
  "(('w, 'a, 'p, 't, 'u, 'e) UnifiedL4Connector, 'x) TlsConnector"

datatype ('t, 'u, 'ts) UnifiedStream = US_L4 "('t, 'u) UnifiedL4Stream" | US_Tls 'ts

datatype ('io, 'te) UnifiedError = UE_L4 'io | UE_Tls 'te

definition UnifiedConnector_connect_tls ::
  "('x client_config \<Rightarrow> 'sn \<Rightarrow> ('t, 'u) UnifiedL4Stream \<Rightarrow> ('w, 'ts, 'te) io) \<Rightarrow> ('ioe \<Rightarrow> 'te)
    \<Rightarrow> ('w, 'a, 'p, 't, 'u, 'ioe, 'x) UnifiedConnector \<Rightarrow> ('w, ('a, 'p, 'sn) UnifiedTlsAddr, 'ts, 'te) connector" where
  "UnifiedConnector_connect_tls tls_connect from_io self key =
     io_bind (io_map_err from_io (UnifiedL4Connector_connect (inner_connector self) (uta_addr key))) (\<lambda>stream.
       tls_connect (tls_connector self) (uta_sn key) stream)"

definition UnifiedConnector_connect ::
  "('x client_config \<Rightarrow> 'sn \<Rightarrow> ('t, 'u) UnifiedL4Stream \<Rightarrow> ('w, 'ts, 'te) io) \<Rightarrow> ('ioe \<Rightarrow> 'te)
    \<Rightarrow> ('w, 'a, 'p, 't, 'u, 'ioe, 'x) UnifiedConnector
    \<Rightarrow> ('w, ('a, 'p, 'sn) UnifiedAddr, ('t, 'u, 'ts) UnifiedStream, ('ioe, 'te) UnifiedError) connector" where
  "UnifiedConnector_connect tls_connect from_io self key =
     (case ua_sn key of
        Some sn \<Rightarrow>
          io_bind (io_map_err (\<lambda>e. UE_Tls (from_io e)) (UnifiedL4Connector_connect (inner_connector self) (ua_addr key))) (\<lambda>stream.
          io_bind (io_map_err UE_Tls (tls_connect (tls_connector self) sn stream)) (\<lambda>tls_stream.
          io_return (US_Tls tls_stream)))
      | None \<Rightarrow>
          io_bind (io_map_err UE_L4 (UnifiedL4Connector_connect (inner_connector self) (ua_addr key))) (\<lambda>stream.
          io_return (US_L4 stream)))"

definition UnifiedStream_read :: "(('t, 'u) UnifiedL4Stream, 'b, 'e) rw_call \<Rightarrow> ('ts, 'b, 'e) rw_call
    \<Rightarrow> (('t, 'u, 'ts) UnifiedStream, 'b, 'e) rw_call" where
  "UnifiedStream_read l4 tls buf s =
     (case s of
        US_L4 l \<Rightarrow> map_prod id US_L4 (l4 buf l)
      | US_Tls t \<Rightarrow> map_prod id US_Tls (tls buf t))"

definition UnifiedStream_flush :: "(('t, 'u) UnifiedL4Stream \<Rightarrow> (unit, 'e) result \<times> ('t, 'u) UnifiedL4Stream)
    \<Rightarrow> ('ts \<Rightarrow> (unit, 'e) result \<times> 'ts) \<Rightarrow> ('t, 'u, 'ts) UnifiedStream
    \<Rightarrow> (unit, 'e) result \<times> ('t, 'u, 'ts) UnifiedStream" where
  "UnifiedStream_flush l4 tls s =
     (case s of
        US_L4 l \<Rightarrow> map_prod id US_L4 (l4 l)
      | US_Tls t \<Rightarrow> map_prod id US_Tls (tls t))"

definition UnifiedStream_io :: "(('t, 'u) UnifiedL4Stream, 'rb, 'rv, 'wb, 'wv, 'e) rent_io \<Rightarrow> ('ts, 'rb, 'rv, 'wb, 'wv, 'e) rent_io
    \<Rightarrow> (('t, 'u, 'ts) UnifiedStream, 'rb, 'rv, 'wb, 'wv, 'e) rent_io" where
  "UnifiedStream_io l4 tls =
     \<lparr>io_read = UnifiedStream_read (io_read l4) (io_read tls),
      io_readv = UnifiedStream_read (io_readv l4) (io_readv tls),
      io_write = UnifiedStream_read (io_write l4) (io_write tls),
      io_writev = UnifiedStream_read (io_writev l4) (io_writev tls),
      io_flush = UnifiedStream_flush (io_flush l4) (io_flush tls),
      io_shutdown = UnifiedStream_flush (io_shutdown l4) (io_shutdown tls)\<rparr>"

lemmas unified_dispatch_defs = UnifiedStream_io_def UnifiedStream_read_def UnifiedStream_flush_def

interpretation us_l4: forwards "rent_run l4" "rent_run (UnifiedStream_io l4 tls)" US_L4 for l4 tls
proof unfold_locales
  fix c s
  show "rent_run (UnifiedStream_io l4 tls) c (US_L4 s) = map_prod id US_L4 (rent_run l4 c s)"
    by (cases c) (auto simp: unified_dispatch_defs split: prod.splits)
qed

interpretation us_tls: forwards "rent_run tls" "rent_run (UnifiedStream_io l4 tls)" US_Tls for l4 tls
proof unfold_locales
  fix c s
  show "rent_run (UnifiedStream_io l4 tls) c (US_Tls s) = map_prod id US_Tls (rent_run tls c s)"
    by (cases c) (auto simp: unified_dispatch_defs split: prod.splits)
qed

text \<open>A socket inside the unified stream is wrapped twice.\<close>

interpretation us_tcp: forwards_twice "rent_run tcp" "rent_run (UnifiedL4Stream_io tcp unix)" Tcp
    "rent_run (UnifiedStream_io (UnifiedL4Stream_io tcp unix) tls)" US_L4 for tcp unix tls ..

interpretation us_unix: forwards_twice "rent_run unix" "rent_run (UnifiedL4Stream_io tcp unix)" Unix
    "rent_run (UnifiedStream_io (UnifiedL4Stream_io tcp unix) tls)" US_L4 for tcp unix tls ..

text \<open>
  The two builds of the constructor agree for a builder that can be built and that keeps the
  requested protocols; a builder that cannot be built makes the second one panic.
\<close>

lemma native_default_agrees:
  assumes "\<And>a. build (request_alpns a builder) = Ok (cfg\<lparr>alpn_protocols := map as_bytes a\<rparr>)" and "build builder = Ok cfg"
  shows "new_with_tls_default_native request_alpns build builder c alpns = Ok (new_with_tls_default cfg c alpns)"
  using assms by (auto simp: new_with_tls_default_native_def new_with_tls_default_def split: option.splits)

lemma native_default_panics:
  "new_with_tls_default_native request_alpns build builder c (Some a) = Err UnwrapErr \<longleftrightarrow> \<not> is_ok (build (request_alpns a builder))"
  by (auto simp: new_with_tls_default_native_def is_ok_def Let_def split: sum.splits)

section \<open>Properties\<close>

text \<open>
  The unified stream is transparent: any sequence of reads, writes, flushes and
  shutdowns on it gives the answers, and leaves the socket in the state, of the same sequence on
  the stream inside, whether that is a TCP, a Unix or a TLS stream.
\<close>

lemma unified_stream_transparent:
  "rent_session (UnifiedStream_io (UnifiedL4Stream_io tcp unix) tls) cs (US_L4 (Tcp t))
     = map_prod id (US_L4 \<circ> Tcp) (rent_session tcp cs t)
   \<and> rent_session (UnifiedStream_io (UnifiedL4Stream_io tcp unix) tls) cs (US_L4 (Unix u))
     = map_prod id (US_L4 \<circ> Unix) (rent_session unix cs u)
   \<and> rent_session (UnifiedStream_io (UnifiedL4Stream_io tcp unix) tls) cs (US_Tls s)
     = map_prod id US_Tls (rent_session tls cs s)"
  using us_tcp.both.session_forward us_unix.both.session_forward us_tls.session_forward by fastforce

text \<open>
  Property C38. The three conversions of a URI agree. An \<open>https\<close> URI with a valid name gives the
  same host, port and server name as \<open>TcpTlsAddr\<close>, resolved, as \<open>UnifiedAddr\<close>; the socket
  address of \<open>UnifiedAddr\<close> is the one of \<open>UnifiedL4Addr\<close>; and \<open>UnifiedAddr\<close> carries a server name
  exactly for the scheme \<open>https\<close>.
\<close>

theorem uri_conversions_agree:
  fixes resolve :: "('a, 'io) resolver" and sn :: "string \<Rightarrow> ('sn, 'dns) result" and ua :: "('a, 'p, 'sn) UnifiedAddr"
  assumes "UnifiedAddr_try_from resolve sn uri = Ok ua"
  shows "UnifiedL4Addr_try_from resolve uri = (Ok (ua_addr ua) :: (_, ('dns, 'io) FromUriError) result)
    \<and> (ua_sn ua \<noteq> None \<longleftrightarrow> uri_scheme uri = Some Scheme_HTTPS)
    \<and> (uri_scheme uri = Some Scheme_HTTPS \<longrightarrow>
        (\<exists>ta. TcpTlsAddr_try_from sn uri = Ok ta \<and> ua_sn ua = Some (tta_sn ta)
          \<and> res_map L4_Tcp (first_addr (TcpTlsAddr_to_socket_addrs resolve ta)) = Ok (ua_addr ua)))"
  using assms
  by (auto simp: UnifiedAddr_try_from_def UnifiedL4Addr_try_from_def TcpTlsAddr_try_from_def
      TcpTlsAddr_to_socket_addrs_def default_port_def first_addr_def
      split: option.splits sum.splits scheme.splits if_splits prod.splits)

theorem uri_conversions_agree_witness:
  "UnifiedL4Addr_try_from (\<lambda>h p. Ok [(h, p)]) \<lparr>uri_host = Some ''a.io'', uri_scheme = Some Scheme_HTTPS, uri_port_u16 = None\<rparr>
     = (Ok (L4_Tcp (''a.io'', 443)) :: ((string \<times> u16, string) UnifiedL4Addr, (unit, unit) FromUriError) result)"
proof -
  let ?uri = "\<lparr>uri_host = Some ''a.io'', uri_scheme = Some Scheme_HTTPS, uri_port_u16 = None\<rparr>"
  have "UnifiedAddr_try_from (\<lambda>h p. Ok [(h, p)]) native_server_name ?uri =
    (Ok \<lparr>ua_addr = L4_Tcp (''a.io'', 443), ua_sn = Some ''a.io''\<rparr>
      :: ((string \<times> u16, string, string) UnifiedAddr, (unit, unit) FromUriError) result)"
    by (simp add: UnifiedAddr_try_from_def unwrap_or_def first_addr_def native_server_name_def)
  from conjunct1 [OF uri_conversions_agree [OF this]] show ?thesis by simp
qed


text \<open>
  \<open>UnifiedConnector\<close> on a \<open>UnifiedAddr\<close> is one of its two parts: with a server name it
  is the TLS connector on the corresponding \<open>UnifiedTlsAddr\<close>, and every failure, one of the socket
  included, is reported as a TLS error; without one it is the plain connector, its failures
  reported as L4 errors, and the TLS library is not called.
\<close>

lemma unified_connect_dispatch:
  "UnifiedConnector_connect tls_connect from_io self \<lparr>ua_addr = a, ua_sn = Some sn\<rparr>
     = io_map US_Tls (io_map_err UE_Tls
         (UnifiedConnector_connect_tls tls_connect from_io self \<lparr>uta_addr = a, uta_sn = sn\<rparr>))
   \<and> UnifiedConnector_connect tls_connect from_io self \<lparr>ua_addr = a, ua_sn = None\<rparr>
     = io_map US_L4 (io_map_err UE_L4 (UnifiedL4Connector_connect (inner_connector self) a))"
  by (auto simp: UnifiedConnector_connect_def UnifiedConnector_connect_tls_def io_defs fun_eq_iff
      split: prod.splits sum.splits)

end
