(* ===== verification/Lock_Table.thy ===== *)
theory Lock_Table
  imports Std_Collections
begin

text \<open>
  The field \<open>connecting\<close> of both HTTP/2 connectors: a map from keys to shared locks, one per key,
  created at the first use and never removed. A lock is reached through its address, because
  every \<open>Rc\<close> clone refers to the same one. The lock itself, \<open>local_sync::semaphore::Semaphore\<close>
  with one permit or \<open>tokio::sync::Mutex\<close>, is library code: a fresh lock, the attempt to take a
  permit and its return are arguments, and \<open>sem_law\<close> is their contract.
\<close>

record ('k, 's) lock_table =
  lt_map :: "('k, nat) hash_map"
  lt_sems :: "'s list"

definition lt_new :: "('k, 's) lock_table" where
  "lt_new = \<lparr>lt_map = hm_new, lt_sems = []\<rparr>"

text \<open>\<open>entry(key).or_insert_with(|| Rc::new(..))\<close> followed by \<open>clone()\<close>: the address of the lock.\<close>

definition get_lock :: "'s \<Rightarrow> 'k \<Rightarrow> ('k, 's) lock_table \<Rightarrow> nat \<times> ('k, 's) lock_table" where
  "get_lock fresh k t =
     (case hm_get (lt_map t) k of
        Some a \<Rightarrow> (a, t)
      | None \<Rightarrow>
          (length (lt_sems t),
           t\<lparr>lt_map := hm_insert k (length (lt_sems t)) (lt_map t), lt_sems := lt_sems t @ [fresh]\<rparr>))"

definition lt_acquire :: "('s \<Rightarrow> 's option) \<Rightarrow> nat \<Rightarrow> ('k, 's) lock_table \<Rightarrow> ('k, 's) lock_table option" where
  "lt_acquire acq a t =
     (if a < length (lt_sems t)
      then map_option (\<lambda>s. t\<lparr>lt_sems := (lt_sems t)[a := s]\<rparr>) (acq (lt_sems t ! a))
      else None)"

definition lt_release :: "('s \<Rightarrow> 's) \<Rightarrow> nat \<Rightarrow> ('k, 's) lock_table \<Rightarrow> ('k, 's) lock_table" where
  "lt_release rel a t =
     (if a < length (lt_sems t) then t\<lparr>lt_sems := (lt_sems t)[a := rel (lt_sems t ! a)]\<rparr> else t)"

text \<open>
  The contract of a lock with one permit: a fresh lock has it, an attempt succeeds exactly when
  the permit is there and takes it, a release gives one back.
\<close>

definition sem_law :: "('s \<Rightarrow> nat) \<Rightarrow> 's \<Rightarrow> ('s \<Rightarrow> 's option) \<Rightarrow> ('s \<Rightarrow> 's) \<Rightarrow> bool" where
  "sem_law permits fresh acq rel \<longleftrightarrow>
     permits fresh = 1 \<and>
     (\<forall>s. acq s = None \<longrightarrow> permits s = 0) \<and>
     (\<forall>s s'. acq s = Some s' \<longrightarrow> permits s = Suc (permits s')) \<and>
     (\<forall>s. permits (rel s) = Suc (permits s))"

text \<open>Locks held by the owners \<open>own\<close>: each key has a lock of its own, and each lock has its permit or
  exactly one owner.\<close>

definition locks_inv :: "('s \<Rightarrow> nat) \<Rightarrow> ('t \<Rightarrow> nat option) \<Rightarrow> ('k, 's) lock_table \<Rightarrow> bool" where
  "locks_inv permits own t \<longleftrightarrow>
     (\<forall>k a. hm_get (lt_map t) k = Some a \<longrightarrow> a < length (lt_sems t)) \<and>
     (\<forall>j k a. hm_get (lt_map t) j = Some a \<and> hm_get (lt_map t) k = Some a \<longrightarrow> j = k) \<and>
     (\<forall>x a. own x = Some a \<longrightarrow> a < length (lt_sems t)) \<and>
     (\<forall>a < length (lt_sems t).
        permits (lt_sems t ! a) = 1 \<and> (\<forall>x. own x \<noteq> Some a) \<or>
        permits (lt_sems t ! a) = 0 \<and> (\<exists>!x. own x = Some a))"

lemma locks_inv_new: "locks_inv permits (\<lambda>_. None) lt_new"
  by (simp add: locks_inv_def lt_new_def)

lemma locks_inv_owner:
  assumes "locks_inv permits own t" and "own x = Some a" and "own y = Some a"
  shows "x = y"
  using assms unfolding locks_inv_def by blast

lemma get_lock_addr:
  "get_lock fresh k t = (a, t') \<Longrightarrow> hm_get (lt_map t') k = Some a"
  by (auto simp: get_lock_def split: option.splits)

lemma get_lock_keeps:
  "get_lock fresh k t = (a, t') \<Longrightarrow> hm_get (lt_map t) j = Some b \<Longrightarrow> hm_get (lt_map t') j = Some b"
  by (auto simp: get_lock_def split: option.splits)

lemma locks_inv_get_lock:
  assumes "sem_law permits fresh acq rel" and "locks_inv permits own t" and "get_lock fresh k t = (a, t')"
  shows "locks_inv permits own t'"
proof (cases "hm_get (lt_map t) k")
  case (Some b)
  with assms show ?thesis by (simp add: get_lock_def)
next
  case None
  let ?n = "length (lt_sems t)"
  have t': "t' = t\<lparr>lt_map := hm_insert k ?n (lt_map t), lt_sems := lt_sems t @ [fresh]\<rparr>"
    using assms(3) None by (auto simp: get_lock_def)
  have own: "own x = Some c \<Longrightarrow> c < ?n" for x c using assms(2) by (simp add: locks_inv_def)
  have "permits (lt_sems t' ! c) = 1 \<and> (\<forall>x. own x \<noteq> Some c) \<or>
      permits (lt_sems t' ! c) = 0 \<and> (\<exists>!x. own x = Some c)" if "c < length (lt_sems t')" for c
  proof (cases "c = ?n")
    case True
    with assms(1) own show ?thesis by (auto simp: t' sem_law_def nth_append)
  next
    case False
    with that have "c < ?n" by (simp add: t')
    with assms(2) show ?thesis by (auto simp: t' locks_inv_def nth_append)
  qed
  moreover have "c < length (lt_sems t')" if "hm_get (lt_map t') j = Some c" for j c
    using that assms(2) by (fastforce simp: t' locks_inv_def split: if_splits)
  moreover have "c < length (lt_sems t')" if "own x = Some c" for x c
    using own [OF that] by (simp add: t')
  moreover have "j = i" if "hm_get (lt_map t') j = Some c" "hm_get (lt_map t') i = Some c" for i j c
    using that assms(2) by (auto simp: t' locks_inv_def split: if_splits)
  ultimately show ?thesis unfolding locks_inv_def by blast
qed

lemma locks_inv_key:
  assumes "locks_inv permits own t" and "hm_get (lt_map t) j = Some a" and "hm_get (lt_map t) k = Some a"
  shows "j = k"
  using assms unfolding locks_inv_def by blast

lemma lt_acquire_maps: "lt_acquire acq a t = Some t' \<Longrightarrow> lt_map t' = lt_map t"
  by (auto simp: lt_acquire_def split: if_splits)

lemma lt_release_maps [simp]: "lt_map (lt_release rel a t) = lt_map t"
  by (simp add: lt_release_def)

lemma locks_inv_acquire:
  assumes law: "sem_law permits fresh acq rel" and inv: "locks_inv permits own t"
    and acq: "lt_acquire acq a t = Some t'" and free: "own x = None"
  shows "locks_inv permits (own(x \<mapsto> a)) t'"
proof -
  from acq obtain s where a: "a < length (lt_sems t)" and s: "acq (lt_sems t ! a) = Some s"
    and t': "t' = t\<lparr>lt_sems := (lt_sems t)[a := s]\<rparr>"
    by (auto simp: lt_acquire_def split: if_splits)
  have "permits (lt_sems t ! a) = Suc (permits s)"
    using law s by (simp add: sem_law_def)
  with inv a have ps: "permits s = 0" and none: "\<And>y. own y \<noteq> Some a"
    by (auto simp: locks_inv_def)
  have "permits (lt_sems t' ! c) = 1 \<and> (\<forall>y. (own(x \<mapsto> a)) y \<noteq> Some c) \<or>
      permits (lt_sems t' ! c) = 0 \<and> (\<exists>!y. (own(x \<mapsto> a)) y = Some c)" if "c < length (lt_sems t)" for c
  proof (cases "c = a")
    case True
    with ps none a show ?thesis by (auto simp: t')
  next
    case False
    from inv that have "permits (lt_sems t ! c) = 1 \<and> (\<forall>y. own y \<noteq> Some c) \<or>
      permits (lt_sems t ! c) = 0 \<and> (\<exists>!y. own y = Some c)" by (simp add: locks_inv_def)
    moreover have "(own(x \<mapsto> a)) y = Some c \<longleftrightarrow> own y = Some c" for y using free False by auto
    ultimately show ?thesis using False by (simp add: t')
  qed
  with inv a show ?thesis by (auto simp: locks_inv_def t')
qed

lemma locks_inv_release:
  assumes law: "sem_law permits fresh acq rel" and inv: "locks_inv permits own t" and own: "own x = Some a"
  shows "locks_inv permits (own(x := None)) (lt_release rel a t)"
proof -
  from inv own have a: "a < length (lt_sems t)" by (simp add: locks_inv_def)
  with inv own have p0: "permits (lt_sems t ! a) = 0" and uniq: "\<And>y. own y = Some a \<Longrightarrow> y = x"
    unfolding locks_inv_def by blast+
  have p1: "permits (rel (lt_sems t ! a)) = 1" using law p0 by (simp add: sem_law_def)
  let ?t = "lt_release rel a t"
  have "permits (lt_sems ?t ! c) = 1 \<and> (\<forall>y. (own(x := None)) y \<noteq> Some c) \<or>
      permits (lt_sems ?t ! c) = 0 \<and> (\<exists>!y. (own(x := None)) y = Some c)" if "c < length (lt_sems t)" for c
  proof (cases "c = a")
    case True
    with a p1 uniq show ?thesis by (auto simp: lt_release_def)
  next
    case False
    with inv that have "permits (lt_sems t ! c) = 1 \<and> (\<forall>y. own y \<noteq> Some c) \<or>
      permits (lt_sems t ! c) = 0 \<and> (\<exists>!y. own y = Some c)" by (simp add: locks_inv_def)
    moreover have "(own(x := None)) y = Some c \<longleftrightarrow> own y = Some c" for y using own False by auto
    ultimately show ?thesis using False a by (simp add: lt_release_def)
  qed
  with inv a show ?thesis by (auto simp: locks_inv_def lt_release_def)
qed

text \<open>Taking and giving back in one step changes nothing for the owners.\<close>

lemma lock_cycle:
  assumes law: "sem_law permits fresh acq rel" and inv: "locks_inv permits own t"
    and acq: "lt_acquire acq a t = Some t'" and free: "own i = None"
  shows "locks_inv permits own (lt_release rel a t')"
proof -
  have "(own(i \<mapsto> a))(i := None) = own" using free by auto
  with locks_inv_release [OF law locks_inv_acquire [OF law inv acq free], of i a] show ?thesis by simp
qed

text \<open>A lock nobody owns can be taken.\<close>

lemma lock_free_acquire:
  assumes "sem_law permits fresh acq rel" and "locks_inv permits own t" and "a < length (lt_sems t)"
    and "\<And>x. own x \<noteq> Some a"
  shows "lt_acquire acq a t \<noteq> None"
proof -
  have "permits (lt_sems t ! a) = 1" using assms(2-4) unfolding locks_inv_def by blast
  then have "acq (lt_sems t ! a) \<noteq> None" using assms(1) by (auto simp: sem_law_def)
  with assms(3) show ?thesis by (simp add: lt_acquire_def)
qed

text \<open>Taking a lock that is held fails.\<close>

lemma lock_held_acquire:
  assumes "sem_law permits fresh acq rel" and "locks_inv permits own t" and "own x = Some a"
  shows "lt_acquire acq a t = None"
proof -
  have a: "a < length (lt_sems t)" using assms(2,3) by (simp add: locks_inv_def)
  with assms(2,3) have "permits (lt_sems t ! a) = 0" unfolding locks_inv_def by blast
  then have "acq (lt_sems t ! a) = None"
    using assms(1) by (cases "acq (lt_sems t ! a)") (auto simp: sem_law_def)
  with a show ?thesis by (simp add: lt_acquire_def)
qed

end
