(* ===== verification/Lock_Protocol.thy ===== *)
theory Lock_Protocol
  imports Lock_Table Transition
begin

text \<open>
  Tasks that use the locks of a table, as the calls of \<open>connect\<close> of both HTTP/2 connectors do: a
  task gets the lock of its key from the table, waits for the permit, works, and gives it back,
  however it ends. The locale \<open>lock_protocol\<close> is what such a client says of its tasks (which lock a
  task holds, which lock of which key it has its hands on, where the table is); the rules for the
  steps of a client and the two consequences, mutual exclusion per key and that no permit is
  lost, are proved once for all clients.
\<close>

definition lock_inv :: "('s \<Rightarrow> nat) \<Rightarrow> ('pc \<Rightarrow> nat option) \<Rightarrow> ('pc \<Rightarrow> 'k \<Rightarrow> nat \<Rightarrow> bool) \<Rightarrow> ('w \<Rightarrow> ('k, 's) lock_table)
    \<Rightarrow> ('w, 'pc) tasks \<Rightarrow> bool" where
  "lock_inv permits lock_of uses table s \<longleftrightarrow>
     locks_inv permits (\<lambda>i. lock_of (ts_task s i)) (table (ts_world s)) \<and>
     (\<forall>i key a. uses (ts_task s i) key a \<longrightarrow> hm_get (lt_map (table (ts_world s))) key = Some a)"

locale lock_protocol =
  fixes lock_of :: "'pc \<Rightarrow> nat option"
    and uses :: "'pc \<Rightarrow> 'k \<Rightarrow> nat \<Rightarrow> bool"
    and table :: "'w \<Rightarrow> ('k, 's) lock_table"
  assumes lock_uses: "lock_of pc = Some a \<Longrightarrow> \<exists>key. uses pc key a"
begin

abbreviation owners :: "('w, 'pc) tasks \<Rightarrow> nat \<Rightarrow> nat option" where
  "owners s \<equiv> (\<lambda>i. lock_of (ts_task s i))"

lemma lock_invD:
  assumes "lock_inv permits lock_of uses table s"
  shows "locks_inv permits (owners s) (table (ts_world s))"
    and "uses (ts_task s i) key a \<Longrightarrow> hm_get (lt_map (table (ts_world s))) key = Some a"
  using assms unfolding lock_inv_def by blast+

lemma owners_upd: "owners (ts_upd i pc w s) = (owners s)(i := lock_of pc)"
  by (auto simp: fun_eq_iff)

lemma owners_same: "lock_of (ts_task s i) = x \<Longrightarrow> (owners s)(i := x) = owners s"
  by (auto simp: fun_eq_iff)

lemma lock_inv_upd:
  assumes "lock_inv permits lock_of uses table s"
    and "locks_inv permits ((owners s)(i := lock_of pc)) (table w)"
    and "\<And>key a. hm_get (lt_map (table (ts_world s))) key = Some a \<Longrightarrow> hm_get (lt_map (table w)) key = Some a"
    and "\<And>key a. uses pc key a \<Longrightarrow> hm_get (lt_map (table w)) key = Some a"
  shows "lock_inv permits lock_of uses table (ts_upd i pc w s)"
  using assms unfolding lock_inv_def owners_upd by auto

text \<open>A step that leaves the locks alone.\<close>

lemma step_quiet:
  assumes inv: "lock_inv permits lock_of uses table s" and t: "table w = table (ts_world s)"
    and same: "lock_of pc = lock_of (ts_task s i)"
    and uses: "\<And>key a. uses pc key a \<Longrightarrow> uses (ts_task s i) key a"
  shows "lock_inv permits lock_of uses table (ts_upd i pc w s)"
proof (rule lock_inv_upd [OF inv])
  show "locks_inv permits ((owners s)(i := lock_of pc)) (table w)"
    using lock_invD(1) [OF inv] t same owners_same [of s i] by simp
  show "hm_get (lt_map (table w)) key = Some a" if "uses pc key a" for key a
    using lock_invD(2) [OF inv uses [OF that]] t by simp
qed (simp add: t)

text \<open>Getting hold of the lock of a key.\<close>

lemma step_get_lock:
  assumes law: "sem_law permits fresh acq rel" and inv: "lock_inv permits lock_of uses table s"
    and get: "get_lock fresh key (table (ts_world s)) = (a, table w)"
    and none: "lock_of (ts_task s i) = None" "lock_of pc = None"
    and uses: "\<And>k b. uses pc k b \<Longrightarrow> k = key \<and> b = a"
  shows "lock_inv permits lock_of uses table (ts_upd i pc w s)"
proof (rule lock_inv_upd [OF inv])
  show "locks_inv permits ((owners s)(i := lock_of pc)) (table w)"
    using locks_inv_get_lock [OF law lock_invD(1) [OF inv] get] none owners_same [of s i] by simp
  show "hm_get (lt_map (table w)) k = Some b" if "uses pc k b" for k b
    using get_lock_addr [OF get] uses [OF that] by simp
qed (rule get_lock_keeps [OF get])

text \<open>Taking the permit.\<close>

lemma step_acquire:
  assumes law: "sem_law permits fresh acq rel" and inv: "lock_inv permits lock_of uses table s"
    and acq: "lt_acquire acq a (table (ts_world s)) = Some (table w)"
    and i: "uses (ts_task s i) key a" "lock_of (ts_task s i) = None"
    and pc: "lock_of pc = Some a" "\<And>k b. uses pc k b \<Longrightarrow> k = key \<and> b = a"
  shows "lock_inv permits lock_of uses table (ts_upd i pc w s)"
proof (rule lock_inv_upd [OF inv])
  show "locks_inv permits ((owners s)(i := lock_of pc)) (table w)"
    using locks_inv_acquire [where own = "owners s", OF law lock_invD(1) [OF inv] acq i(2)] pc(1) by simp
  show "hm_get (lt_map (table w)) k = Some b" if "uses pc k b" for k b
    using lock_invD(2) [OF inv i(1)] pc(2) [OF that] lt_acquire_maps [OF acq] by simp
qed (simp add: lt_acquire_maps [OF acq])

text \<open>Giving the permit back, and taking it only to give it back.\<close>

lemma step_release:
  assumes law: "sem_law permits fresh acq rel" and inv: "lock_inv permits lock_of uses table s"
    and i: "lock_of (ts_task s i) = Some a" and t: "table w = lt_release rel a (table (ts_world s))"
    and pc: "lock_of pc = None" "\<And>k b. \<not> uses pc k b"
  shows "lock_inv permits lock_of uses table (ts_upd i pc w s)"
proof (rule lock_inv_upd [OF inv])
  show "locks_inv permits ((owners s)(i := lock_of pc)) (table w)"
    using locks_inv_release [where own = "owners s", OF law lock_invD(1) [OF inv] i] t pc(1) by simp
qed (use t pc(2) in auto)

lemma step_cycle:
  assumes law: "sem_law permits fresh acq rel" and inv: "lock_inv permits lock_of uses table s"
    and acq: "lt_acquire acq a (table (ts_world s)) = Some t" and i: "lock_of (ts_task s i) = None"
    and w: "table w = lt_release rel a t" and pc: "lock_of pc = None" "\<And>k b. \<not> uses pc k b"
  shows "lock_inv permits lock_of uses table (ts_upd i pc w s)"
proof (rule lock_inv_upd [OF inv])
  show "locks_inv permits ((owners s)(i := lock_of pc)) (table w)"
    using lock_cycle [where own = "owners s", OF law lock_invD(1) [OF inv] acq i] i w pc(1) owners_same [of s i] by simp
qed (use w pc(2) lt_acquire_maps [OF acq] in auto)

text \<open>Two tasks never hold the lock of one key, and a task can take the lock of its key if none does.\<close>

lemma lock_exclusive:
  assumes inv: "lock_inv permits lock_of uses table s"
    and i: "lock_of (ts_task s i) = Some a" "uses (ts_task s i) key a"
    and j: "lock_of (ts_task s j) = Some b" "uses (ts_task s j) key b"
  shows "i = j"
proof -
  have "a = b" using lock_invD(2) [OF inv i(2)] lock_invD(2) [OF inv j(2)] by simp
  then show ?thesis using locks_inv_owner [OF lock_invD(1) [OF inv], of i a j] i(1) j(1) by simp
qed

lemma lock_live:
  assumes law: "sem_law permits fresh acq rel" and inv: "lock_inv permits lock_of uses table s"
    and i: "uses (ts_task s i) key a"
  shows "lt_acquire acq a (table (ts_world s)) \<noteq> None \<longleftrightarrow>
    \<not> (\<exists>j b. lock_of (ts_task s j) = Some b \<and> uses (ts_task s j) key b)"
proof -
  note locks = lock_invD(1) [OF inv] and key = lock_invD(2) [OF inv i]
  have len: "a < length (lt_sems (table (ts_world s)))" using locks key by (auto simp: locks_inv_def)
  show ?thesis
  proof (cases "\<exists>j. lock_of (ts_task s j) = Some a")
    case True
    then obtain j where j: "lock_of (ts_task s j) = Some a" by blast
    then obtain k where k: "uses (ts_task s j) k a" using lock_uses by blast
    then have "k = key" using locks_inv_key [OF locks lock_invD(2) [OF inv k] key] by simp
    with j k lock_held_acquire [where own = "owners s", OF law locks j] show ?thesis by auto
  next
    case False
    then have "lt_acquire acq a (table (ts_world s)) \<noteq> None"
      using lock_free_acquire [where own = "owners s", OF law locks len] by blast
    moreover have "b = a" if "uses (ts_task s j) key b" for j b
      using lock_invD(2) [OF inv that] key by simp
    ultimately show ?thesis using False by blast
  qed
qed

end

end
