(* ===== verification/Http_Connector.thy ===== *)
theory Http_Connector
  imports Http_Connection Tls_Connector Lock_Protocol
begin

text \<open>
  \<open>HttpConnector\<close> and \<open>H1Connector\<close>, \<open>src/http/connector.rs\<close>. The code between two await points is
  one definition each (\<open>try_pools\<close>, \<open>take_lock\<close>, \<open>try_get\<close>, \<open>finish_h1\<close>, \<open>finish_h2\<close>); they are
  composed twice. \<open>HttpConnector_connect\<close> composes them as one call sees them, the awaited
  operations being arbitrary changes of the world, since other tasks run meanwhile; the step
  relation \<open>hc_step\<close> composes them as the single-threaded runtime interleaves many calls on one
  connector, with futures that may be dropped while they wait.
\<close>

section \<open>Data\<close>

datatype Protocol = P_HTTP2 | P_HTTP11 | P_Auto

text \<open>
  The fields that \<open>connect\<close> only reads are the record; \<open>h2_pool\<close> and \<open>connecting\<close>, which it changes
  through a shared reference, and the cells of the HTTP/1.1 pools are in the world, next to the
  clock and the state \<open>'w\<close> of sockets and background tasks.
\<close>

record ('c, 'b) HttpConnector =
  connector :: 'c
  protocol :: Protocol
  h1_pool :: "pool_ref option"
  h2_builder :: 'b

record ('k, 'cd, 'tx, 's, 'w) http_world =
  hw_h1 :: "('k, 'cd Http1Connection) pool_store"
  hw_h2 :: "('k, 'tx Http2Connection) PoolInner"
  hw_connecting :: "('k, 's) lock_table"
  hw_clock :: instant
  hw_env :: 'w

text \<open>
  The library code \<open>connect\<close> calls: the transport connector with its errors converted, the metadata of
  its connections, the codec, the HTTP/2 handshake that yields a sender and a background task, the
  spawning of that task, the error state of a sender, and the lock.
\<close>

record ('c, 'k, 'io, 'cd, 'tx, 'bg, 's, 'b, 'w, 'he, 'te) http_lib =
  transport_connect :: "'c \<Rightarrow> (('k, 'cd, 'tx, 's, 'w) http_world, 'k, 'io, 'te) connector"
  get_conn_metadata :: "'io \<Rightarrow> TransportConnMeta"
  ClientCodec_new :: "'io \<Rightarrow> 'cd"
  handshake :: "'b \<Rightarrow> 'io \<Rightarrow> (('k, 'cd, 'tx, 's, 'w) http_world, 'tx \<times> 'bg, 'te) io"
  spawn_task :: "'bg \<Rightarrow> 'w \<Rightarrow> 'w"
  sender_error :: "'w \<Rightarrow> 'tx \<Rightarrow> 'he option"
  Semaphore_new :: 's
  acquire :: "nat \<Rightarrow> (('k, 'cd, 'tx, 's, 'w) http_world, unit, 'te) io"
  release_permit :: "'s \<Rightarrow> 's"

section \<open>Constructors\<close>

text \<open>
  Every constructor makes a fresh HTTP/1.1 pool, an empty HTTP/2 pool and an empty table of locks;
  \<open>b\<close> is the default HTTP/2 builder.
\<close>

definition http_build :: "'b \<Rightarrow> 'c \<Rightarrow> Protocol \<Rightarrow> ('k, 'cd, 'tx, 's, 'w) http_world
    \<Rightarrow> ('c, 'b) HttpConnector \<times> ('k, 'cd, 'tx, 's, 'w) http_world" where
  "http_build b c proto w =
     (case ConnectionPool_default (hw_h1 w) of
        (p, s) \<Rightarrow>
          (\<lparr>connector = c, protocol = proto, h1_pool = Some p, h2_builder = b\<rparr>,
           w\<lparr>hw_h1 := s, hw_h2 := PoolInner_new None, hw_connecting := lt_new\<rparr>))"

definition HttpConnector_new :: "'b \<Rightarrow> 'c \<Rightarrow> ('k, 'cd, 'tx, 's, 'w) http_world
    \<Rightarrow> ('c, 'b) HttpConnector \<times> ('k, 'cd, 'tx, 's, 'w) http_world" where
  "HttpConnector_new b c = http_build b c P_Auto"

text \<open>\<open>c\<close> is \<open>C::default()\<close> of the transport connector.\<close>

definition HttpConnector_default :: "'b \<Rightarrow> 'c \<Rightarrow> ('k, 'cd, 'tx, 's, 'w) http_world
    \<Rightarrow> ('c, 'b) HttpConnector \<times> ('k, 'cd, 'tx, 's, 'w) http_world" where
  "HttpConnector_default b c = HttpConnector_new b c"

definition set_http1_only :: "('c, 'b) HttpConnector \<Rightarrow> ('c, 'b) HttpConnector" where
  "set_http1_only self = self\<lparr>protocol := P_HTTP11\<rparr>"

definition set_http2_only :: "('c, 'b) HttpConnector \<Rightarrow> ('c, 'b) HttpConnector" where
  "set_http2_only self = self\<lparr>protocol := P_HTTP2\<rparr>"

text \<open>\<open>h2_builder()\<close> hands out a mutable reference: any change of the builder.\<close>

definition set_h2_builder :: "('b \<Rightarrow> 'b) \<Rightarrow> ('c, 'b) HttpConnector \<Rightarrow> ('c, 'b) HttpConnector" where
  "set_h2_builder f self = self\<lparr>h2_builder := f (h2_builder self)\<rparr>"

definition is_config_h2 :: "('c, 'b) HttpConnector \<Rightarrow> bool" where
  "is_config_h2 self = (case protocol self of P_HTTP2 \<Rightarrow> True | _ \<Rightarrow> False)"

definition is_config_h1 :: "('c, 'b) HttpConnector \<Rightarrow> bool" where
  "is_config_h1 self = (case protocol self of P_HTTP11 \<Rightarrow> True | _ \<Rightarrow> False)"

definition is_config_auto :: "('c, 'b) HttpConnector \<Rightarrow> bool" where
  "is_config_auto self = (case protocol self of P_Auto \<Rightarrow> True | _ \<Rightarrow> False)"

definition build_tcp_http1_only :: "'b \<Rightarrow> ('k, 'cd, 'tx, 's, 'w) http_world
    \<Rightarrow> (TcpConnector, 'b) HttpConnector \<times> ('k, 'cd, 'tx, 's, 'w) http_world" where
  "build_tcp_http1_only b = http_build b TcpConnector_default P_HTTP11"

definition build_tcp_http2_only :: "'b \<Rightarrow> ('k, 'cd, 'tx, 's, 'w) http_world
    \<Rightarrow> (TcpConnector, 'b) HttpConnector \<times> ('k, 'cd, 'tx, 's, 'w) http_world" where
  "build_tcp_http2_only b = http_build b TcpConnector_default P_HTTP2"

text \<open>The TLS variants restrict the advertised protocols; \<open>tls\<close> is the default TLS configuration.\<close>

definition build_tls_http1_only :: "'x client_config \<Rightarrow> 'c \<Rightarrow> 'b \<Rightarrow> ('k, 'cd, 'tx, 's, 'w) http_world
    \<Rightarrow> (('c, 'x) TlsConnector, 'b) HttpConnector \<times> ('k, 'cd, 'tx, 's, 'w) http_world" where
  "build_tls_http1_only tls c b =
     http_build b (new_with_tls_default tls c (Some [''http/1.1''])) P_Auto"

definition build_tls_http2_only :: "'x client_config \<Rightarrow> 'c \<Rightarrow> 'b \<Rightarrow> ('k, 'cd, 'tx, 's, 'w) http_world
    \<Rightarrow> (('c, 'x) TlsConnector, 'b) HttpConnector \<times> ('k, 'cd, 'tx, 's, 'w) http_world" where
  "build_tls_http2_only tls c b =
     http_build b (new_with_tls_default tls c (Some [''h2''])) P_Auto"

section \<open>The code between await points\<close>

text \<open>The macro \<open>try_get!\<close>: connections with an error leave the queue, the front one is cloned.\<close>

definition try_get :: "('w \<Rightarrow> 'tx \<Rightarrow> 'he option) \<Rightarrow> 'w \<Rightarrow> 'k \<Rightarrow> ('k, 'tx Http2Connection) PoolInner
    \<Rightarrow> 'tx Http2Connection option \<times> ('k, 'tx Http2Connection) PoolInner" where
  "try_get err env key =
     and_then_mut key (\<lambda>conns.
       let conns = retain (\<lambda>idle. case conn_error err env (conn idle) of Some _ \<Rightarrow> False | None \<Rightarrow> True) conns
       in (map_option (\<lambda>idle. Http2Connection_to_owned (conn idle)) (front conns), conns))"

definition try_h2 :: "('w \<Rightarrow> 'tx \<Rightarrow> 'he option) \<Rightarrow> 'k \<Rightarrow> ('k, 'cd, 'tx, 's, 'w) http_world
    \<Rightarrow> 'tx Http2Connection option \<times> ('k, 'cd, 'tx, 's, 'w) http_world" where
  "try_h2 err key w =
     (case try_get err (hw_env w) key (hw_h2 w) of (r, p) \<Rightarrow> (r, w\<lparr>hw_h2 := p\<rparr>))"

text \<open>
  The start of \<open>connect\<close>: first the HTTP/2 pool, then the HTTP/1.1 pool, each if the configuration
  allows it.
\<close>

definition try_h1 :: "('c, 'b) HttpConnector \<Rightarrow> 'k \<Rightarrow> ('k, 'cd, 'tx, 's, 'w) http_world
    \<Rightarrow> (('k, 'cd Http1Connection) Pooled option \<times> ('k, 'cd, 'tx, 's, 'w) http_world) option" where
  "try_h1 self key w =
     (case h1_pool self of
        None \<Rightarrow> Some (None, w)
      | Some a \<Rightarrow>
          map_option (\<lambda>(r, s). (r, w\<lparr>hw_h1 := s\<rparr>)) (ConnectionPool_get (hw_clock w) a key (hw_h1 w)))"

definition try_pools :: "('w \<Rightarrow> 'tx \<Rightarrow> 'he option) \<Rightarrow> ('c, 'b) HttpConnector \<Rightarrow> 'k \<Rightarrow> ('k, 'cd, 'tx, 's, 'w) http_world
    \<Rightarrow> (('k, 'cd, 'tx) HttpConnection option \<times> ('k, 'cd, 'tx, 's, 'w) http_world) option" where
  "try_pools err self key w =
     (case (if is_config_auto self \<or> is_config_h2 self then try_h2 err key w else (None, w)) of
        (Some c, w1) \<Rightarrow> Some (Some (Http2 c), w1)
      | (None, w1) \<Rightarrow>
          if is_config_auto self \<or> is_config_h1 self
          then map_option (\<lambda>(r, w2). (map_option Http1 r, w2)) (try_h1 self key w1)
          else Some (None, w1))"

definition connect_to_h2 :: "('c, 'b) HttpConnector \<Rightarrow> TransportConnMeta \<Rightarrow> bool" where
  "connect_to_h2 self meta \<longleftrightarrow> is_config_h2 self \<or> is_alpn_h2 meta"

definition take_lock :: "'s \<Rightarrow> 'k \<Rightarrow> ('k, 'cd, 'tx, 's, 'w) http_world \<Rightarrow> nat \<times> ('k, 'cd, 'tx, 's, 'w) http_world" where
  "take_lock fresh key w =
     (case get_lock fresh key (hw_connecting w) of (a, t) \<Rightarrow> (a, w\<lparr>hw_connecting := t\<rparr>))"

definition drop_guard :: "('s \<Rightarrow> 's) \<Rightarrow> nat \<Rightarrow> ('k, 'cd, 'tx, 's, 'w) http_world \<Rightarrow> ('k, 'cd, 'tx, 's, 'w) http_world" where
  "drop_guard rel a w = w\<lparr>hw_connecting := lt_release rel a (hw_connecting w)\<rparr>"

definition finish_h2 :: "('bg \<Rightarrow> 'w \<Rightarrow> 'w) \<Rightarrow> 'k \<Rightarrow> 'tx \<Rightarrow> 'bg \<Rightarrow> ('k, 'cd, 'tx, 's, 'w) http_world
    \<Rightarrow> ('k, 'cd, 'tx) HttpConnection \<times> ('k, 'cd, 'tx, 's, 'w) http_world" where
  "finish_h2 spawn key t task w =
     (Http2 (Http2Connection_new t),
      w\<lparr>hw_env := spawn task (hw_env w), hw_h2 := pool_put (hw_clock w) key (Http2Connection_new t) (hw_h2 w)\<rparr>)"

definition finish_h1 :: "('io \<Rightarrow> 'cd) \<Rightarrow> ('c, 'b) HttpConnector \<Rightarrow> 'k \<Rightarrow> 'io \<Rightarrow> ('k, 'cd, 'tx) HttpConnection" where
  "finish_h1 codec self key io =
     (let http_conn = Http1Connection_new (codec io)
      in Http1 (case h1_pool self of
           Some pool \<Rightarrow> ConnectionPool_link pool key http_conn
         | None \<Rightarrow> unpooled http_conn))"

section \<open>\<open>connect\<close> as one call\<close>

definition connect_locked :: "('c, 'k, 'io, 'cd, 'tx, 'bg, 's, 'b, 'w, 'he, 'te) http_lib \<Rightarrow> ('c, 'b) HttpConnector
    \<Rightarrow> 'k \<Rightarrow> 'io \<Rightarrow> nat \<Rightarrow> (('k, 'cd, 'tx, 's, 'w) http_world, ('k, 'cd, 'tx) HttpConnection, 'te) io" where
  "connect_locked L self key io a w =
     (case try_h2 (sender_error L) key w of
        (Some c, w1) \<Rightarrow> (Ok (Http2 c), drop_guard (release_permit L) a w1)
      | (None, w1) \<Rightarrow>
          (case handshake L (h2_builder self) io w1 of
             (Inl e, w2) \<Rightarrow> (Err e, drop_guard (release_permit L) a w2)
           | (Inr (t, task), w2) \<Rightarrow>
               (case finish_h2 (spawn_task L) key t task w2 of
                  (c, w3) \<Rightarrow> (Ok c, drop_guard (release_permit L) a w3))))"

definition after_transport :: "('c, 'k, 'io, 'cd, 'tx, 'bg, 's, 'b, 'w, 'he, 'te) http_lib \<Rightarrow> ('c, 'b) HttpConnector
    \<Rightarrow> 'k \<Rightarrow> 'io \<Rightarrow> (('k, 'cd, 'tx, 's, 'w) http_world, ('k, 'cd, 'tx) HttpConnection, 'te) io" where
  "after_transport L self key io w =
     (if connect_to_h2 self (get_conn_metadata L io)
      then (case take_lock (Semaphore_new L) key w of
              (a, w1) \<Rightarrow> io_bind (acquire L a) (\<lambda>_. connect_locked L self key io a) w1)
      else (Ok (finish_h1 (ClientCodec_new L) self key io), w))"

definition HttpConnector_connect :: "('c, 'k, 'io, 'cd, 'tx, 'bg, 's, 'b, 'w, 'he, 'te) http_lib \<Rightarrow> ('c, 'b) HttpConnector
    \<Rightarrow> 'k \<Rightarrow> ('k, 'cd, 'tx, 's, 'w) http_world
    \<Rightarrow> ((('k, 'cd, 'tx) HttpConnection, 'te) result \<times> ('k, 'cd, 'tx, 's, 'w) http_world) option" where
  "HttpConnector_connect L self key w =
     (case try_pools (sender_error L) self key w of
        None \<Rightarrow> None
      | Some (Some c, w1) \<Rightarrow> Some (Ok c, w1)
      | Some (None, w1) \<Rightarrow>
          Some (io_bind (transport_connect L (connector self) key) (after_transport L self key) w1))"

section \<open>Many calls on one connector\<close>

text \<open>Where a call of \<open>connect\<close> stands: the await point it is suspended at, or its answer.\<close>

datatype ('k, 'io, 'r) hc_pc =
  NotRunning
| Transport 'k
| Locking 'k 'io nat
| Handshaking 'k 'io nat
| Finished 'r

type_synonym ('k, 'cd, 'tx, 's, 'w, 'io, 'te) hc_sys =
  "(('k, 'cd, 'tx, 's, 'w) http_world, ('k, 'io, (('k, 'cd, 'tx) HttpConnection, 'te) result) hc_pc) tasks"

text \<open>
  The steps: each runs one task to its next await point. The transport, the handshake and the
  outcome of their awaiting are free; \<open>acq\<close> is the attempt to take the permit. \<open>cancel\<close> drops a
  future, \<open>other\<close> is everything else in the process: handles of the HTTP/1.1 pools are dropped, time
  passes, connections fail.
\<close>

inductive hc_step :: "('c, 'k, 'io, 'cd, 'tx, 'bg, 's, 'b, 'w, 'he, 'te) http_lib \<Rightarrow> ('s \<Rightarrow> 's option)
    \<Rightarrow> ('c, 'b) HttpConnector \<Rightarrow> ('k, 'cd, 'tx, 's, 'w, 'io, 'te) hc_sys \<Rightarrow> ('k, 'cd, 'tx, 's, 'w, 'io, 'te) hc_sys \<Rightarrow> bool"
  for L acq self where
  start_hit: "ts_task s i = NotRunning \<Longrightarrow>
    try_pools (sender_error L) self key (ts_world s) = Some (Some c, w) \<Longrightarrow>
    hc_step L acq self s (ts_upd i (Finished (Ok c)) w s)"
| start_miss: "ts_task s i = NotRunning \<Longrightarrow>
    try_pools (sender_error L) self key (ts_world s) = Some (None, w) \<Longrightarrow>
    hc_step L acq self s (ts_upd i (Transport key) w s)"
| transport_err: "ts_task s i = Transport key \<Longrightarrow>
    hc_step L acq self s (ts_upd i (Finished (Err e)) (ts_world s) s)"
| transport_h1: "ts_task s i = Transport key \<Longrightarrow> \<not> connect_to_h2 self (get_conn_metadata L io) \<Longrightarrow>
    hc_step L acq self s
      (ts_upd i (Finished (Ok (finish_h1 (ClientCodec_new L) self key io))) (ts_world s) s)"
| transport_h2: "ts_task s i = Transport key \<Longrightarrow> connect_to_h2 self (get_conn_metadata L io) \<Longrightarrow>
    take_lock (Semaphore_new L) key (ts_world s) = (a, w) \<Longrightarrow>
    hc_step L acq self s (ts_upd i (Locking key io a) w s)"
| lock_hit: "ts_task s i = Locking key io a \<Longrightarrow>
    lt_acquire acq a (hw_connecting (ts_world s)) = Some t \<Longrightarrow>
    try_h2 (sender_error L) key ((ts_world s)\<lparr>hw_connecting := t\<rparr>) = (Some c, w) \<Longrightarrow>
    hc_step L acq self s (ts_upd i (Finished (Ok (Http2 c))) (drop_guard (release_permit L) a w) s)"
| lock_miss: "ts_task s i = Locking key io a \<Longrightarrow>
    lt_acquire acq a (hw_connecting (ts_world s)) = Some t \<Longrightarrow>
    try_h2 (sender_error L) key ((ts_world s)\<lparr>hw_connecting := t\<rparr>) = (None, w) \<Longrightarrow>
    hc_step L acq self s (ts_upd i (Handshaking key io a) w s)"
| lock_err: "ts_task s i = Locking key io a \<Longrightarrow>
    hc_step L acq self s (ts_upd i (Finished (Err e)) (ts_world s) s)"
| shake_ok: "ts_task s i = Handshaking key io a \<Longrightarrow>
    finish_h2 (spawn_task L) key t task (ts_world s) = (c, w) \<Longrightarrow>
    hc_step L acq self s (ts_upd i (Finished (Ok c)) (drop_guard (release_permit L) a w) s)"
| shake_err: "ts_task s i = Handshaking key io a \<Longrightarrow>
    hc_step L acq self s (ts_upd i (Finished (Err e)) (drop_guard (release_permit L) a (ts_world s)) s)"
| cancel: "ts_task s i = Transport key \<or> ts_task s i = Locking key io a \<or> ts_task s i = Finished r \<Longrightarrow>
    hc_step L acq self s (ts_upd i NotRunning (ts_world s) s)"
| cancel_shake: "ts_task s i = Handshaking key io a \<Longrightarrow>
    hc_step L acq self s (ts_upd i NotRunning (drop_guard (release_permit L) a (ts_world s)) s)"
| other: "hw_h2 w = hw_h2 (ts_world s) \<Longrightarrow> hw_connecting w = hw_connecting (ts_world s) \<Longrightarrow>
    hc_step L acq self s (s\<lparr>ts_world := w\<rparr>)"

definition hc_start :: "('k, 'cd, 'tx, 's, 'w, 'io, 'te) hc_sys \<Rightarrow> bool" where
  "hc_start s \<longleftrightarrow> hw_h2 (ts_world s) = PoolInner_new None \<and> hw_connecting (ts_world s) = lt_new \<and> ts_task s = (\<lambda>_. NotRunning)"

abbreviation hc_reach :: "('c, 'k, 'io, 'cd, 'tx, 'bg, 's, 'b, 'w, 'he, 'te) http_lib \<Rightarrow> ('s \<Rightarrow> 's option)
    \<Rightarrow> ('c, 'b) HttpConnector \<Rightarrow> ('k, 'cd, 'tx, 's, 'w, 'io, 'te) hc_sys \<Rightarrow> bool" where
  "hc_reach L acq self \<equiv> reachable hc_start (hc_step L acq self)"

section \<open>What the pieces do\<close>

definition healthy :: "('w \<Rightarrow> 'tx \<Rightarrow> 'he option) \<Rightarrow> 'w \<Rightarrow> 'tx Http2Connection Idle \<Rightarrow> bool" where
  "healthy err env i \<longleftrightarrow> err env (tx (conn i)) = None"

lemma to_owned_id [simp]: "Http2Connection_to_owned c = c"
  by (cases c) (simp add: Http2Connection_to_owned_def)

lemma try_get_eq:
  "fst (try_get err env key p) = map_option conn (front (filter (healthy err env) (queue_of p key)))"
  "queue_of (snd (try_get err env key p)) k =
     (if k = key then filter (healthy err env) (queue_of p key) else queue_of p k)"
proof -
  have "(\<lambda>idle. case conn_error err env (conn idle) of Some _ \<Rightarrow> False | None \<Rightarrow> True) = healthy err env"
    by (auto simp: healthy_def conn_error_def fun_eq_iff split: option.splits)
  then show "fst (try_get err env key p) = map_option conn (front (filter (healthy err env) (queue_of p key)))"
    "queue_of (snd (try_get err env key p)) k =
     (if k = key then filter (healthy err env) (queue_of p key) else queue_of p k)"
    by (auto simp: try_get_def and_then_mut_result and_then_mut_queue retain_def queue_of_absent Let_def)
qed

text \<open>One pool is another one with some entries removed.\<close>

definition shrinks :: "('k, 'c) PoolInner \<Rightarrow> ('k, 'c) PoolInner \<Rightarrow> bool" where
  "shrinks p p' \<longleftrightarrow>
     (pool_wf p \<longrightarrow> pool_wf p') \<and> max_idle p' = max_idle p \<and> (\<forall>k. \<exists>P. queue_of p' k = filter P (queue_of p k))"

lemma shrinks_refl [simp]: "shrinks p p"
  unfolding shrinks_def by (auto intro: exI [where x = "\<lambda>_. True"])

lemma shrinks_try_get: "shrinks p (snd (try_get err env key p))"
  unfolding shrinks_def try_get_eq
  by (auto simp: try_get_def intro: exI [where x = "\<lambda>_. True"])

lemma try_h2_frame:
  assumes "try_h2 err key w = (r, w')"
  shows "hw_connecting w' = hw_connecting w" and "shrinks (hw_h2 w) (hw_h2 w')"
    and "r = map_option conn (front (filter (healthy err (hw_env w)) (queue_of (hw_h2 w) key)))"
    and "queue_of (hw_h2 w') key = filter (healthy err (hw_env w)) (queue_of (hw_h2 w) key)"
  using assms try_get_eq [of err "hw_env w" key "hw_h2 w"] shrinks_try_get [of "hw_h2 w" err "hw_env w" key]
  by (auto simp: try_h2_def split: prod.splits)

lemma try_pools_frame:
  assumes "try_pools err self key w = Some (r, w')"
  shows "hw_connecting w' = hw_connecting w" and "shrinks (hw_h2 w) (hw_h2 w')"
proof -
  obtain c w1 where h2: "(if is_config_auto self \<or> is_config_h2 self then try_h2 err key w else (None, w)) = (c, w1)"
    by (cases "if is_config_auto self \<or> is_config_h2 self then try_h2 err key w else (None, w)")
  have "hw_connecting w1 = hw_connecting w \<and> shrinks (hw_h2 w) (hw_h2 w1)"
    using h2 try_h2_frame(1,2) [of err key w c w1] by (auto split: if_splits)
  moreover have "hw_connecting w' = hw_connecting w1 \<and> hw_h2 w' = hw_h2 w1"
    using assms unfolding try_pools_def h2
    by (auto simp: try_h1_def split: option.splits if_splits)
  ultimately show "hw_connecting w' = hw_connecting w" "shrinks (hw_h2 w) (hw_h2 w')" by simp_all
qed

section \<open>The invariant of the interleaving\<close>

definition task_lock :: "('k, 'io, 'r) hc_pc \<Rightarrow> nat option" where
  "task_lock pc = (case pc of Handshaking _ _ a \<Rightarrow> Some a | _ \<Rightarrow> None)"

definition waits_on :: "('k, 'io, 'r) hc_pc \<Rightarrow> 'k \<Rightarrow> nat \<Rightarrow> bool" where
  "waits_on pc key a \<longleftrightarrow> (\<exists>io. pc = Locking key io a \<or> pc = Handshaking key io a)"

definition handshakes :: "('k, 'io, 'r) hc_pc \<Rightarrow> 'k \<Rightarrow> bool" where
  "handshakes pc key \<longleftrightarrow> (\<exists>io a. pc = Handshaking key io a)"

lemma task_lock_simps [simp]:
  "task_lock NotRunning = None" "task_lock (Transport key) = None" "task_lock (Locking key io a) = None"
  "task_lock (Handshaking key io a) = Some a" "task_lock (Finished r) = None"
  unfolding task_lock_def by simp_all

lemma waits_on_simps [simp]:
  "\<not> waits_on NotRunning key a" "\<not> waits_on (Transport key') key a" "\<not> waits_on (Finished r) key a"
  "waits_on (Locking key' io b) key a \<longleftrightarrow> key' = key \<and> b = a"
  "waits_on (Handshaking key' io b) key a \<longleftrightarrow> key' = key \<and> b = a"
  by (auto simp: waits_on_def)

lemma handshakes_simps [simp]:
  "\<not> handshakes NotRunning key" "\<not> handshakes (Transport key') key" "\<not> handshakes (Finished r) key"
  "\<not> handshakes (Locking key' io b) key" "handshakes (Handshaking key' io b) key \<longleftrightarrow> key' = key"
  by (auto simp: handshakes_def)

lemma handshakes_iff: "handshakes pc key \<longleftrightarrow> (\<exists>a. task_lock pc = Some a \<and> waits_on pc key a)"
  by (cases pc) auto

interpretation hc_locks: lock_protocol task_lock waits_on hw_connecting
proof unfold_locales
  fix pc :: "('k, 'io, 'r) hc_pc" and a
  show "task_lock pc = Some a \<Longrightarrow> \<exists>key. waits_on pc key a" by (cases pc) auto
qed

text \<open>
  Besides the locks: the HTTP/2 pool has at most one connection per key, and none while a handshake
  for the key is under way.
\<close>

definition h2_pool_inv :: "('k, 'cd, 'tx, 's, 'w, 'io, 'te) hc_sys \<Rightarrow> bool" where
  "h2_pool_inv s \<longleftrightarrow>
     pool_wf (hw_h2 (ts_world s)) \<and> max_idle (hw_h2 (ts_world s)) = 256 \<and>
     (\<forall>key. length (queue_of (hw_h2 (ts_world s)) key) \<le> 1) \<and>
     (\<forall>i key. handshakes (ts_task s i) key \<longrightarrow> queue_of (hw_h2 (ts_world s)) key = [])"

definition hc_inv :: "('s \<Rightarrow> nat) \<Rightarrow> ('k, 'cd, 'tx, 's, 'w, 'io, 'te) hc_sys \<Rightarrow> bool" where
  "hc_inv permits s \<longleftrightarrow> lock_inv permits task_lock waits_on hw_connecting s \<and> h2_pool_inv s"

lemma hc_invD:
  assumes "hc_inv permits s"
  shows "lock_inv permits task_lock waits_on hw_connecting s"
    and "pool_wf (hw_h2 (ts_world s))"
    and "length (queue_of (hw_h2 (ts_world s)) key) \<le> 1"
    and "handshakes (ts_task s i) key \<Longrightarrow> queue_of (hw_h2 (ts_world s)) key = []"
  using assms unfolding hc_inv_def h2_pool_inv_def by blast+

lemma h2_pool_shrinks:
  assumes inv: "h2_pool_inv s" and shr: "shrinks (hw_h2 (ts_world s)) (hw_h2 w)"
    and shakes: "\<And>key. handshakes pc key \<Longrightarrow> queue_of (hw_h2 w) key = []"
  shows "h2_pool_inv (ts_upd i pc w s)"
proof -
  have sub: "\<exists>P. queue_of (hw_h2 w) key = filter P (queue_of (hw_h2 (ts_world s)) key)" for key
    using shr by (simp add: shrinks_def)
  have "length (queue_of (hw_h2 w) key) \<le> 1" for key
  proof -
    from sub obtain P where "queue_of (hw_h2 w) key = filter P (queue_of (hw_h2 (ts_world s)) key)" by blast
    then have "length (queue_of (hw_h2 w) key) \<le> length (queue_of (hw_h2 (ts_world s)) key)" by simp
    also have "\<dots> \<le> 1" using inv by (simp add: h2_pool_inv_def)
    finally show ?thesis .
  qed
  moreover have "queue_of (hw_h2 w) key = []" if "handshakes (ts_task s j) key" for j key
    using sub [of key] that inv by (auto simp: h2_pool_inv_def)
  ultimately show ?thesis using inv shr shakes by (auto simp: h2_pool_inv_def shrinks_def)
qed

text \<open>The handshake of a key ends: its connection becomes the only entry of the queue.\<close>

lemma h2_pool_finish:
  assumes inv: "h2_pool_inv s" and pc: "ts_task s i = Handshaking key io a"
    and uniq: "\<And>j. handshakes (ts_task s j) key \<Longrightarrow> j = i"
    and fin: "finish_h2 sp key t task (ts_world s) = (c, w)" and w': "hw_h2 w' = hw_h2 w"
  shows "h2_pool_inv (ts_upd i (Finished r) w' s)"
proof -
  let ?p = "hw_h2 (ts_world s)"
  have w: "hw_h2 w' = pool_put (hw_clock (ts_world s)) key (Http2Connection_new t) ?p"
    using fin w' by (auto simp: finish_h2_def)
  have empty: "queue_of ?p key = []" using inv pc handshakes_simps(5) unfolding h2_pool_inv_def by metis
  have q: "queue_of (hw_h2 w') k = (if k = key then [Idle_new (hw_clock (ts_world s)) (Http2Connection_new t)] else queue_of ?p k)" for k
    using empty by (simp add: w put_queue)
  have "queue_of (hw_h2 w') k = []" if "handshakes (ts_task s j) k" "j \<noteq> i" for j k
    using that inv uniq by (auto simp: q h2_pool_inv_def)
  moreover have "length (queue_of (hw_h2 w') k) \<le> 1" for k using inv by (simp add: q h2_pool_inv_def)
  moreover have "pool_wf (hw_h2 w')" "max_idle (hw_h2 w') = 256" using inv by (simp_all add: w h2_pool_inv_def)
  ultimately show ?thesis by (auto simp: h2_pool_inv_def)
qed

text \<open>A step of a task that has no lock in hand afterwards and none before, and leaves the locks alone.\<close>

lemma hc_inv_quiet:
  assumes "hc_inv permits s" and "shrinks (hw_h2 (ts_world s)) (hw_h2 w)"
    and "hw_connecting w = hw_connecting (ts_world s)" and "task_lock (ts_task s i) = None"
    and "pc = NotRunning \<or> (\<exists>key. pc = Transport key) \<or> (\<exists>r. pc = Finished r)"
  shows "hc_inv permits (ts_upd i pc w s)"
  using assms hc_locks.step_quiet [of permits s w pc i] h2_pool_shrinks [of s w pc i] by (auto simp: hc_inv_def)

text \<open>A task that gives its lock back and ends.\<close>

lemma hc_inv_unlock:
  assumes "sem_law permits fresh acq rel" and "hc_inv permits s" and "ts_task s i = Handshaking key io a"
    and "pc = NotRunning \<or> (\<exists>r. pc = Finished r)"
  shows "hc_inv permits (ts_upd i pc (drop_guard rel a (ts_world s)) s)"
  using assms hc_locks.step_release [OF assms(1), of s i a "drop_guard rel a (ts_world s)" pc]
    h2_pool_shrinks [of s "drop_guard rel a (ts_world s)" pc i]
  by (auto simp: hc_inv_def drop_guard_def)

lemma handshake_unique:
  assumes "hc_inv permits s" and "handshakes (ts_task s i) key" and "handshakes (ts_task s j) key"
  shows "i = j"
  using assms hc_locks.lock_exclusive [OF hc_invD(1) [OF assms(1)]] unfolding handshakes_iff by blast

lemma hc_inv_step:
  assumes law: "sem_law permits (Semaphore_new L) acq (release_permit L)"
    and step: "hc_step L acq self s t" and inv: "hc_inv permits s"
  shows "hc_inv permits t"
  using step inv
proof (induction rule: hc_step.induct)
  case (start_hit s i key c w)
  show ?case
    by (rule hc_inv_quiet) (use start_hit try_pools_frame [OF start_hit(2)] in auto)
next
  case (start_miss s i key w)
  show ?case
    by (rule hc_inv_quiet) (use start_miss try_pools_frame [OF start_miss(2)] in auto)
next
  case (transport_h2 s i key io a w)
  have "get_lock (Semaphore_new L) key (hw_connecting (ts_world s)) = (a, hw_connecting w)" "hw_h2 w = hw_h2 (ts_world s)"
    using transport_h2(3) by (auto simp: take_lock_def split: prod.splits)
  then show ?case
    using transport_h2 hc_locks.step_get_lock [OF law, of s key a w i "Locking key io a"]
      h2_pool_shrinks [of s w "Locking key io a" i] by (auto simp: hc_inv_def)
next
  case (lock_hit s i key io a t c w)
  note f = try_h2_frame [OF lock_hit(3)]
  show ?case
    using lock_hit f(1,2) hc_locks.step_cycle [OF law, of s a t i "drop_guard (release_permit L) a w" "Finished (Ok (Http2 c))"]
      h2_pool_shrinks [of s "drop_guard (release_permit L) a w" "Finished (Ok (Http2 c))" i]
    by (auto simp: hc_inv_def drop_guard_def)
next
  case (lock_miss s i key io a t w)
  note f = try_h2_frame [OF lock_miss(3)]
  have empty: "queue_of (hw_h2 w) key = []" using f(3,4) by auto
  show ?case
    using lock_miss f(1,2) empty hc_locks.step_acquire [OF law, of s a w i key "Handshaking key io a"]
      h2_pool_shrinks [of s w "Handshaking key io a" i]
    by (auto simp: hc_inv_def)
next
  case (shake_ok s i key io a t task c w)
  have w: "hw_connecting w = hw_connecting (ts_world s)" using shake_ok(2) by (auto simp: finish_h2_def)
  have "h2_pool_inv (ts_upd i (Finished (Ok c)) (drop_guard (release_permit L) a w) s)"
    using shake_ok handshake_unique [OF shake_ok.prems, of _ key i]
    by (intro h2_pool_finish [OF _ shake_ok(1) _ shake_ok(2)]) (auto simp: hc_inv_def drop_guard_def)
  then show ?case
    using shake_ok w hc_locks.step_release [OF law, of s i a "drop_guard (release_permit L) a w" "Finished (Ok c)"]
    by (auto simp: hc_inv_def drop_guard_def)
next
  case (shake_err s i key io a e)
  then show ?case by (intro hc_inv_unlock [OF law]) auto
next
  case (cancel_shake s i key io a)
  then show ?case by (intro hc_inv_unlock [OF law]) auto
next
  case (other w s)
  then show ?case by (simp add: hc_inv_def h2_pool_inv_def lock_inv_def)
qed (rule hc_inv_quiet; auto)+

text \<open>The invariant holds in every reachable state, for any lock that keeps its contract.\<close>

interpretation hc: invariant_system hc_start "hc_step L acq self"
    "\<lambda>s. sem_law permits (Semaphore_new L) acq (release_permit L) \<longrightarrow> hc_inv permits s" for L acq self permits
  by unfold_locales (simp add: hc_start_def hc_inv_def h2_pool_inv_def lock_inv_def locks_inv_new, blast intro: hc_inv_step)

lemma hc_inv_reach:
  assumes "sem_law permits (Semaphore_new L) acq (release_permit L)" and "hc_reach L acq self s"
  shows "hc_inv permits s"
  using hc.inv_reachable [OF assms(2)] assms(1) by blast

section \<open>H1Connector\<close>

record ('k, 'io, 'e, 'cd, 'w) H1Connector =
  h1c_inner :: "(('k, 'cd Http1Connection, 'w) world, 'k, 'io, 'e) connector"
  h1c_pool :: "pool_ref option"
  read_timeout :: "duration option"

definition H1Connector_new :: "(('k, 'cd Http1Connection, 'w) world, 'k, 'io, 'e) connector
    \<Rightarrow> ('k, 'io, 'e, 'cd, 'w) H1Connector" where
  "H1Connector_new c = \<lparr>h1c_inner = c, h1c_pool = None, read_timeout = None\<rparr>"

definition H1Connector_default :: "(('k, 'cd Http1Connection, 'w) world, 'k, 'io, 'e) connector
    \<Rightarrow> ('k, 'io, 'e, 'cd, 'w) H1Connector" where
  "H1Connector_default c = H1Connector_new c"

definition H1Connector_new_with_timeout :: "(('k, 'cd Http1Connection, 'w) world, 'k, 'io, 'e) connector
    \<Rightarrow> duration \<Rightarrow> ('k, 'io, 'e, 'cd, 'w) H1Connector" where
  "H1Connector_new_with_timeout c d = \<lparr>h1c_inner = c, h1c_pool = None, read_timeout = Some d\<rparr>"

text \<open>A clone shares the pool: its strong reference is counted.\<close>

definition H1Connector_clone :: "('k, 'io, 'e, 'cd, 'w) H1Connector \<Rightarrow> ('k, 'cd Http1Connection, 'w) world
    \<Rightarrow> ('k, 'io, 'e, 'cd, 'w) H1Connector \<times> ('k, 'cd Http1Connection, 'w) world" where
  "H1Connector_clone self w =
     (case h1c_pool self of
        None \<Rightarrow> (self, w)
      | Some a \<Rightarrow> (case ConnectionPool_clone a (w_store w) of (b, s) \<Rightarrow> (self\<lparr>h1c_pool := Some b\<rparr>, w\<lparr>w_store := s\<rparr>)))"

text \<open>The mutable references of \<open>pool()\<close> and \<open>read_timeout()\<close>: any new value of the field.\<close>

definition H1Connector_set_pool :: "pool_ref option \<Rightarrow> ('k, 'io, 'e, 'cd, 'w) H1Connector \<Rightarrow> ('k, 'io, 'e, 'cd, 'w) H1Connector" where
  "H1Connector_set_pool p self = self\<lparr>h1c_pool := p\<rparr>"

definition H1Connector_set_read_timeout :: "duration option \<Rightarrow> ('k, 'io, 'e, 'cd, 'w) H1Connector
    \<Rightarrow> ('k, 'io, 'e, 'cd, 'w) H1Connector" where
  "H1Connector_set_read_timeout d self = self\<lparr>read_timeout := d\<rparr>"

text \<open>With the feature \<open>time\<close>: the pool comes with an idle task that the runtime spawns.\<close>

definition with_default_pool :: "(duration \<Rightarrow> 'i) \<Rightarrow> ('k, 'io, 'e, 'cd, 'w) H1Connector \<Rightarrow> ('k, 'cd Http1Connection, 'w) world
    \<Rightarrow> (('k, 'io, 'e, 'cd, 'w) H1Connector \<times> 'i IdleTask option) \<times> ('k, 'cd Http1Connection, 'w) world" where
  "with_default_pool mk_interval self w =
     (case new_with_idle_interval mk_interval (Some (from_secs 60)) None (w_store w) of
        ((p, task), s) \<Rightarrow> ((self\<lparr>h1c_pool := Some p\<rparr>, task), w\<lparr>w_store := s\<rparr>))"

text \<open>The codec with and without a read timeout is library code, \<open>codec timeout io\<close>.\<close>

definition H1Connector_connect :: "(duration option \<Rightarrow> 'io \<Rightarrow> 'cd) \<Rightarrow> ('k, 'io, 'e, 'cd, 'w) H1Connector
    \<Rightarrow> 'k \<Rightarrow> ('k, 'cd Http1Connection, 'w) world
    \<Rightarrow> ((('k, 'cd Http1Connection) Pooled, 'e) result \<times> ('k, 'cd Http1Connection, 'w) world) option" where
  "H1Connector_connect codec self key w =
     (case (case h1c_pool self of
              None \<Rightarrow> Some (None, w)
            | Some a \<Rightarrow> map_option (\<lambda>(r, s). (r, w\<lparr>w_store := s\<rparr>)) (ConnectionPool_get (w_clock w) a key (w_store w))) of
        None \<Rightarrow> None
      | Some (Some c, w1) \<Rightarrow> Some (Ok c, w1)
      | Some (None, w1) \<Rightarrow>
          Some (io_bind (h1c_inner self key) (\<lambda>io.
            let http_conn = Http1Connection_new (codec (read_timeout self) io)
            in io_return (case h1c_pool self of
                 Some a \<Rightarrow> ConnectionPool_link a key http_conn
               | None \<Rightarrow> unpooled http_conn)) w1))"

section \<open>Properties\<close>

text \<open>
  Property C3. Single flight: however the calls of \<open>connect\<close> on one connector are interleaved,
  cancelled or fail, for each key at most one of them is in an HTTP/2 handshake, none is while a
  connection of the key is in the pool, and the pool never holds more than one connection per key.
\<close>

theorem http_single_flight:
  assumes "sem_law permits (Semaphore_new L) acq (release_permit L)" and "hc_reach L acq self s"
  shows "(handshakes (ts_task s i) key \<and> handshakes (ts_task s j) key \<longrightarrow> i = j)
    \<and> (handshakes (ts_task s i) key \<longrightarrow> queue_of (hw_h2 (ts_world s)) key = [])
    \<and> length (queue_of (hw_h2 (ts_world s)) key) \<le> 1"
proof -
  note inv = hc_inv_reach [OF assms]
  show ?thesis using handshake_unique [OF inv] hc_invD(3,4) [OF inv] by blast
qed

text \<open>A library for concrete runs: streams are numbers, an odd one has negotiated HTTP/2.\<close>

definition demo_lib :: "(unit, string, nat, nat, nat, unit, nat, unit, nat, unit, string) http_lib" where
  "demo_lib =
     \<lparr>transport_connect = (\<lambda>_ key w. (Ok (hw_env w), w\<lparr>hw_env := Suc (hw_env w)\<rparr>)),
      get_conn_metadata = (\<lambda>io. \<lparr>alpn = (if odd io then HTTP2 else NoAlpn)\<rparr>),
      ClientCodec_new = id,
      handshake = (\<lambda>_ io w. (Ok (io, ()), w)),
      spawn_task = (\<lambda>_ w. w),
      sender_error = (\<lambda>w t. if w < t then Some () else None),
      Semaphore_new = 1,
      acquire = (\<lambda>_ w. (Ok (), w)),
      release_permit = Suc\<rparr>"

definition demo_world :: "(string, nat, nat, nat, nat) http_world" where
  "demo_world = \<lparr>hw_h1 = rc_empty, hw_h2 = PoolInner_new None, hw_connecting = lt_new, hw_clock = 5, hw_env = 7\<rparr>"

definition demo_acq :: "nat \<Rightarrow> nat option" where
  "demo_acq s = (if s = 0 then None else Some (s - 1))"

lemma demo_law: "sem_law id (Semaphore_new demo_lib) demo_acq (release_permit demo_lib)"
  by (auto simp: sem_law_def demo_lib_def demo_acq_def)

text \<open>A run of one call up to its handshake, on a connector configured for HTTP/2.\<close>

definition demo_self :: "(unit, unit) HttpConnector" where
  "demo_self = \<lparr>connector = (), protocol = P_HTTP2, h1_pool = None, h2_builder = ()\<rparr>"

definition demo_sys :: "nat \<Rightarrow> (string, nat, nat, nat, nat, nat, string) hc_sys" where
  "demo_sys n =
     \<lparr>ts_world = demo_world\<lparr>hw_connecting := \<lparr>lt_map = [(''a'', 0)], lt_sems = [n]\<rparr>\<rparr>,
      ts_task = (\<lambda>_. NotRunning)(0 := if n = 0 then Handshaking ''a'' 3 0 else Locking ''a'' 3 0)\<rparr>"

lemma demo_reach_locking: "hc_reach demo_lib demo_acq demo_self (demo_sys 1)"
proof -
  let ?s0 = "\<lparr>ts_world = demo_world, ts_task = (\<lambda>_. NotRunning)\<rparr> :: (string, nat, nat, nat, nat, nat, string) hc_sys"
  let ?s1 = "ts_upd 0 (Transport ''a'') demo_world ?s0"
  let ?w = "demo_world\<lparr>hw_connecting := \<lparr>lt_map = [(''a'', 0)], lt_sems = [1]\<rparr>\<rparr>"
  have r0: "hc_reach demo_lib demo_acq demo_self ?s0"
    by (rule reachable.reach_init) (simp add: hc_start_def demo_world_def)
  have "try_pools (sender_error demo_lib) demo_self ''a'' demo_world = Some (None, demo_world)"
    by (simp add: try_pools_def try_h2_def try_get_def and_then_mut_def demo_self_def demo_world_def
        is_config_auto_def is_config_h1_def is_config_h2_def PoolInner_new_def)
  then have "hc_step demo_lib demo_acq demo_self ?s0 ?s1"
    by (intro hc_step.start_miss) simp_all
  with r0 have r1: "hc_reach demo_lib demo_acq demo_self ?s1" by (rule reachable.reach_step)
  have "take_lock (Semaphore_new demo_lib) ''a'' demo_world = (0, ?w)"
    by (simp add: take_lock_def get_lock_def demo_world_def lt_new_def demo_lib_def)
      (simp add: hm_new_def hm_insert_def)
  then have "hc_step demo_lib demo_acq demo_self ?s1 (ts_upd 0 (Locking ''a'' 3 0) ?w ?s1)"
    by (intro hc_step.transport_h2) (simp_all add: connect_to_h2_def is_config_h2_def demo_self_def)
  with r1 have "hc_reach demo_lib demo_acq demo_self (ts_upd 0 (Locking ''a'' 3 0) ?w ?s1)" by (rule reachable.reach_step)
  then show ?thesis by (simp add: demo_sys_def ts_upd_def)
qed

lemma demo_reach_handshaking: "hc_reach demo_lib demo_acq demo_self (demo_sys 0)"
proof -
  let ?s = "demo_sys 1"
  let ?t = "\<lparr>lt_map = [(''a'', 0)], lt_sems = [0]\<rparr> :: (string, nat) lock_table"
  have a: "lt_acquire demo_acq 0 (hw_connecting (ts_world ?s)) = Some ?t"
    by (simp add: lt_acquire_def demo_sys_def demo_acq_def)
  have m: "try_h2 (sender_error demo_lib) ''a'' ((ts_world ?s)\<lparr>hw_connecting := ?t\<rparr>) = (None, (ts_world ?s)\<lparr>hw_connecting := ?t\<rparr>)"
    by (simp add: try_h2_def try_get_def and_then_mut_def demo_sys_def demo_world_def PoolInner_new_def)
  have "hc_step demo_lib demo_acq demo_self ?s (ts_upd 0 (Handshaking ''a'' 3 0) ((ts_world ?s)\<lparr>hw_connecting := ?t\<rparr>) ?s)"
    by (rule hc_step.lock_miss [OF _ a m]) (simp add: demo_sys_def)
  from reachable.reach_step [OF demo_reach_locking this] show ?thesis
    by (simp add: demo_sys_def ts_upd_def demo_world_def)
qed

theorem http_single_flight_witness:
  "handshakes (ts_task (demo_sys 0) 0) ''a'' \<and> queue_of (hw_h2 (ts_world (demo_sys 0))) ''a'' = []"
  using http_single_flight [OF demo_law demo_reach_handshaking, of 0 "''a''" 0]
  by (simp add: handshakes_def demo_sys_def)

text \<open>
  Property C5. The lock of a key is never lost, whatever ends a call: a call that waits for it can
  take it as soon as no call is in the handshake of that key, and only then; handshakes of other
  keys do not matter.
\<close>

theorem http_lock_live:
  assumes "sem_law permits (Semaphore_new L) acq (release_permit L)" and "hc_reach L acq self s"
    and "ts_task s i = Locking key io a"
  shows "lt_acquire acq a (hw_connecting (ts_world s)) \<noteq> None
    \<longleftrightarrow> \<not> (\<exists>j. handshakes (ts_task s j) key)"
proof -
  have "waits_on (ts_task s i) key a" using assms(3) by simp
  from hc_locks.lock_live [OF assms(1) hc_invD(1) [OF hc_inv_reach [OF assms(1,2)]] this]
  show ?thesis by (simp add: handshakes_iff)
qed

theorem http_lock_live_witness:
  "lt_acquire demo_acq 0 (hw_connecting (ts_world (demo_sys 1))) \<noteq> None"
proof -
  have "ts_task (demo_sys 1) 0 = Locking ''a'' 3 0" by (simp add: demo_sys_def)
  from http_lock_live [OF demo_law demo_reach_locking this] show ?thesis
    by (auto simp: demo_sys_def handshakes_def)
qed

text \<open>
  An HTTP/2 connection is shared: once a handshake has put it into the pool of a
  connector that may use HTTP/2, every later \<open>connect\<close> with the key returns the same connection,
  without calling the transport, as long as the connection has no error; connections with an
  error in front of it are removed.
\<close>

lemma http_h2_shared:
  assumes "is_config_auto self \<or> is_config_h2 self"
    and "queue_of (hw_h2 w) key = []" and "finish_h2 (spawn_task L) key t task w = (c, w1)"
    and "hw_h2 w2 = hw_h2 w1" and "sender_error L (hw_env w2) t = None"
  shows "\<exists>p. HttpConnector_connect L self key w2 = Some (Ok c, w2\<lparr>hw_h2 := p\<rparr>) \<and> queue_of p key = queue_of (hw_h2 w1) key"
proof -
  have c: "c = Http2 (Http2Connection_new t)"
    and w1: "hw_h2 w1 = pool_put (hw_clock w) key (Http2Connection_new t) (hw_h2 w)"
    using assms(3) by (auto simp: finish_h2_def)
  let ?i = "Idle_new (hw_clock w) (Http2Connection_new t)"
  have q: "queue_of (hw_h2 w2) key = [?i]"
    using assms(2) by (simp add: assms(4) w1 put_queue)
  have ok: "healthy (sender_error L) (hw_env w2) ?i"
    using assms(5) by (simp add: healthy_def Idle_new_def Http2Connection_new_def)
  obtain r p where tg: "try_get (sender_error L) (hw_env w2) key (hw_h2 w2) = (r, p)"
    by (cases "try_get (sender_error L) (hw_env w2) key (hw_h2 w2)")
  have "r = Some (Http2Connection_new t)" "queue_of p key = [?i]"
    using try_get_eq [of "sender_error L" "hw_env w2" key "hw_h2 w2"] tg q ok by (simp_all add: Idle_new_def)
  then show ?thesis
    using assms(1,4) tg q by (auto simp: HttpConnector_connect_def try_pools_def try_h2_def c)
qed

text \<open>
  Property C7. The protocol of a new connection: when no pool serves the key, the answer of \<open>connect\<close>
  is the error of the transport if that fails; otherwise a connection it returns is an HTTP/2 one
  exactly if HTTP/2 is configured or the transport negotiated it, whatever else is configured, and
  an HTTP/1.1 connection is returned without any further await, linked to the pool of the connector.
\<close>

theorem http_protocol_choice:
  assumes "try_pools (sender_error L) self key w = Some (None, w1)"
    and "transport_connect L (connector self) key w1 = (r, w2)"
  shows "\<exists>r' w3. HttpConnector_connect L self key w = Some (r', w3)
    \<and> (case r of
         Inl e \<Rightarrow> r' = Err e \<and> w3 = w2
       | Inr io \<Rightarrow>
           if is_config_h2 self \<or> alpn (get_conn_metadata L io) = HTTP2
           then (\<forall>c. r' = Ok c \<longrightarrow> (\<exists>h2. c = Http2 h2))
           else (\<exists>h. r' = Ok (Http1 h) \<and> p_value h = Some (Http1Connection_new (ClientCodec_new L io))
                  \<and> p_pool h = h1_pool self \<and> w3 = w2))"
proof (cases r)
  case (Inl e)
  with assms show ?thesis by (simp add: HttpConnector_connect_def io_bind_def)
next
  case (Inr io)
  obtain r' w3 where res: "after_transport L self key io w2 = (r', w3)" by (cases "after_transport L self key io w2")
  have h2: "is_alpn_h2 m \<longleftrightarrow> alpn m = HTTP2" for m by (cases "alpn m") (simp_all add: is_alpn_h2_def)
  have "HttpConnector_connect L self key w = Some (r', w3)"
    using assms Inr res by (simp add: HttpConnector_connect_def io_bind_def)
  moreover have "\<exists>h2. c = Http2 h2" if "connect_to_h2 self (get_conn_metadata L io)" "r' = Ok c" for c
    using that res by (auto simp: after_transport_def connect_locked_def finish_h2_def io_bind_def
        split: prod.splits sum.splits option.splits)
  moreover have "\<exists>h. r' = Ok (Http1 h) \<and> p_value h = Some (Http1Connection_new (ClientCodec_new L io))
      \<and> p_pool h = h1_pool self \<and> w3 = w2" if "\<not> connect_to_h2 self (get_conn_metadata L io)"
    using that res by (auto simp: after_transport_def finish_h1_def ConnectionPool_link_def Pooled_new_def
        unpooled_def Let_def split: option.splits)
  ultimately show ?thesis using Inr by (auto simp: connect_to_h2_def h2)
qed

theorem http_protocol_choice_witness:
  "\<exists>r' w3. HttpConnector_connect demo_lib (set_http1_only demo_self) ''a'' demo_world = Some (r', w3)
     \<and> (\<forall>c. r' = Ok c \<longrightarrow> (\<exists>h2. c = Http2 h2))"
proof -
  let ?self = "set_http1_only demo_self"
  have p: "try_pools (sender_error demo_lib) ?self ''a'' demo_world = Some (None, demo_world)"
    by (simp add: try_pools_def try_h1_def demo_self_def set_http1_only_def
        is_config_auto_def is_config_h1_def is_config_h2_def)
  have t: "transport_connect demo_lib (connector ?self) ''a'' demo_world = (Ok 7, demo_world\<lparr>hw_env := 8\<rparr>)"
    by (simp add: demo_lib_def demo_world_def)
  from http_protocol_choice [OF p t] show ?thesis by (simp add: demo_lib_def)
qed

text \<open>
  Property C37. The TLS builders: with a TLS library that negotiates only what was advertised,
  a connector from \<open>build_tls_http1_only\<close> never starts HTTP/2, and one from \<open>build_tls_http2_only\<close>
  starts HTTP/2 exactly on the connections on which a protocol was negotiated; on one without it
  falls back to HTTP/1.1.
\<close>

theorem tls_builders_protocol:
  assumes "alpn_protocol s = None \<or>
      (\<exists>p \<in> set (alpn_protocols (tls_connector (connector (fst (build_tls_http1_only tls c b w))))). alpn_protocol s = Some p)"
    and "alpn_protocol s' = None \<or>
      (\<exists>p \<in> set (alpn_protocols (tls_connector (connector (fst (build_tls_http2_only tls c b w))))). alpn_protocol s' = Some p)"
  shows "\<not> connect_to_h2 (fst (build_tls_http1_only tls c b w)) (TlsStream_get_conn_metadata alpn_protocol s)
    \<and> (connect_to_h2 (fst (build_tls_http2_only tls c b w)) (TlsStream_get_conn_metadata alpn_protocol s')
        \<longleftrightarrow> alpn_protocol s' \<noteq> None)"
proof -
  have proto: "protocol (fst (http_build b x P_Auto w)) = P_Auto" "connector (fst (http_build b x P_Auto w)) = x" for x
    by (simp_all add: http_build_def split: prod.splits)
  have h2: "connect_to_h2 (fst (http_build b x P_Auto w)) (TlsStream_get_conn_metadata alpn_protocol q)
      \<longleftrightarrow> alpn_protocol q = Some (as_bytes ''h2'')" for x q
    by (simp add: connect_to_h2_def is_config_h2_def proto TlsStream_get_conn_metadata_def is_alpn_h2_set)
  show ?thesis
    using assms
    by (auto simp: build_tls_http1_only_def build_tls_http2_only_def h2 proto new_with_tls_default_def
        TlsConnector_new_def as_bytes_inj)
qed

theorem tls_builders_protocol_witness:
  "\<not> connect_to_h2 (fst (build_tls_http1_only \<lparr>alpn_protocols = [], cfg_rest = ()\<rparr> () () demo_world))
       (TlsStream_get_conn_metadata id (Some (as_bytes ''http/1.1'')))"
  using tls_builders_protocol [of id "Some (as_bytes ''http/1.1'')" "\<lparr>alpn_protocols = [], cfg_rest = ()\<rparr>" "()" "()"
      demo_world None]
  by (simp add: build_tls_http1_only_def http_build_def new_with_tls_default_def TlsConnector_new_def
      split: prod.splits)

text \<open>
  \<open>H1Connector\<close> with a pool is the \<open>PooledConnector\<close> over its transport followed by the
  codec; without a pool it never looks for an idle connection and its connections are not
  returned to any pool.
\<close>

lemma h1_connector_pooled:
  "H1Connector_connect codec self key w =
     (case h1c_pool self of
        Some a \<Rightarrow>
          PooledConnector_connect
            \<lparr>transport_connector = (\<lambda>k. io_map (\<lambda>io. Http1Connection_new (codec (read_timeout self) io)) (h1c_inner self k)),
             pc_pool = a\<rparr> key w
      | None \<Rightarrow>
          Some (io_map (\<lambda>io. unpooled (Http1Connection_new (codec (read_timeout self) io))) (h1c_inner self key) w))"
  by (auto simp: H1Connector_connect_def PooledConnector_connect_def io_defs split: option.splits prod.splits sum.splits)

end
