(* ===== verification/H1_Client.thy ===== *)
theory H1_Client
  imports Http_Connector
begin

text \<open>
  \<open>H1Connector::with_default_pool\<close> together with the idle task it starts: how long a connection that
  is not in use stays available.
\<close>

section \<open>The connector and its idle task\<close>

lemma default_pool_built:
  assumes "with_default_pool mk_interval self w0 = ((self', task), w)"
  obtains a where "self' = self\<lparr>h1c_pool := Some a\<rparr>" "rc_read a (w_store w) = Some (new_with_dropper None)"
    "rc_inv (w_store w0) \<Longrightarrow> rc_inv (w_store w)"
    "task = Some \<lparr>t_conns = a, t_interval = mk_interval (from_secs 60), t_idle_dur = from_secs 60\<rparr>"
proof -
  let ?n = "rc_new (new_with_dropper None) (w_store w0)"
  have "max (from_secs 60) MIN_INTERVAL = from_secs 60" by (simp add: MIN_INTERVAL_def from_secs_def)
  then have "self' = self\<lparr>h1c_pool := Some (fst ?n)\<rparr>" "w = w0\<lparr>w_store := snd ?n\<rparr>"
    "task = Some \<lparr>t_conns = fst ?n, t_interval = mk_interval (from_secs 60), t_idle_dur = from_secs 60\<rparr>"
    using assms by (auto simp: with_default_pool_def new_with_idle_interval_def split: prod.splits)
  then show thesis using that [of "fst ?n"] by (simp add: rc.read_alloc rc.invar_alloc)
qed

text \<open>One poll of the task on a pool with one connection, once a tick is due.\<close>

lemma idle_poll_one:
  assumes "timer_law deadline tick" and "closed_law (t_conns task) closed" and "rc_inv s"
    and "rc_read (t_conns task) s = Some p" and "pool_wf p" and "queue_of p key = [i]" and "tick now (t_interval task) \<noteq> None"
  obtains task' s' p' where "idle_task_poll closed tick now task s = Some (Pending, task', s')"
    "rc_read (t_conns task) s' = Some p'" "pool_wf p'"
    "queue_of p' key = (if now - idle_at i \<le> t_idle_dur task then [i] else [])"
proof -
  obtain task' s' p' where res: "idle_task_poll closed tick now task s = Some (Pending, task', s')"
    and p': "rc_read (t_conns task) s' = Some p'" and "swept now (t_idle_dur task) p p'"
    using idle_poll_alive [OF assms(1-4), of now] assms(7) by auto
  then have "pool_wf p'" "queue_of p' key = filter (\<lambda>i. \<not> expired now (t_idle_dur task) i) (queue_of p key)"
    using clear_repeat_queue [OF assms(5)] unfolding swept_def by blast+
  then show thesis using that [OF res p'] assms(6) by (auto simp: expired_def elapsed_def)
qed

section \<open>Properties\<close>

text \<open>
  Property C33. Idle connections of \<open>H1Connector\<close> with the default pool live for 60 seconds: when an open
  connection is given back at \<open>t0\<close> and the idle task is polled with a tick due at \<open>now\<close>, the task
  stays pending and the next \<open>connect\<close> with the key returns that connection if it was idle for at most
  60 seconds; if longer, it dials, its answer being that of the transport with a new connection of
  the same pool.
\<close>

theorem default_pool_idle_limit:
  assumes "with_default_pool mk_interval self w0 = ((self', Some task), w)" and "rc_inv (w_store w0)"
    and "timer_law deadline tick" and "closed_law (t_conns task) closed" and "tick now (t_interval task) \<noteq> None"
    and "Http1Connection_is_open c"
    and "Pooled_drop Http1Connection_is_open t0 (Pooled_new key c r (t_conns task)) (w_store w) = Ok s"
  shows "\<exists>task' s'. idle_task_poll closed tick now task s = Some (Pending, task', s')
    \<and> (let w' = w\<lparr>w_store := s', w_clock := now\<rparr>; a = t_conns task in
       if now - t0 \<le> from_secs 60
       then \<exists>s''. H1Connector_connect codec self' key w' = Some (Ok (Pooled_new key c True a), w'\<lparr>w_store := s''\<rparr>)
       else H1Connector_connect codec self' key w' =
         Some (io_map (\<lambda>io. Pooled_new key (Http1Connection_new (codec (read_timeout self) io)) False a) (h1c_inner self key) w'))"
proof -
  obtain a where self: "self' = self\<lparr>h1c_pool := Some a\<rparr>" and r: "rc_read a (w_store w) = Some (new_with_dropper None)"
    and inv: "rc_inv (w_store w)"
    and task: "task = \<lparr>t_conns = a, t_interval = mk_interval (from_secs 60), t_idle_dur = from_secs 60\<rparr>"
    using default_pool_built [OF assms(1)] assms(2) by blast
  have ta: "t_conns task = a" "t_idle_dur task = from_secs 60" using task by simp_all
  let ?p = "pool_release t0 key c (new_with_dropper None)"
  note d = drop_live_read [OF inv assms(6) r assms(7) [unfolded ta(1)]]
  have p: "rc_read (t_conns task) s = Some ?p" using d(1) [of a] ta(1) by simp
  have wf: "pool_wf ?p" by (simp add: pool_wf_ops)
  have q: "queue_of ?p key = [Idle_new t0 c]" by (simp add: release_set_queue last_n_all)
  obtain task' s' p' where poll: "idle_task_poll closed tick now task s = Some (Pending, task', s')"
    and p': "rc_read (t_conns task) s' = Some p'" "pool_wf p'"
      "queue_of p' key = (if now - t0 \<le> from_secs 60 then [Idle_new t0 c] else [])"
    using idle_poll_one [OF assms(3,4) d(3) p wf q assms(5)] ta(2) by (auto simp: Idle_new_def)
  let ?w = "w\<lparr>w_store := s', w_clock := now\<rparr>"
  have alive: "rc_read a (w_store ?w) = Some p'" using p'(1) ta(1) by simp
  have "H1Connector_connect codec self' key ?w = (if now - t0 \<le> from_secs 60
      then Some (Ok (Pooled_new key c True a), ?w\<lparr>w_store := rc_write a (set_queue key [] p') s'\<rparr>)
      else Some (io_map (\<lambda>io. Pooled_new key (Http1Connection_new (codec (read_timeout self) io)) False a) (h1c_inner self key) ?w))"
    using alive p'(2,3)
    by (auto simp: h1_connector_pooled self pooled_connect_hit pooled_connect_miss Idle_new_def io_defs
        split: prod.splits sum.splits)
  with poll ta(1) show ?thesis by (auto simp: Let_def)
qed

text \<open>A timer whose state is its next deadline, and a transport that numbers its connections.\<close>

definition demo_tick :: "instant \<Rightarrow> nat \<Rightarrow> nat option" where
  "demo_tick now t = (if t \<le> now then Some (t + from_secs 60) else None)"

lemma demo_tick_law: "timer_law (\<lambda>t. t) demo_tick"
  by (simp add: timer_law_def demo_tick_def from_secs_def)

definition demo_h1_self :: "(string, nat, string, nat, nat) H1Connector" where
  "demo_h1_self = H1Connector_new (\<lambda>_ w. (Ok (w_env w), w))"

definition demo_h1_world :: "(string, nat Http1Connection, nat) world" where
  "demo_h1_world = \<lparr>w_store = rc_empty, w_clock = 0, w_env = 9\<rparr>"

theorem default_pool_idle_limit_witness:
  "let b = with_default_pool id demo_h1_self demo_h1_world; self = fst (fst b); w = snd b;
       task = \<lparr>t_conns = 0, t_interval = from_secs 60, t_idle_dur = from_secs 60\<rparr>;
       s = rc_drop 0 (rc_modify 0 (pool_release 5 ''a'' (Http1Connection_new 3)) (rc_clone 0 (w_store w)))
   in \<exists>task' s'. idle_task_poll (\<lambda>s. rc_read 0 s = None) demo_tick (from_secs 100) task s = Some (Pending, task', s')
     \<and> (\<exists>w'. H1Connector_connect (\<lambda>_ io. io) self ''a'' (w\<lparr>w_store := s', w_clock := from_secs 100\<rparr>)
          = Some (Ok (Pooled_new ''a'' (Http1Connection_new 9) False 0), w'))"
proof -
  let ?b = "with_default_pool id demo_h1_self demo_h1_world"
  let ?task = "\<lparr>t_conns = 0, t_interval = from_secs 60, t_idle_dur = from_secs 60\<rparr>"
  let ?c = "Http1Connection_new (3 :: nat)"
  let ?s = "rc_drop 0 (rc_modify 0 (pool_release 5 ''a'' ?c) (rc_clone 0 (w_store (snd ?b))))"
  have b: "?b = ((fst (fst ?b), Some ?task), snd ?b)" and r: "rc_read 0 (w_store (snd ?b)) = Some (new_with_dropper None)"
    by (simp_all add: with_default_pool_def new_with_idle_interval_def demo_h1_world_def rc_new_def rc_empty_def
        rc_read_def MIN_INTERVAL_def from_secs_def)
  have inv: "rc_inv (w_store demo_h1_world)" by (simp add: demo_h1_world_def)
  have cl: "closed_law (t_conns ?task) (\<lambda>s :: (string, nat Http1Connection) pool_store. rc_read 0 s = None)"
    by (simp add: closed_law_def)
  have tk: "demo_tick (from_secs 100) (t_interval ?task) \<noteq> None" by (simp add: demo_tick_def from_secs_def)
  have op: "Http1Connection_is_open ?c" by (simp add: Http1Connection_is_open_def Http1Connection_new_def)
  have dr: "Pooled_drop Http1Connection_is_open 5 (Pooled_new ''a'' ?c False (t_conns ?task)) (w_store (snd ?b)) = Ok ?s"
    using drop_live [where is_open = Http1Connection_is_open, OF op r] by simp
  have late: "\<not> from_secs 100 - 5 \<le> from_secs 60" by (simp add: from_secs_def)
  have env: "w_env (snd ?b) = 9" by (simp add: with_default_pool_def demo_h1_world_def split: prod.splits)
  from default_pool_idle_limit [OF b inv demo_tick_law cl tk op dr, of "\<lambda>_ io. io"] late env
  show ?thesis by (auto simp: Let_def demo_h1_self_def H1Connector_new_def io_defs)
qed

end
