(* ===== verification/Http_Client.thy ===== *)
theory Http_Client
  imports Http_Connector
begin

text \<open>
  The parts of the HTTP client together, as a program uses them: take a connection from an
  \<open>HttpConnector\<close>, send a request on it, drop it, and do the same again. A session is a list of such
  exchanges with one key. The theory shows that a single call of \<open>connect\<close> is a run of the
  interleaving semantics, and that sequential exchanges over HTTP/1.1 share one transport
  connection.
\<close>

section \<open>Exchanges\<close>

text \<open>Dropping a connection: the destructor of the handle inside, if it has one.\<close>

definition drop_connection :: "('k, 'cd, 'tx) HttpConnection \<Rightarrow> ('k, 'cd, 'tx, 's, 'w) http_world
    \<Rightarrow> ('k, 'cd, 'tx, 's, 'w) http_world option" where
  "drop_connection c w =
     (case c of
        Http1 h \<Rightarrow>
          (case Pooled_drop Http1Connection_is_open (hw_clock w) h (hw_h1 w) of
             Inl _ \<Rightarrow> None
           | Inr s \<Rightarrow> Some (w\<lparr>hw_h1 := s\<rparr>))
      | Http2 _ \<Rightarrow> Some w)"

definition is_reused :: "('k, 'cd, 'tx) HttpConnection \<Rightarrow> bool" where
  "is_reused c = (case c of Http1 h \<Rightarrow> Pooled_is_reused h | Http2 _ \<Rightarrow> False)"

text \<open>
  One exchange: the error of \<open>connect\<close>, or whether the connection had been used before and what the
  request returned. There is no value when the request does not return or something panics.
\<close>

definition http_exchange :: "('c, 'k, 'io, 'cd, 'tx, 'bg, 's, 'b, 'w, 'he, 'te) http_lib
    \<Rightarrow> ('cd, 'hd \<times> 'body, 'p, 'd, 'x, 'e) h1_codec \<Rightarrow> ('w, 'tx, 'hd, 'rf, 'st, 'x, 'p, 'rb, 'e) h2_client
    \<Rightarrow> ('body, 'x, 'e) source \<Rightarrow> ('c, 'b) HttpConnector \<Rightarrow> 'k \<Rightarrow> 'hd \<times> 'body \<Rightarrow> ('k, 'cd, 'tx, 's, 'w) http_world
    \<Rightarrow> ((bool \<times> (('p, ('x, 'e, 'rb) HttpBody) Response, 'e) result, 'te) result \<times> ('k, 'cd, 'tx, 's, 'w) http_world) option" where
  "http_exchange L C1 C2 nxt self key req w =
     (case HttpConnector_connect L self key w of
        None \<Rightarrow> None
      | Some (Inl e, w1) \<Rightarrow> Some (Err e, w1)
      | Some (Inr c, w1) \<Rightarrow>
          (case HttpConnection_send_request C1 C2 nxt c req (hw_env w1) of
             Some (Inr ((res, _), c', env)) \<Rightarrow>
               map_option (\<lambda>w2. (Ok (is_reused c, res), w2)) (drop_connection c' (w1\<lparr>hw_env := env\<rparr>))
           | _ \<Rightarrow> None))"

fun http_session :: "('c, 'k, 'io, 'cd, 'tx, 'bg, 's, 'b, 'w, 'he, 'te) http_lib
    \<Rightarrow> ('cd, 'hd \<times> 'body, 'p, 'd, 'x, 'e) h1_codec \<Rightarrow> ('w, 'tx, 'hd, 'rf, 'st, 'x, 'p, 'rb, 'e) h2_client
    \<Rightarrow> ('body, 'x, 'e) source \<Rightarrow> ('c, 'b) HttpConnector \<Rightarrow> 'k \<Rightarrow> ('hd \<times> 'body) list \<Rightarrow> ('k, 'cd, 'tx, 's, 'w) http_world
    \<Rightarrow> ((bool \<times> (('p, ('x, 'e, 'rb) HttpBody) Response, 'e) result, 'te) result list \<times> ('k, 'cd, 'tx, 's, 'w) http_world) option" where
  "http_session L C1 C2 nxt self key [] w = Some ([], w)"
| "http_session L C1 C2 nxt self key (req # reqs) w =
     Option.bind (http_exchange L C1 C2 nxt self key req w) (\<lambda>(r, w1).
     Option.bind (http_session L C1 C2 nxt self key reqs w1) (\<lambda>(rs, w2). Some (r # rs, w2)))"

section \<open>Keep-alive\<close>

text \<open>The HTTP/1.1 pool at address \<open>a\<close> holds the connections \<open>cs\<close> for the key, the HTTP/2 pool nothing.\<close>

definition holds :: "pool_ref \<Rightarrow> 'k \<Rightarrow> 'cd Http1Connection list \<Rightarrow> ('k, 'cd, 'tx, 's, 'w) http_world \<Rightarrow> bool" where
  "holds a key cs w \<longleftrightarrow>
     rc_inv (hw_h1 w) \<and> queue_of (hw_h2 w) key = [] \<and>
     (\<exists>p. rc_read a (hw_h1 w) = Some p \<and> pool_wf p \<and> pool_abs p key = cs)"

lemma holds_env [simp]: "holds a key cs (w\<lparr>hw_env := e\<rparr>) = holds a key cs w"
  by (simp add: holds_def)

lemma try_h2_empty:
  assumes "queue_of (hw_h2 w) key = []"
  obtains p where "try_h2 err key w = (None, w\<lparr>hw_h2 := p\<rparr>)" "queue_of p key = []"
  using assms try_get_eq [of err "hw_env w" key "hw_h2 w"]
  by (cases "try_get err (hw_env w) key (hw_h2 w)") (auto simp: try_h2_def)

text \<open>The pools are searched: the oldest entry of the queue is the answer, and leaves it.\<close>

lemma try_pools_holds:
  assumes "h1_pool self = Some a" "\<not> is_config_h2 self" "holds a key cs w"
  obtains w1 where "try_pools err self key w = Some (map_option (\<lambda>c. Http1 (Pooled_new key c True a)) (front cs), w1)"
    "holds a key (tl cs) w1" "hw_env w1 = hw_env w" "hw_clock w1 = hw_clock w"
proof -
  obtain p where p: "rc_read a (hw_h1 w) = Some p" "pool_wf p" "pool_abs p key = cs" and h2: "queue_of (hw_h2 w) key = []"
    and inv: "rc_inv (hw_h1 w)" using assms(3) by (auto simp: holds_def)
  obtain p2 where e: "(if is_config_auto self \<or> is_config_h2 self then try_h2 err key w else (None, w)) = (None, w\<lparr>hw_h2 := p2\<rparr>)"
    "queue_of p2 key = []"
  proof (rule try_h2_empty [OF h2, of err])
    fix p2 assume "try_h2 err key w = (None, w\<lparr>hw_h2 := p2\<rparr>)" "queue_of p2 key = []"
    then show thesis
      using that [of p2] that [of "hw_h2 w"] h2 by (cases "is_config_auto self \<or> is_config_h2 self") auto
  qed
  have h1: "is_config_auto self \<or> is_config_h1 self"
    using assms(2) by (cases "protocol self") (simp_all add: is_config_auto_def is_config_h1_def is_config_h2_def)
  obtain r p' where g: "pool_get (hw_clock w) key p = (r, p')" by (cases "pool_get (hw_clock w) key p")
  have r: "r = front cs" "pool_wf p'" "pool_abs p' key = tl cs"
    using pool.fetch_result [OF p(2), of "hw_clock w" key] pool.fetch_queue [OF p(2), of "hw_clock w" key key]
      pool_wf_ops(1) [OF p(2), of "hw_clock w" key] g p(3) by simp_all
  let ?w = "w\<lparr>hw_h2 := p2, hw_h1 := rc_write a p' (hw_h1 w)\<rparr>"
  have get: "ConnectionPool_get (hw_clock w) a key (hw_h1 w)
      = Some (map_option (\<lambda>c. Pooled_new key c True a) (front cs), rc_write a p' (hw_h1 w))"
    using p(1) g r(1) by (simp add: ConnectionPool_get_def)
  have "try_pools err self key w = Some (map_option (\<lambda>c. Http1 (Pooled_new key c True a)) (front cs), ?w)"
    unfolding try_pools_def e(1) using h1 by (simp add: try_h1_def assms(1) get option.map_comp comp_def)
  moreover have "holds a key (tl cs) ?w"
    using r p(1) e(2) inv by (simp add: holds_def rc.read_write rc_inv_write)
  ultimately show thesis using that by simp
qed

text \<open>An open connection that is dropped is the youngest entry; one that is not open is gone.\<close>

lemma drop_holds:
  assumes "holds a key [] w" "Http1Connection_is_open c"
  obtains w1 where "drop_connection (Http1 (Pooled_new key c r a)) w = Some w1" "holds a key [c] w1"
proof -
  obtain p where p: "rc_read a (hw_h1 w) = Some p" "pool_wf p" "pool_abs p key = []" and h2: "queue_of (hw_h2 w) key = []"
    and inv: "rc_inv (hw_h1 w)" using assms(1) by (auto simp: holds_def)
  obtain s where s: "Pooled_drop Http1Connection_is_open (hw_clock w) (Pooled_new key c r a) (hw_h1 w) = Ok s"
    using drop_live [where is_open = Http1Connection_is_open, OF assms(2) p(1)] by blast
  note f = drop_live_read [OF inv assms(2) p(1) s]
  have "holds a key [c] (w\<lparr>hw_h1 := s\<rparr>)"
    using f(1) [of a] f(3) h2 p(2,3) by (simp add: holds_def pool.give_queue last_n_all)
  then show thesis using that s by (simp add: drop_connection_def)
qed

text \<open>A codec whose peer answers every request on an open connection.\<close>

definition answers :: "('cd, 'req, 'p, 'd, 'x, 'e) h1_codec \<Rightarrow> bool" where
  "answers C \<longleftrightarrow>
     (\<forall>c req. Http1Connection_is_open c \<longrightarrow> (\<exists>p c'. Http1Connection_send_request C c req = Some ((Ok p, False), c')))"

lemma answered_open:
  assumes "answers C" "Http1Connection_is_open c"
  obtains p c' where "Http1Connection_send_request C c req = Some ((Ok p, False), c')" "Http1Connection_is_open c'"
proof -
  obtain p c' where s: "Http1Connection_send_request C c req = Some ((Ok p, False), c')"
    using assms unfolding answers_def by blast
  moreover have "Http1Connection_is_open c'"
    using h1_send_request_frame(2,3) [OF s] assms(2) by (simp add: Http1Connection_is_open_def is_ok_def)
  ultimately show thesis using that by blast
qed

lemma is_reused_Http1 [simp]: "is_reused (Http1 (Pooled_new key c r a)) = r"
  by (simp add: is_reused_def Pooled_is_reused_def Pooled_new_def)

text \<open>
  An exchange on a connection that \<open>connect\<close> returned linked to the pool: the request is answered
  and the connection goes back into the pool.
\<close>

lemma exchange_linked:
  assumes connect: "HttpConnector_connect L self key w = Some (Ok (Http1 (Pooled_new key c r a)), w1)"
    and c: "Http1Connection_is_open c" and w1: "holds a key [] w1" and C: "answers C1"
  obtains p c' w2 where "http_exchange L C1 C2 nxt self key req w = Some (Ok (r, Ok p), w2)"
    "holds a key [c'] w2" "Http1Connection_is_open c'"
proof -
  obtain p c' where s: "Http1Connection_send_request C1 c req = Some ((Ok p, False), c')" and op: "Http1Connection_is_open c'"
    using answered_open [OF C c] by blast
  obtain w2 where w2: "drop_connection (Http1 (Pooled_new key c' r a)) w1 = Some w2" "holds a key [c'] w2"
    using drop_holds [OF w1 op] by blast
  have send: "HttpConnection_send_request C1 C2 nxt (Http1 (Pooled_new key c r a)) req (hw_env w1)
      = Some (Ok ((Ok (to_body H1Body p), False), Http1 (Pooled_new key c' r a), hw_env w1))"
    using s by (simp add: HttpConnection_send_request_def Pooled_new_def)
  have "http_exchange L C1 C2 nxt self key req w = Some (Ok (r, Ok (to_body H1Body p)), w2)"
    using w2(1) by (simp add: http_exchange_def connect send)
  then show thesis using that w2(2) op by blast
qed

text \<open>A pool with one open connection serves a session, and \<open>connect\<close> is decided by the pools.\<close>

lemma connect_idle:
  assumes "h1_pool self = Some a" "\<not> is_config_h2 self" "holds a key [c] w"
  obtains w1 where "\<And>t. HttpConnector_connect (L\<lparr>transport_connect := t\<rparr>) self key w
      = Some (Ok (Http1 (Pooled_new key c True a)), w1)" "holds a key [] w1"
proof -
  obtain w1 where "try_pools (sender_error L) self key w = Some (Some (Http1 (Pooled_new key c True a)), w1)"
    "holds a key [] w1"
    using try_pools_holds [OF assms, of "sender_error L"] by auto
  then show thesis using that by (simp add: HttpConnector_connect_def)
qed

lemma session_reuses:
  assumes self: "h1_pool self = Some a" "\<not> is_config_h2 self" and C: "answers C1"
  shows "holds a key [c] w \<Longrightarrow> Http1Connection_is_open c \<Longrightarrow>
    \<exists>ps w'. (\<forall>t. http_session (L\<lparr>transport_connect := t\<rparr>) C1 C2 nxt self key reqs w = Some (map (\<lambda>p. Ok (True, Ok p)) ps, w'))
      \<and> length ps = length reqs"
proof (induction reqs arbitrary: c w)
  case Nil
  show ?case by simp
next
  case (Cons req reqs)
  obtain w1 where con: "\<And>t. HttpConnector_connect (L\<lparr>transport_connect := t\<rparr>) self key w
      = Some (Ok (Http1 (Pooled_new key c True a)), w1)" and w1: "holds a key [] w1"
    using connect_idle [OF self Cons.prems(1)] by blast
  have same: "http_exchange (L\<lparr>transport_connect := t\<rparr>) C1 C2 nxt self key req w
      = http_exchange (L\<lparr>transport_connect := t'\<rparr>) C1 C2 nxt self key req w" for t t'
    by (simp add: http_exchange_def con)
  obtain p c' w2 where x: "http_exchange (L\<lparr>transport_connect := t0\<rparr>) C1 C2 nxt self key req w = Some (Ok (True, Ok p), w2)"
    and w2: "holds a key [c'] w2" "Http1Connection_is_open c'" for t0
    using exchange_linked [OF con Cons.prems(2) w1 C] same by metis
  obtain ps w' where "\<forall>t. http_session (L\<lparr>transport_connect := t\<rparr>) C1 C2 nxt self key reqs w2
      = Some (map (\<lambda>p. Ok (True, Ok p)) ps, w')" "length ps = length reqs"
    using Cons.IH [OF w2] by blast
  then show ?case
    using x by (intro exI [of _ "p # ps"] exI [of _ w']) simp
qed

text \<open>A new connector has an empty pool of its own.\<close>

lemma new_connector_holds:
  assumes build: "HttpConnector_new b c w0 = (self, w)" and inv: "rc_inv (hw_h1 w0)"
  obtains a where "h1_pool self = Some a" "connector self = c" "\<not> is_config_h2 self" "holds a key [] w"
proof -
  let ?n = "rc_new (PoolInner_new None) (hw_h1 w0)"
  have self: "self = \<lparr>connector = c, protocol = P_Auto, h1_pool = Some (fst ?n), h2_builder = b\<rparr>"
    and w: "w = w0\<lparr>hw_h1 := snd ?n, hw_h2 := PoolInner_new None, hw_connecting := lt_new\<rparr>"
    using build by (auto simp: HttpConnector_new_def http_build_def ConnectionPool_default_def ConnectionPool_new_def
        split: prod.splits)
  have "holds (fst ?n) key [] w"
    using rc.invar_alloc [OF inv] by (simp add: holds_def w rc.read_alloc)
  then show thesis using that [of "fst ?n"] by (simp add: self is_config_h2_def)
qed

section \<open>A call as a run of the interleaving\<close>

text \<open>
  The library for a call that runs undisturbed: the transport and the handshake leave the HTTP/2 pool
  and the table of locks alone, and acquiring the lock is the attempt \<open>acq\<close> or an error.
\<close>

definition undisturbed :: "('c, 'k, 'io, 'cd, 'tx, 'bg, 's, 'b, 'w, 'he, 'te) http_lib \<Rightarrow> ('s \<Rightarrow> 's option) \<Rightarrow> bool" where
  "undisturbed L acq \<longleftrightarrow>
     (\<forall>c key w. hw_h2 (snd (transport_connect L c key w)) = hw_h2 w
        \<and> hw_connecting (snd (transport_connect L c key w)) = hw_connecting w) \<and>
     (\<forall>b io w. hw_h2 (snd (handshake L b io w)) = hw_h2 w
        \<and> hw_connecting (snd (handshake L b io w)) = hw_connecting w) \<and>
     (\<forall>a w. (\<exists>e. acquire L a w = (Err e, w)) \<or>
        (\<exists>t. lt_acquire acq a (hw_connecting w) = Some t \<and> acquire L a w = (Ok (), w\<lparr>hw_connecting := t\<rparr>)))"

lemma undisturbedD:
  assumes "undisturbed L acq"
  shows "transport_connect L c key w = (r, w') \<Longrightarrow> hw_h2 w' = hw_h2 w"
    and "transport_connect L c key w = (r, w') \<Longrightarrow> hw_connecting w' = hw_connecting w"
    and "handshake L b io w = (x, w') \<Longrightarrow> hw_h2 w' = hw_h2 w"
    and "handshake L b io w = (x, w') \<Longrightarrow> hw_connecting w' = hw_connecting w"
  using assms unfolding undisturbed_def by (metis snd_conv)+

text \<open>What an await changes outside the pools and the locks is a step of its own.\<close>

lemma await_step:
  assumes "hw_h2 w' = hw_h2 w" "hw_connecting w' = hw_connecting w"
  shows "hc_step L acq self (ts_upd i pc w s) (ts_upd i pc w' s)"
  using hc_step.other [of w' "ts_upd i pc w s" L acq self] assms by (simp add: ts_upd_world)

lemma connect_locked_run:
  assumes L: "undisturbed L acq" and acq: "lt_acquire acq a (hw_connecting w) = Some t"
    and res: "connect_locked L self key io a (w\<lparr>hw_connecting := t\<rparr>) = (r, w')"
  shows "(hc_step L acq self)\<^sup>*\<^sup>* (ts_upd i (Locking key io a) w s) (ts_upd i (Finished r) w' s)"
proof -
  obtain q w1 where h2: "try_h2 (sender_error L) key (w\<lparr>hw_connecting := t\<rparr>) = (q, w1)" by fastforce
  show ?thesis
  proof (cases q)
    case (Some c)
    then show ?thesis
      using res h2 hc_step.lock_hit [of "ts_upd i (Locking key io a) w s" i key io a acq t L c w1 self] acq
      by (auto simp: connect_locked_def)
  next
    case None
    have miss: "hc_step L acq self (ts_upd i (Locking key io a) w s) (ts_upd i (Handshaking key io a) w1 s)"
      using h2 None hc_step.lock_miss [of "ts_upd i (Locking key io a) w s" i key io a acq t L w1 self] acq by simp
    obtain x w2 where hs: "handshake L (h2_builder self) io w1 = (x, w2)" by fastforce
    have env: "hc_step L acq self (ts_upd i (Handshaking key io a) w1 s) (ts_upd i (Handshaking key io a) w2 s)"
      using undisturbedD(3,4) [OF L hs] by (intro await_step)
    have "hc_step L acq self (ts_upd i (Handshaking key io a) w2 s) (ts_upd i (Finished r) w' s)"
    proof (cases x)
      case (Inl e)
      then show ?thesis
        using res h2 None hs hc_step.shake_err [of "ts_upd i (Handshaking key io a) w2 s" i key io a L acq self e]
        by (auto simp: connect_locked_def)
    next
      case (Inr y)
      obtain tx bg c w3 where y: "y = (tx, bg)" "finish_h2 (spawn_task L) key tx bg w2 = (c, w3)" by (cases y) fastforce
      then show ?thesis
        using res h2 None hs Inr hc_step.shake_ok [of "ts_upd i (Handshaking key io a) w2 s" i key io a L tx bg c w3 acq self]
        by (auto simp: connect_locked_def)
    qed
    with miss env show ?thesis by (meson converse_rtranclp_into_rtranclp r_into_rtranclp)
  qed
qed

lemma after_transport_run:
  assumes L: "undisturbed L acq" and res: "after_transport L self key io w = (r, w')"
  shows "(hc_step L acq self)\<^sup>*\<^sup>* (ts_upd i (Transport key) w s) (ts_upd i (Finished r) w' s)"
proof (cases "connect_to_h2 self (get_conn_metadata L io)")
  case False
  then show ?thesis
    using res hc_step.transport_h1 [of "ts_upd i (Transport key) w s" i key self L io acq] by (auto simp: after_transport_def)
next
  case True
  obtain a w1 where lock: "take_lock (Semaphore_new L) key w = (a, w1)" by fastforce
  have step: "hc_step L acq self (ts_upd i (Transport key) w s) (ts_upd i (Locking key io a) w1 s)"
    using True lock hc_step.transport_h2 [of "ts_upd i (Transport key) w s" i key self L io a w1 acq] by simp
  have "(\<exists>e. acquire L a w1 = (Err e, w1)) \<or>
      (\<exists>t. lt_acquire acq a (hw_connecting w1) = Some t \<and> acquire L a w1 = (Ok (), w1\<lparr>hw_connecting := t\<rparr>))"
    using L by (simp add: undisturbed_def)
  then show ?thesis
  proof (elim disjE exE conjE)
    fix e assume e: "acquire L a w1 = (Err e, w1)"
    have "hc_step L acq self (ts_upd i (Locking key io a) w1 s) (ts_upd i (Finished (Err e)) w1 s)"
      using hc_step.lock_err [of "ts_upd i (Locking key io a) w1 s" i key io a L acq self e] by simp
    moreover have "r = Err e" "w' = w1" using res True lock e by (auto simp: after_transport_def io_bind_def)
    ultimately show ?thesis using step by (meson converse_rtranclp_into_rtranclp r_into_rtranclp)
  next
    fix t assume t: "lt_acquire acq a (hw_connecting w1) = Some t" "acquire L a w1 = (Ok (), w1\<lparr>hw_connecting := t\<rparr>)"
    have "connect_locked L self key io a (w1\<lparr>hw_connecting := t\<rparr>) = (r, w')"
      using res True lock t(2) by (simp add: after_transport_def io_bind_def)
    from connect_locked_run [OF L t(1) this] step show ?thesis by (rule converse_rtranclp_into_rtranclp [rotated])
  qed
qed

text \<open>
  The two semantics of \<open>connect\<close> agree. A call that runs from start to end, with a
  transport and a handshake that leave the connector alone, is a run of the interleaving: from any
  state in which the task is not running, the steps lead to the state in which it has finished
  with the answer and the world of the call, all other tasks being where they were. The
  properties of the interleaving thus hold of every such call.
\<close>

lemma connect_is_run:
  assumes "undisturbed L acq" and "ts_task s i = NotRunning"
    and "HttpConnector_connect L self key (ts_world s) = Some (r, w')"
  shows "(hc_step L acq self)\<^sup>*\<^sup>* s (ts_upd i (Finished r) w' s)"
proof -
  obtain q w1 where p: "try_pools (sender_error L) self key (ts_world s) = Some (q, w1)"
    using assms(3) by (cases "try_pools (sender_error L) self key (ts_world s)") (auto simp: HttpConnector_connect_def)
  show ?thesis
  proof (cases q)
    case (Some c)
    then show ?thesis
      using assms(3) p hc_step.start_hit [OF assms(2), of L self key c w1 acq] by (auto simp: HttpConnector_connect_def)
  next
    case None
    have start: "hc_step L acq self s (ts_upd i (Transport key) w1 s)"
      using hc_step.start_miss [OF assms(2)] p None by blast
    obtain x w2 where tr: "transport_connect L (connector self) key w1 = (x, w2)" by fastforce
    have await: "hc_step L acq self (ts_upd i (Transport key) w1 s) (ts_upd i (Transport key) w2 s)"
      using undisturbedD(1,2) [OF assms(1) tr] by (intro await_step)
    have "(hc_step L acq self)\<^sup>*\<^sup>* (ts_upd i (Transport key) w2 s) (ts_upd i (Finished r) w' s)"
    proof (cases x)
      case (Inl e)
      then show ?thesis
        using assms(3) p None tr hc_step.transport_err [of "ts_upd i (Transport key) w2 s" i key L acq self e]
        by (auto simp: HttpConnector_connect_def io_bind_def)
    next
      case (Inr io)
      then have "after_transport L self key io w2 = (r, w')"
        using assms(3) p None tr by (simp add: HttpConnector_connect_def io_bind_def)
      then show ?thesis by (rule after_transport_run [OF assms(1)])
    qed
    with start await show ?thesis by (meson converse_rtranclp_into_rtranclp)
  qed
qed

section \<open>Properties\<close>

text \<open>The library of the examples with a lock that can be taken; a call with it runs undisturbed.\<close>

definition lock_lib :: "(unit, string, nat, nat, nat, unit, nat, unit, nat, unit, string) http_lib" where
  "lock_lib = demo_lib\<lparr>acquire := (\<lambda>a w. case lt_acquire demo_acq a (hw_connecting w) of
     None \<Rightarrow> (Err ''closed'', w) | Some t \<Rightarrow> (Ok (), w\<lparr>hw_connecting := t\<rparr>))\<rparr>"

lemma lock_lib_undisturbed: "undisturbed lock_lib demo_acq"
  by (auto simp: undisturbed_def lock_lib_def demo_lib_def split: option.splits)

text \<open>
  Property C8. Keep-alive: on a new connector, a session of requests with one key whose transport
  connection speaks HTTP/1.1 and answers every request uses the transport once. The first exchange
  is on a new connection; all others are on a reused one, and go the same whatever the transport
  would do, since it is not called again.
\<close>

theorem keep_alive_session:
  assumes build: "HttpConnector_new b c w0 = (self, w)" and inv: "rc_inv (hw_h1 w0)" and C: "answers C1"
    and dial: "\<And>w. transport_connect L c key w = (Ok io, w\<lparr>hw_env := dialled (hw_env w)\<rparr>)"
    and h1: "\<not> is_alpn_h2 (get_conn_metadata L io)"
  shows "\<exists>p w1 ps w2. http_exchange L C1 C2 nxt self key req w = Some (Ok (False, Ok p), w1)
    \<and> (\<forall>t. http_session (L\<lparr>transport_connect := t\<rparr>) C1 C2 nxt self key reqs w1 = Some (map (\<lambda>p. Ok (True, Ok p)) ps, w2))
    \<and> length ps = length reqs"
proof -
  obtain a where self: "h1_pool self = Some a" "connector self = c" "\<not> is_config_h2 self" and w: "holds a key [] w"
    by (rule new_connector_holds [OF build inv])
  obtain w1 where w1: "try_pools (sender_error L) self key w = Some (None, w1)" "holds a key [] w1"
    using try_pools_holds [OF self(1,3) w, of "sender_error L"] by auto
  have connect: "HttpConnector_connect L self key w
      = Some (Ok (Http1 (Pooled_new key (Http1Connection_new (ClientCodec_new L io)) False a)), w1\<lparr>hw_env := dialled (hw_env w1)\<rparr>)"
    using self h1 by (simp add: HttpConnector_connect_def w1(1) dial io_bind_def after_transport_def connect_to_h2_def
        finish_h1_def ConnectionPool_link_def)
  have op: "Http1Connection_is_open (Http1Connection_new (ClientCodec_new L io))"
    by (simp add: Http1Connection_is_open_def Http1Connection_new_def)
  obtain p c' w2 where x: "http_exchange L C1 C2 nxt self key req w = Some (Ok (False, Ok p), w2)"
    "holds a key [c'] w2" "Http1Connection_is_open c'"
    by (rule exchange_linked [OF connect op _ C, of C2 nxt req]) (use w1(2) in simp)
  with session_reuses [OF self(1,3) C x(2,3)] show ?thesis by blast
qed

text \<open>A transport that speaks HTTP/1.1, and a peer that answers each request with an empty response.\<close>

definition h1_lib :: "(unit, string, nat, nat, nat, unit, nat, unit, nat, unit, string) http_lib" where
  "h1_lib = demo_lib\<lparr>transport_connect := (\<lambda>_ _ w. (Ok 6, w\<lparr>hw_env := Suc (hw_env w)\<rparr>))\<rparr>"

definition echo_codec :: "(nat, 'req, string, unit, nat, string) h1_codec" where
  "echo_codec =
     \<lparr>send_and_flush = (\<lambda>_ cd. (if cd = 0 then Err ''reset'' else Ok (), cd)),
      next_response = (\<lambda>cd. (Some (Ok (''200'', PayloadDecoder_None)), cd)),
      next_data = (\<lambda>s. (None, s)),
      UnexpectedEof = ''eof''\<rparr>"

definition steady_codec :: "(nat, 'req, string, unit, nat, string) h1_codec" where
  "steady_codec = echo_codec\<lparr>send_and_flush := (\<lambda>_ cd. (Ok (), cd))\<rparr>"

lemma steady_answers: "answers steady_codec"
  by (simp add: answers_def Http1Connection_send_request_def steady_codec_def echo_codec_def)

definition idle_client :: "(nat, nat, string, unit, unit, nat, string, unit, string) h2_client" where
  "idle_client =
     \<lparr>tx_conn_error = (\<lambda>_ _. None), tx_ready = (\<lambda>t. io_return t), tx_send_request = (\<lambda>_ _ _. io_return ((), ())),
      send_data = (\<lambda>_ _ _. io_return ()), await_response = (\<lambda>_. io_return (''200'', ())), Bytes_new = 0\<rparr>"

theorem keep_alive_session_witness:
  "\<exists>p w1 ps w2.
     http_exchange h1_lib steady_codec idle_client list_source (fst (HttpConnector_new () () demo_world)) ''a'' (''GET'', [])
         (snd (HttpConnector_new () () demo_world)) = Some (Ok (False, Ok p), w1)
     \<and> http_session h1_lib steady_codec idle_client list_source (fst (HttpConnector_new () () demo_world)) ''a''
         [(''GET'', []), (''PUT'', [])] w1 = Some (map (\<lambda>p. Ok (True, Ok p)) ps, w2)
     \<and> length ps = 2"
proof -
  let ?n = "HttpConnector_new () () demo_world"
  have b: "HttpConnector_new () () demo_world = (fst ?n, snd ?n)" by simp
  have i: "rc_inv (hw_h1 demo_world)" by (simp add: demo_world_def)
  have d: "transport_connect h1_lib () ''a'' w = (Ok 6, w\<lparr>hw_env := Suc (hw_env w)\<rparr>)" for w by (simp add: h1_lib_def)
  have m: "\<not> is_alpn_h2 (get_conn_metadata h1_lib 6)" by (simp add: h1_lib_def demo_lib_def is_alpn_h2_def)
  have same: "h1_lib\<lparr>transport_connect := transport_connect h1_lib\<rparr> = h1_lib" by simp
  from keep_alive_session [OF b i steady_answers d m, of idle_client list_source "(''GET'', [])" "[(''GET'', []), (''PUT'', [])]"]
  show ?thesis using same by (metis length_Cons list.size(3) numeral_2_eq_2)
qed

text \<open>
  Property C10. A failed request is not the fate of the next one: when an exchange on the idle
  connection of a pool ends with an error, that connection is not in the pool any more, and the
  next \<open>connect\<close> with the key dials, its answer being that of the transport and what follows it.
\<close>

theorem failed_request_redials:
  assumes self: "h1_pool self = Some a" "\<not> is_config_h2 self"
    and w: "holds a key [c] w" and c: "Http1Connection_is_open c"
    and x: "http_exchange L C1 C2 nxt self key req w = Some (Ok (reused, Err e), w1)"
  shows "reused \<and> (\<exists>w2. holds a key [] w2
    \<and> HttpConnector_connect L self key w1 = Some (io_bind (transport_connect L (connector self) key) (after_transport L self key) w2))"
proof -
  obtain w0 where "\<And>t. HttpConnector_connect (L\<lparr>transport_connect := t\<rparr>) self key w = Some (Ok (Http1 (Pooled_new key c True a)), w0)"
    and w0: "holds a key [] w0" using connect_idle [OF self w] by blast
  from this(1) [of "transport_connect L"]
  have con: "HttpConnector_connect L self key w = Some (Ok (Http1 (Pooled_new key c True a)), w0)" by simp
  obtain res b c' where s: "Http1Connection_send_request C1 c req = Some ((res, b), c')"
    using x con by (cases "Http1Connection_send_request C1 c req")
      (auto simp: http_exchange_def HttpConnection_send_request_def Pooled_new_def)
  have send: "HttpConnection_send_request C1 C2 nxt (Http1 (Pooled_new key c True a)) req (hw_env w0)
      = Some (Ok ((res_map (to_body H1Body) res, b), Http1 (Pooled_new key c' True a), hw_env w0))"
    using s by (simp add: HttpConnection_send_request_def Pooled_new_def)
  have err: "res = Err e" and re: "reused" and w1: "drop_connection (Http1 (Pooled_new key c' True a)) w0 = Some w1"
    using x by (auto simp: http_exchange_def con send)
  have "\<not> Http1Connection_is_open c'"
    using h1_send_request_frame(3) [OF s] err by (simp add: Http1Connection_is_open_def is_ok_def)
  then have "w1 = w0" using w1 by (simp add: drop_connection_def Pooled_drop_def Pooled_new_def)
  moreover obtain w2 where "try_pools (sender_error L) self key w0 = Some (None, w2)" "holds a key [] w2"
    using try_pools_holds [OF self w0, of "sender_error L"] by auto
  ultimately show ?thesis using re by (auto simp: HttpConnector_connect_def)
qed

theorem failed_request_redials_witness:
  "\<exists>w1 w2. http_exchange demo_lib echo_codec idle_client list_source (demo_self\<lparr>protocol := P_HTTP11, h1_pool := Some 0\<rparr>) ''a'' (''GET'', [])
       (demo_world\<lparr>hw_h1 := snd (rc_new (pool_release 5 ''a'' (Http1Connection_new (0::nat)) (PoolInner_new None)) rc_empty)\<rparr>)
     = Some (Ok (True, Err ''reset''), w1)
     \<and> HttpConnector_connect demo_lib (demo_self\<lparr>protocol := P_HTTP11, h1_pool := Some 0\<rparr>) ''a'' w1
     = Some (io_bind (transport_connect demo_lib () ''a'') (after_transport demo_lib (demo_self\<lparr>protocol := P_HTTP11, h1_pool := Some 0\<rparr>) ''a'') w2)"
proof -
  let ?self = "demo_self\<lparr>protocol := P_HTTP11, h1_pool := Some 0\<rparr>"
  let ?p = "pool_release 5 ''a'' (Http1Connection_new (0::nat)) (PoolInner_new None)"
  let ?w = "demo_world\<lparr>hw_h1 := snd (rc_new ?p rc_empty)\<rparr>"
  have self: "h1_pool ?self = Some 0" "\<not> is_config_h2 ?self" by (simp_all add: is_config_h2_def)
  have fresh: "fst (rc_new ?p rc_empty) = 0" by (simp add: rc_new_def rc_empty_def)
  have holds: "holds 0 ''a'' [Http1Connection_new 0] ?w"
    using rc.invar_alloc [OF rc_inv_empty, of ?p] fresh
    by (simp add: holds_def rc.read_alloc pool.give_queue demo_world_def last_n_all)
  have op: "Http1Connection_is_open (Http1Connection_new 0)"
    by (simp add: Http1Connection_is_open_def Http1Connection_new_def)
  obtain w0 where con: "HttpConnector_connect (demo_lib\<lparr>transport_connect := transport_connect demo_lib\<rparr>) ?self ''a'' ?w
      = Some (Ok (Http1 (Pooled_new ''a'' (Http1Connection_new 0) True 0)), w0)"
    by (rule connect_idle [OF self holds, of demo_lib]) blast
  then have x: "http_exchange demo_lib echo_codec idle_client list_source ?self ''a'' (''GET'', []) ?w = Some (Ok (True, Err ''reset''), w0)"
    by (simp add: http_exchange_def HttpConnection_send_request_def Http1Connection_send_request_def echo_codec_def
        Http1Connection_new_def drop_connection_def Pooled_drop_def Pooled_new_def Http1Connection_is_open_def
        is_reused_def Pooled_is_reused_def)
  from failed_request_redials [OF self holds op this] x show ?thesis by (auto simp: demo_self_def)
qed

end
