(* ===== verification/Http_Cancel.thy ===== *)
theory Http_Cancel
  imports Http_Client
begin

text \<open>
  Requests over HTTP/1.1 that are cancelled: the future of \<open>Http1Connection::send_request\<close> is dropped
  while it is suspended, as a timeout around it does, and then the handle. None of the code after the
  await runs, so that the fields of the connection keep what they had, and the codec keeps what the
  awaits before have left and whatever the pending one has done.
\<close>

section \<open>The await points\<close>

text \<open>
  The pending call, with the codec as it is when the future is dropped: sending, waiting for the head
  of the response, or waiting for data after a number of chunks.
\<close>

datatype 'cd pending_await = In_send 'cd | In_next 'cd | In_data nat 'cd

fun read_chunks :: "('s, 'b, 'e) source \<Rightarrow> nat \<Rightarrow> 's \<Rightarrow> 's option" where
  "read_chunks nxt 0 s = Some s"
| "read_chunks nxt (Suc n) s = (case nxt s of (Some (Inr _), s') \<Rightarrow> read_chunks nxt n s' | _ \<Rightarrow> None)"

text \<open>There is no value where the request does not get to that await.\<close>

definition Http1Connection_send_cancelled :: "('cd, 'req, 'p, 'd, 'b, 'e) h1_codec \<Rightarrow> 'cd Http1Connection \<Rightarrow> 'req
    \<Rightarrow> 'cd pending_await \<Rightarrow> 'cd Http1Connection option" where
  "Http1Connection_send_cancelled C self request at =
     (case at of
        In_send cd \<Rightarrow> Some (self\<lparr>framed := cd\<rparr>)
      | In_next cd \<Rightarrow>
          (case send_and_flush C request (framed self) of
             (Inl _, _) \<Rightarrow> None
           | (Inr _, _) \<Rightarrow> Some (self\<lparr>framed := cd\<rparr>))
      | In_data n cd \<Rightarrow>
          (case send_and_flush C request (framed self) of
             (Inl _, _) \<Rightarrow> None
           | (Inr _, cd0) \<Rightarrow>
               (case next_response C cd0 of
                  (Some (Inr (_, decoder)), cd1) \<Rightarrow>
                    (case decoder of
                       PayloadDecoder_None \<Rightarrow> None
                     | PayloadDecoder_Fixed d \<Rightarrow> if n = 0 then Some (self\<lparr>framed := cd\<rparr>) else None
                     | PayloadDecoder_Streamed d \<Rightarrow>
                         map_option (\<lambda>_. self\<lparr>framed := cd\<rparr>) (read_chunks (next_data C) n (d, cd1)))
                | _ \<Rightarrow> None)))"

text \<open>An exchange that is cancelled in its request, and the drop of the handle that follows.\<close>

definition http_cancelled :: "('c, 'k, 'io, 'cd, 'tx, 'bg, 's, 'b, 'w, 'he, 'te) http_lib \<Rightarrow> ('cd, 'req, 'p, 'd, 'x, 'e) h1_codec
    \<Rightarrow> ('c, 'b) HttpConnector \<Rightarrow> 'k \<Rightarrow> 'req \<Rightarrow> 'cd pending_await \<Rightarrow> ('k, 'cd, 'tx, 's, 'w) http_world
    \<Rightarrow> ('k, 'cd, 'tx, 's, 'w) http_world option" where
  "http_cancelled L C1 self key req at w =
     (case HttpConnector_connect L self key w of
        Some (Inr (Http1 pooled), w1) \<Rightarrow>
          (case p_value pooled of
             None \<Rightarrow> None
           | Some c \<Rightarrow>
               (case Http1Connection_send_cancelled C1 c req at of
                  None \<Rightarrow> None
                | Some c' \<Rightarrow> drop_connection (Http1 (pooled\<lparr>p_value := Some c'\<rparr>)) w1))
      | _ \<Rightarrow> None)"

text \<open>Wherever it happens, a cancelled request leaves the connection as open as it was.\<close>

lemma cancelled_frame:
  "Http1Connection_send_cancelled C c req at = Some c' \<Longrightarrow> Http1Connection_is_open c' = Http1Connection_is_open c"
  by (auto simp: Http1Connection_send_cancelled_def Http1Connection_is_open_def
      split: pending_await.splits prod.splits sum.splits option.splits PayloadDecoder.splits if_splits)

section \<open>Peers that answer in order\<close>

text \<open>
  The peer of HTTP/1.1 answers the requests of a connection in the order in which they were sent;
  \<open>due\<close> reads the requests that are not answered yet off the codec.
\<close>

definition in_order :: "('cd \<Rightarrow> 'req list) \<Rightarrow> ('req \<Rightarrow> 'p) \<Rightarrow> ('cd, 'req, 'p, 'd, 'b, 'e) h1_codec \<Rightarrow> bool" where
  "in_order due answer C \<longleftrightarrow>
     (\<forall>req cd. \<exists>cd'. send_and_flush C req cd = (Ok (), cd') \<and> due cd' = due cd @ [req]) \<and>
     (\<forall>cd req reqs. due cd = req # reqs \<longrightarrow>
        (\<exists>cd'. next_response C cd = (Some (Ok (answer req, PayloadDecoder_None)), cd') \<and> due cd' = reqs))"

text \<open>A request on a connection with answers due gets the oldest of them.\<close>

lemma request_in_order:
  assumes "in_order due answer C" and "due (framed c) @ [req] = r # rs"
  obtains c' where "Http1Connection_send_request C c req = Some ((Ok \<lparr>resp_parts = answer r, resp_body = Payload_None\<rparr>, False), c')"
    "due (framed c') = rs"
proof -
  obtain cd where cd: "send_and_flush C req (framed c) = (Ok (), cd)" "due cd = r # rs"
    using assms unfolding in_order_def by metis
  then obtain cd' where "next_response C cd = (Some (Ok (answer r, PayloadDecoder_None)), cd')" "due cd' = rs"
    using assms(1) unfolding in_order_def by blast
  with cd(1) show thesis using that [of "c\<lparr>framed := cd'\<rparr>"] by (simp add: Http1Connection_send_request_def)
qed

text \<open>An exchange on a connection that \<open>connect\<close> has returned, with the answer that is due.\<close>

lemma exchange_in_order:
  assumes C: "in_order due answer C1" and con: "HttpConnector_connect L self key w = Some (Ok (Http1 (Pooled_new key c b a)), w1)"
    and w1: "holds a key [] w1" and c: "Http1Connection_is_open c" "due (framed c) @ [req] = r # rs"
  obtains c' w2 where "holds a key [c'] w2" "Http1Connection_is_open c'" "due (framed c') = rs"
    "http_exchange L C1 C2 nxt self key req w = Some (Ok (b, Ok \<lparr>resp_parts = answer r, resp_body = H1Body Payload_None\<rparr>), w2)"
proof -
  let ?p = "\<lparr>resp_parts = answer r, resp_body = Payload_None\<rparr>"
  obtain c' where s: "Http1Connection_send_request C1 c req = Some ((Ok ?p, False), c')" and due: "due (framed c') = rs"
    by (rule request_in_order [OF C c(2)])
  have op: "Http1Connection_is_open c'"
    using h1_send_request_frame(2,3) [OF s] c(1) by (simp add: Http1Connection_is_open_def is_ok_def)
  obtain w2 where w2: "drop_connection (Http1 (Pooled_new key c' b a)) w1 = Some w2" "holds a key [c'] w2"
    by (rule drop_holds [OF w1 op]) (rule that)
  have send: "HttpConnection_send_request C1 C2 nxt (Http1 (Pooled_new key c b a)) req (hw_env w1)
      = Some (Ok ((Ok (to_body H1Body ?p), False), Http1 (Pooled_new key c' b a), hw_env w1))"
    using s by (simp add: HttpConnection_send_request_def Pooled_new_def)
  show thesis
    by (rule that [OF w2(2) op due]) (use w2(1) in \<open>simp add: http_exchange_def con send to_body_def\<close>)
qed

text \<open>A session on the connection in the pool gets the answers that are due, the oldest first.\<close>

lemma session_in_order:
  assumes self: "h1_pool self = Some a" "\<not> is_config_h2 self" and C: "in_order due answer C1"
  shows "holds a key [c] w \<Longrightarrow> Http1Connection_is_open c \<Longrightarrow>
    \<exists>w'. http_session L C1 C2 nxt self key reqs w =
      Some (map (\<lambda>r. Ok (True, Ok \<lparr>resp_parts = answer r, resp_body = H1Body Payload_None\<rparr>))
              (take (length reqs) (due (framed c) @ reqs)), w')"
proof (induction reqs arbitrary: c w)
  case Nil
  show ?case by simp
next
  case (Cons req reqs)
  obtain w1 where con': "\<And>t. HttpConnector_connect (L\<lparr>transport_connect := t\<rparr>) self key w
      = Some (Ok (Http1 (Pooled_new key c True a)), w1)" and w1: "holds a key [] w1"
    using connect_idle [OF self Cons.prems(1)] by blast
  from con' [of "transport_connect L"]
  have con: "HttpConnector_connect L self key w = Some (Ok (Http1 (Pooled_new key c True a)), w1)" by simp
  obtain r rs where r: "due (framed c) @ [req] = r # rs" by (cases "due (framed c)") auto
  obtain c' w2 where x: "holds a key [c'] w2" "Http1Connection_is_open c'" "due (framed c') = rs"
    "http_exchange L C1 C2 nxt self key req w = Some (Ok (True, Ok \<lparr>resp_parts = answer r, resp_body = H1Body Payload_None\<rparr>), w2)"
    by (rule exchange_in_order [OF C con w1 Cons.prems(2) r])
  obtain w' where "http_session L C1 C2 nxt self key reqs w2 =
      Some (map (\<lambda>r. Ok (True, Ok \<lparr>resp_parts = answer r, resp_body = H1Body Payload_None\<rparr>)) (take (length reqs) (rs @ reqs)), w')"
    using Cons.IH [OF x(1,2)] x(3) by auto
  moreover have eq: "due (framed c) @ req # reqs = r # rs @ reqs" using r by (metis append_Cons append_assoc append_Nil)
  have "take (length (req # reqs)) (due (framed c) @ req # reqs) = r # take (length reqs) (rs @ reqs)"
    by (subst eq) (simp del: take_append)
  ultimately show ?case using x(4) by (simp del: take_append)
qed

section \<open>Properties\<close>

text \<open>
  Property C11. A request that is cancelled spoils the ones after it. On a new connector, over a connection
  to an HTTP/1.1 peer that answers in order, let a request be sent and its future be dropped while it
  waits for the response, then the handle. The connection, still marked as open, goes back into the
  pool, and every exchange with the key after it reuses it and is given the response to the request
  before its own, the first one the response to the cancelled request. After a request that was not
  cancelled the same exchanges get their own responses.
\<close>

theorem cancelled_request_shifts_answers:
  assumes build: "HttpConnector_new b c w0 = (self, w)" and inv: "rc_inv (hw_h1 w0)" and C: "in_order due answer C1"
    and dial: "\<And>w. transport_connect L c key w = (Ok io, w\<lparr>hw_env := dialled (hw_env w)\<rparr>)"
    and h1: "\<not> is_alpn_h2 (get_conn_metadata L io)"
    and new: "due (ClientCodec_new L io) = []" and sent: "send_and_flush C1 req (ClientCodec_new L io) = (Ok (), cd)"
  shows "\<exists>w1 w2 w3 w4. http_cancelled L C1 self key req (In_next cd) w = Some w1
    \<and> http_session L C1 C2 nxt self key reqs w1 =
        Some (map (\<lambda>r. Ok (True, Ok \<lparr>resp_parts = answer r, resp_body = H1Body Payload_None\<rparr>)) (take (length reqs) (req # reqs)), w2)
    \<and> http_exchange L C1 C2 nxt self key req w = Some (Ok (False, Ok \<lparr>resp_parts = answer req, resp_body = H1Body Payload_None\<rparr>), w3)
    \<and> http_session L C1 C2 nxt self key reqs w3 =
        Some (map (\<lambda>r. Ok (True, Ok \<lparr>resp_parts = answer r, resp_body = H1Body Payload_None\<rparr>)) reqs, w4)"
proof -
  let ?c = "Http1Connection_new (ClientCodec_new L io)"
  obtain a where self: "h1_pool self = Some a" "connector self = c" "\<not> is_config_h2 self" and w: "holds a key [] w"
    by (rule new_connector_holds [OF build inv])
  obtain v where v: "try_pools (sender_error L) self key w = Some (None, v)" "holds a key [] v"
    using try_pools_holds [OF self(1,3) w, of "sender_error L"] by auto
  let ?v = "v\<lparr>hw_env := dialled (hw_env v)\<rparr>"
  have con: "HttpConnector_connect L self key w = Some (Ok (Http1 (Pooled_new key ?c False a)), ?v)"
    using self h1 by (simp add: HttpConnector_connect_def v(1) dial io_bind_def after_transport_def connect_to_h2_def
        finish_h1_def ConnectionPool_link_def)
  have op: "Http1Connection_is_open ?c" "due (framed ?c) @ [req] = req # []"
    using new by (simp_all add: Http1Connection_is_open_def Http1Connection_new_def)
  have v': "holds a key [] ?v" using v(2) by simp
  note session = session_in_order [where L = L and ?C2.0 = C2 and nxt = nxt and reqs = reqs, OF self(1,3) C]
  have cancel: "Http1Connection_send_cancelled C1 ?c req (In_next cd) = Some (?c\<lparr>framed := cd\<rparr>)"
    using sent by (simp add: Http1Connection_send_cancelled_def Http1Connection_new_def)
  then have op': "Http1Connection_is_open (?c\<lparr>framed := cd\<rparr>)" using cancelled_frame op(1) by metis
  obtain w1 where w1: "drop_connection (Http1 (Pooled_new key (?c\<lparr>framed := cd\<rparr>) False a)) ?v = Some w1" "holds a key [?c\<lparr>framed := cd\<rparr>] w1"
    by (rule drop_holds [OF v' op']) (rule that)
  have "http_cancelled L C1 self key req (In_next cd) w = Some w1"
    using w1(1) cancel by (simp add: http_cancelled_def con Pooled_new_def)
  moreover have "due cd = [req]" using C sent new unfolding in_order_def by (metis append_Nil Pair_inject)
  moreover obtain c3 w3 where x: "holds a key [c3] w3" "Http1Connection_is_open c3" "due (framed c3) = []"
    "http_exchange L C1 C2 nxt self key req w = Some (Ok (False, Ok \<lparr>resp_parts = answer req, resp_body = H1Body Payload_None\<rparr>), w3)"
    by (rule exchange_in_order [OF C con v' op])
  ultimately show ?thesis using session [OF w1(2) op'] session [OF x(1,2)] by fastforce
qed

text \<open>A codec that keeps the requests without an answer, and answers with the head of the request.\<close>

type_synonym demo_request = "string \<times> (nat, string) result list"

definition fifo_codec :: "(demo_request list, demo_request, string, unit, nat, string) h1_codec" where
  "fifo_codec =
     \<lparr>send_and_flush = (\<lambda>req cd. (Ok (), cd @ [req])),
      next_response = (\<lambda>cd. case cd of [] \<Rightarrow> (None, []) | req # rest \<Rightarrow> (Some (Ok (fst req, PayloadDecoder_None)), rest)),
      next_data = (\<lambda>s. (None, s)), UnexpectedEof = ''eof''\<rparr>"

definition fifo_lib :: "(unit, string, nat, demo_request list, nat, unit, nat, unit, nat, unit, string) http_lib" where
  "fifo_lib =
     \<lparr>transport_connect = (\<lambda>_ _ w. (Ok 6, w\<lparr>hw_env := Suc (hw_env w)\<rparr>)), get_conn_metadata = (\<lambda>_. TransportConnMeta_default),
      ClientCodec_new = (\<lambda>_. []), handshake = (\<lambda>_ _ w. (Err ''none'', w)), spawn_task = (\<lambda>_ n. n), sender_error = (\<lambda>_ _. None),
      Semaphore_new = 1, acquire = (\<lambda>_ w. (Ok (), w)), release_permit = Suc\<rparr>"

definition fifo_world :: "(string, demo_request list, nat, nat, nat) http_world" where
  "fifo_world = \<lparr>hw_h1 = rc_empty, hw_h2 = PoolInner_new None, hw_connecting = lt_new, hw_clock = 5, hw_env = 7\<rparr>"

theorem cancelled_request_shifts_answers_witness:
  "\<exists>w1 w2. http_cancelled fifo_lib fifo_codec (fst (HttpConnector_new () () fifo_world)) ''a'' (''GET /x'', []) (In_next [(''GET /x'', [])])
       (snd (HttpConnector_new () () fifo_world)) = Some w1
     \<and> http_session fifo_lib fifo_codec idle_client list_source (fst (HttpConnector_new () () fifo_world)) ''a''
         [(''GET /a'', []), (''GET /b'', [])] w1 =
        Some ([Ok (True, Ok \<lparr>resp_parts = ''GET /x'', resp_body = H1Body Payload_None\<rparr>),
               Ok (True, Ok \<lparr>resp_parts = ''GET /a'', resp_body = H1Body Payload_None\<rparr>)], w2)"
proof -
  let ?n = "HttpConnector_new () () fifo_world"
  have b: "HttpConnector_new () () fifo_world = (fst ?n, snd ?n)" by simp
  have i: "rc_inv (hw_h1 fifo_world)" by (simp add: fifo_world_def)
  have C: "in_order id fst fifo_codec" by (auto simp: in_order_def fifo_codec_def)
  have d: "transport_connect fifo_lib () ''a'' w = (Ok 6, w\<lparr>hw_env := Suc (hw_env w)\<rparr>)" for w by (simp add: fifo_lib_def)
  have m: "\<not> is_alpn_h2 (get_conn_metadata fifo_lib 6)" by (simp add: fifo_lib_def TransportConnMeta_default_def is_alpn_h2_def)
  have new: "id (ClientCodec_new fifo_lib 6) = []" by (simp add: fifo_lib_def)
  have sent: "send_and_flush fifo_codec (''GET /x'', []) (ClientCodec_new fifo_lib 6) = (Ok (), [(''GET /x'', [])])"
    by (simp add: fifo_codec_def fifo_lib_def)
  from cancelled_request_shifts_answers [where dialled = Suc and reqs = "[(''GET /a'', []), (''GET /b'', [])]" and ?C2.0 = idle_client
      and nxt = list_source, OF b i C d m new sent]
  show ?thesis by auto
qed

end
