(* ===== verification/Programs.thy ===== *)
theory Programs
  imports Prelude
begin

text \<open>
  Client programs, such as the tests and the examples of the repository. A statement has a value, or
  leaves the program: by \<open>?\<close> with an error, or by a panic of \<open>unwrap\<close> or of an assertion. There is no
  value when the program does not end. The values that are still owned when a program is left are
  freed with it.
\<close>

datatype ('a, 'e) outcome = Value 'a | Returned 'e | Panicked

type_synonym ('w, 'a, 'e) prog = "'w \<Rightarrow> (('a, 'e) outcome \<times> 'w) option"

definition prog_return :: "'a \<Rightarrow> ('w, 'a, 'e) prog" where
  "prog_return a w = Some (Value a, w)"

definition prog_bind :: "('w, 'a, 'e) prog \<Rightarrow> ('a \<Rightarrow> ('w, 'b, 'e) prog) \<Rightarrow> ('w, 'b, 'e) prog" where
  "prog_bind m f w =
     (case m w of
        None \<Rightarrow> None
      | Some (Value a, w') \<Rightarrow> f a w'
      | Some (Returned e, w') \<Rightarrow> Some (Returned e, w')
      | Some (Panicked, w') \<Rightarrow> Some (Panicked, w'))"

abbreviation prog_then :: "('w, unit, 'e) prog \<Rightarrow> ('w, 'b, 'e) prog \<Rightarrow> ('w, 'b, 'e) prog" where
  "prog_then m k \<equiv> prog_bind m (\<lambda>_. k)"

text \<open>\<open>unwrap\<close> of results and options, \<open>?\<close>, assertions, awaited calls, and bounded loops.\<close>

definition unwrap :: "('a, 'x) result \<Rightarrow> ('w, 'a, 'e) prog" where
  "unwrap r w = (case r of Inl _ \<Rightarrow> Some (Panicked, w) | Inr a \<Rightarrow> Some (Value a, w))"

definition unwrap_opt :: "'a option \<Rightarrow> ('w, 'a, 'e) prog" where
  "unwrap_opt r w = (case r of None \<Rightarrow> Some (Panicked, w) | Some a \<Rightarrow> Some (Value a, w))"

definition try_op :: "('x \<Rightarrow> 'e) \<Rightarrow> ('a, 'x) result \<Rightarrow> ('w, 'a, 'e) prog" where
  "try_op from r w = (case r of Inl e \<Rightarrow> Some (Returned (from e), w) | Inr a \<Rightarrow> Some (Value a, w))"

definition assert_that :: "bool \<Rightarrow> ('w, unit, 'e) prog" where
  "assert_that b w = Some (if b then Value () else Panicked, w)"

definition await :: "('w, 'a, 'x) io \<Rightarrow> ('w, ('a, 'x) result, 'e) prog" where
  "await m w = (case m w of (r, w') \<Rightarrow> Some (Value r, w'))"

fun repeat_prog :: "nat \<Rightarrow> ('s \<Rightarrow> ('w, 's, 'e) prog) \<Rightarrow> 's \<Rightarrow> ('w, 's, 'e) prog" where
  "repeat_prog 0 body s = prog_return s"
| "repeat_prog (Suc n) body s = prog_bind (body s) (repeat_prog n body)"

section \<open>Runs that end with a value\<close>

lemma prog_bind_Value: "m w = Some (Value a, w') \<Longrightarrow> prog_bind m f w = f a w'"
  by (simp add: prog_bind_def)

lemma prog_return_run [simp]: "prog_return a w = Some (Value a, w)"
  by (simp add: prog_return_def)

lemma unwrap_Ok [simp]: "unwrap (Ok a) w = Some (Value a, w)"
  by (simp add: unwrap_def)

lemma unwrap_opt_Some [simp]: "unwrap_opt (Some a) w = Some (Value a, w)"
  by (simp add: unwrap_opt_def)

lemma try_op_Ok [simp]: "try_op from (Ok a) w = Some (Value a, w)"
  by (simp add: try_op_def)

lemma assert_holds [simp]: "b \<Longrightarrow> assert_that b w = Some (Value (), w)"
  by (simp add: assert_that_def)

lemma await_run: "m w = (r, w') \<Longrightarrow> await m w = Some (Value r, w')"
  by (simp add: await_def)

text \<open>A loop whose body keeps an invariant ends with a value.\<close>

lemma repeat_prog_invariant:
  assumes step: "\<And>s w. ok s w \<Longrightarrow> \<exists>s' w'. body s w = Some (Value s', w') \<and> ok s' w'" and "ok s w"
  shows "\<exists>s' w'. repeat_prog n body s w = Some (Value s', w') \<and> ok s' w'"
  using assms(2)
proof (induction n arbitrary: s w)
  case (Suc n)
  obtain s1 w1 where "body s w = Some (Value s1, w1)" "ok s1 w1" using step [OF Suc.prems] by blast
  with Suc.IH show ?case by (simp add: prog_bind_Value)
qed simp

end
