(* ===== verification/Key.thy ===== *)
theory Key
  imports Tls_Connector Programs
begin

text \<open>
  The pool key \<open>Key\<close> of \<open>src/key.rs\<close>: a host, a port and an optional server name, made from a URI.
  The file is kept in the repository and has tests, but no module declares it. The type of server
  names and their parser are library code of the TLS back end; with native-tls a server name is
  any string (\<open>native_server_name\<close>).
\<close>

section \<open>Definitions\<close>

record 'sn Key =
  key_host :: string
  key_port :: u16
  key_server_name :: "'sn option"

definition Key_clone :: "'sn Key \<Rightarrow> 'sn Key" where
  "Key_clone self = \<lparr>key_host = key_host self, key_port = key_port self, key_server_name = key_server_name self\<rparr>"

definition Key_eq :: "'sn Key \<Rightarrow> 'sn Key \<Rightarrow> bool" where
  "Key_eq self other \<longleftrightarrow>
     key_host self = key_host other \<and> key_port self = key_port other \<and> key_server_name self = key_server_name other"

text \<open>The fields feed the hasher one after the other; their own hash functions are arguments.\<close>

definition Key_hash :: "(string \<Rightarrow> 'h \<Rightarrow> 'h) \<Rightarrow> (u16 \<Rightarrow> 'h \<Rightarrow> 'h) \<Rightarrow> ('sn option \<Rightarrow> 'h \<Rightarrow> 'h) \<Rightarrow> 'sn Key \<Rightarrow> 'h \<Rightarrow> 'h" where
  "Key_hash h_host h_port h_name self state =
     h_name (key_server_name self) (h_port (key_port self) (h_host (key_host self) state))"

definition Key_to_socket_addrs :: "('a, 'e) resolver \<Rightarrow> 'sn Key \<Rightarrow> ('a list, 'e) result" where
  "Key_to_socket_addrs resolve self = resolve (key_host self) (key_port self)"

text \<open>\<open>param\<close>, \<open>param_ref\<close> and \<open>param_mut\<close> of the server name.\<close>

definition Key_param :: "'sn Key \<Rightarrow> 'sn option" where
  "Key_param self = key_server_name self"

definition Key_param_mut :: "('sn option \<Rightarrow> 'r \<times> 'sn option) \<Rightarrow> 'sn Key \<Rightarrow> 'r \<times> 'sn Key" where
  "Key_param_mut f self = (case f (key_server_name self) of (r, n) \<Rightarrow> (r, self\<lparr>key_server_name := n\<rparr>))"

text \<open>The error type of this file, with its own names for the cases.\<close>

datatype 'dns KeyUriError = Key_InvalidDnsName 'dns | Key_UnsupportScheme | Key_NoAuthority

text \<open>From a host, an optional server name and a port.\<close>

definition Key_try_from_parts :: "(string \<Rightarrow> ('sn, 'dns) result) \<Rightarrow> string \<times> string option \<times> u16 \<Rightarrow> ('sn Key, 'dns) result" where
  "Key_try_from_parts server_name parts =
     (case parts of
        (host, name, port) \<Rightarrow>
          (case name of
             None \<Rightarrow> Ok \<lparr>key_host = host, key_port = port, key_server_name = None\<rparr>
           | Some s \<Rightarrow>
               (case server_name s of
                  Inl e \<Rightarrow> Err e
                | Inr sn \<Rightarrow> Ok \<lparr>key_host = host, key_port = port, key_server_name = Some sn\<rparr>)))"

definition Key_try_from_uri :: "(string \<Rightarrow> ('sn, 'dns) result) \<Rightarrow> uri_view \<Rightarrow> ('sn Key, 'dns KeyUriError) result" where
  "Key_try_from_uri server_name uri =
     (case (case uri_scheme uri of
              Some Scheme_HTTP \<Rightarrow> (False, 80) | Some Scheme_HTTPS \<Rightarrow> (True, 443) | _ \<Rightarrow> (False, 0)) of
        (tls, port0) \<Rightarrow>
          let port = unwrap_or port0 (uri_port_u16 uri) in
          (case uri_host uri of
             None \<Rightarrow> Err Key_NoAuthority
           | Some host \<Rightarrow>
               let sni = (if tls then Some host else None) in
               res_map_err Key_InvalidDnsName (Key_try_from_parts server_name (host, sni, port))))"

definition Key_try_from_owned_uri :: "(string \<Rightarrow> ('sn, 'dns) result) \<Rightarrow> uri_view \<Rightarrow> ('sn Key, 'dns KeyUriError) result" where
  "Key_try_from_owned_uri server_name uri = Key_try_from_uri server_name uri"

text \<open>
  \<open>Display\<close> and \<open>Debug\<close> print the same text, \<open>host:port:name\<close>; the text of a server name is the
  library's.
\<close>

fun show_decimal :: "nat \<Rightarrow> string" where
  "show_decimal n = (if n < 10 then [] else show_decimal (n div 10)) @ [char_of (48 + n mod 10)]"

declare show_decimal.simps [simp del]

definition debug_option :: "('a \<Rightarrow> string) \<Rightarrow> 'a option \<Rightarrow> string" where
  "debug_option debug x = (case x of None \<Rightarrow> ''None'' | Some a \<Rightarrow> ''Some('' @ debug a @ '')'')"

definition Key_fmt :: "('sn \<Rightarrow> string) \<Rightarrow> 'sn Key \<Rightarrow> string" where
  "Key_fmt debug_name self =
     key_host self @ '':'' @ show_decimal (unat (key_port self)) @ '':'' @ debug_option debug_name (key_server_name self)"

section \<open>The tests of the file\<close>

text \<open>
  The tests as programs, with the parser of URIs as an argument. As the file belongs to no module,
  they are not run with the other tests.
\<close>

definition key_default_port :: "(string \<Rightarrow> ('sn, 'dns) result) \<Rightarrow> ('w, unit, 'e) prog" where
  "key_default_port server_name =
     prog_bind (unwrap (Key_try_from_parts server_name (''bytedance.com'', Some ''bytedance.com'', 80))) (\<lambda>key.
     prog_then (assert_that (key_port key = 80))
    (prog_then (assert_that (key_host key = ''bytedance.com''))
    (prog_bind (unwrap (server_name ''bytedance.com'')) (\<lambda>name.
     assert_that (key_server_name key = Some name)))))"

definition key_specify_port :: "(string \<Rightarrow> (uri_view, 'pe) result) \<Rightarrow> (string \<Rightarrow> ('sn, 'dns) result) \<Rightarrow> ('w, unit, 'e) prog" where
  "key_specify_port parse_uri server_name =
     prog_bind (unwrap (parse_uri ''https://bytedance.com:12345'')) (\<lambda>uri.
     prog_bind (unwrap (Key_try_from_owned_uri server_name uri)) (\<lambda>key.
     prog_then (assert_that (key_port key = 12345))
    (prog_then (assert_that (key_host key = ''bytedance.com''))
    (prog_bind (unwrap (server_name ''bytedance.com'')) (\<lambda>name.
     assert_that (key_server_name key = Some name))))))"

definition key_ip_http :: "(string \<Rightarrow> (uri_view, 'pe) result) \<Rightarrow> (string \<Rightarrow> ('sn, 'dns) result) \<Rightarrow> ('w, unit, 'e) prog" where
  "key_ip_http parse_uri server_name =
     prog_bind (unwrap (parse_uri ''http://1.1.1.1:443'')) (\<lambda>uri.
     prog_bind (unwrap (Key_try_from_owned_uri server_name uri)) (\<lambda>key.
     prog_then (assert_that (key_port key = 443))
    (prog_then (assert_that (key_host key = ''1.1.1.1''))
    (assert_that (key_server_name key = None)))))"

definition key_uri :: "(string \<Rightarrow> (uri_view, 'pe) result) \<Rightarrow> (string \<Rightarrow> ('sn, 'dns) result) \<Rightarrow> ('w, unit, 'e) prog" where
  "key_uri parse_uri server_name =
     prog_bind (unwrap (parse_uri ''https://bytedance.com'')) (\<lambda>uri.
     prog_bind (unwrap (Key_try_from_uri server_name uri)) (\<lambda>key.
     prog_then (assert_that (key_port key = 443))
    (prog_then (assert_that (key_host key = ''bytedance.com''))
    (prog_bind (unwrap (server_name ''bytedance.com'')) (\<lambda>name.
     assert_that (key_server_name key = Some name))))))"

section \<open>Lemmas\<close>

lemmas key_defs = Key_try_from_uri_def Key_try_from_parts_def Key_to_socket_addrs_def

text \<open>Comparison is equality of keys, so a pool may identify keys with values of the model.\<close>

lemma Key_eq_iff: "Key_eq k l \<longleftrightarrow> k = l"
  by (cases k; cases l) (simp add: Key_eq_def)

lemma Key_clone_eq: "Key_clone k = k"
  by (simp add: Key_clone_def)

lemma scheme_cases:
  "(case s of Some Scheme_HTTP \<Rightarrow> (False, 80) | Some Scheme_HTTPS \<Rightarrow> (True, 443) | _ \<Rightarrow> (False, 0)) = (s = Some Scheme_HTTPS, default_port s)"
  by (auto simp: default_port_def split: option.splits scheme.splits)

lemma Key_try_from_uri_eq:
  "Key_try_from_uri sn uri =
     (case uri_host uri of
        None \<Rightarrow> Err Key_NoAuthority
      | Some host \<Rightarrow>
          let k = \<lparr>key_host = host, key_port = unwrap_or (default_port (uri_scheme uri)) (uri_port_u16 uri), key_server_name = None\<rparr> in
          if uri_scheme uri = Some Scheme_HTTPS
          then (case sn host of
                  Inl e \<Rightarrow> Err (Key_InvalidDnsName e) | Inr n \<Rightarrow> Ok (k\<lparr>key_server_name := Some n\<rparr>))
          else Ok k)"
  by (simp add: Key_try_from_uri_def scheme_cases Key_try_from_parts_def Let_def
      split: option.splits sum.splits)

text \<open>The printed text of a key determines it, for hosts without a colon: log lines of keys are unambiguous.\<close>

definition read_decimal :: "string \<Rightarrow> nat" where
  "read_decimal s = foldl (\<lambda>n c. 10 * n + (of_char c - 48)) 0 s"

lemma of_digit: "d < 10 \<Longrightarrow> of_char (char_of (48 + d :: nat)) = (48 + d :: nat)"
  by (simp add: of_char_of)

lemma read_show_decimal: "read_decimal (show_decimal n) = n"
proof (induction n rule: show_decimal.induct)
  case (1 n)
  show ?case
  proof (cases "n < 10")
    case True
    then show ?thesis using of_digit [of n]
      by (subst show_decimal.simps) (simp add: read_decimal_def)
  next
    case False
    then show ?thesis
      using 1 of_digit [of "n mod 10"] by (subst show_decimal.simps) (simp add: read_decimal_def)
  qed
qed

lemma digit_no_colon: "d < 10 \<Longrightarrow> char_of (48 + d :: nat) \<noteq> CHR '':''"
proof
  assume d: "d < 10" and "char_of (48 + d :: nat) = CHR '':''"
  then have "of_char (CHR '':'') = (48 + d :: nat)" using of_digit [OF d] by simp
  then show False using d by simp
qed

lemma show_decimal_no_colon: "CHR '':'' \<notin> set (show_decimal n)"
proof (induction n rule: show_decimal.induct)
  case (1 n)
  then show ?case using digit_no_colon [of "n mod 10"] by (subst show_decimal.simps) auto
qed

lemma split_at_eq:
  "x \<notin> set xs \<Longrightarrow> x \<notin> set ys \<Longrightarrow> xs @ x # us = ys @ x # vs \<longleftrightarrow> xs = ys \<and> us = vs"
proof (induction xs arbitrary: ys)
  case Nil
  then show ?case by (cases ys) auto
next
  case (Cons a xs)
  then show ?case by (cases ys) auto
qed

lemma debug_option_inj: "inj debug \<Longrightarrow> debug_option debug x = debug_option debug y \<longleftrightarrow> x = y"
  by (auto simp: debug_option_def inj_eq split: option.splits)

lemma Key_fmt_inj:
  assumes "inj debug_name" and "CHR '':'' \<notin> set (key_host k)" and "CHR '':'' \<notin> set (key_host l)"
  shows "Key_fmt debug_name k = Key_fmt debug_name l \<longleftrightarrow> Key_eq k l"
proof -
  have "show_decimal m = show_decimal n \<longleftrightarrow> m = n" for m n by (metis read_show_decimal)
  then show ?thesis
    using assms by (auto simp: Key_fmt_def Key_eq_def split_at_eq show_decimal_no_colon debug_option_inj
        intro: word_unat_eq_iff [THEN iffD2])
qed

section \<open>Properties\<close>

text \<open>
  Property C39. Resolving the key of a URI gives the address the unified connector uses for the same
  URI, with the same server name: for a URI with a host and, under \<open>https\<close>, a valid name, the
  conversion of the URI to \<open>UnifiedAddr\<close> is the first address of the key with the key's name, and
  fails exactly as the resolution of the key does.
\<close>

theorem key_resolves_like_addr:
  fixes sn :: "string \<Rightarrow> ('sn, 'dns) result"
  assumes "Key_try_from_uri sn uri = Ok k"
  shows "(UnifiedAddr_try_from resolve sn uri :: (('a, 'p, 'sn) UnifiedAddr, ('dns, 'io) FromUriError) result) =
    res_map (\<lambda>a. \<lparr>ua_addr = L4_Tcp a, ua_sn = Key_param k\<rparr>) (first_addr (Key_to_socket_addrs resolve k))"
  using assms
  by (auto simp: Key_try_from_uri_eq UnifiedAddr_try_from_def scheme_cases Key_to_socket_addrs_def Key_param_def Let_def
      split: option.splits sum.splits if_splits)

theorem key_resolves_like_addr_witness:
  "(UnifiedAddr_try_from (\<lambda>h p. Ok [(h, p)]) native_server_name
      \<lparr>uri_host = Some ''a.io'', uri_scheme = Some Scheme_HTTPS, uri_port_u16 = Some 12345\<rparr>
     :: ((string \<times> u16, string, string) UnifiedAddr, (unit, unit) FromUriError) result)
   = Ok \<lparr>ua_addr = L4_Tcp (''a.io'', 12345), ua_sn = Some ''a.io''\<rparr>"
proof -
  have "Key_try_from_uri native_server_name \<lparr>uri_host = Some ''a.io'', uri_scheme = Some Scheme_HTTPS, uri_port_u16 = Some 12345\<rparr>
      = (Ok \<lparr>key_host = ''a.io'', key_port = 12345, key_server_name = Some ''a.io''\<rparr> :: (_, unit KeyUriError) result)"
    by (simp add: Key_try_from_uri_eq native_server_name_def unwrap_or_def Let_def)
  from key_resolves_like_addr [OF this, where resolve = "\<lambda>h p. Ok [(h, p)]"] show ?thesis
    by (simp add: Key_to_socket_addrs_def first_addr_def Key_param_def)
qed

text \<open>
  The errors of the conversion to a key, each exactly in its case: \<open>NoAuthority\<close> for a URI
  without a host, \<open>InvalidDnsName\<close> for an \<open>https\<close> URI with a host that is no valid name, and never
  \<open>UnsupportScheme\<close>, where \<open>TcpTlsAddr\<close> refuses every other scheme. A URI of another scheme gets port
  0 unless it names one.
\<close>

lemma key_conversion_errors:
  "(Key_try_from_uri sn uri = Err Key_NoAuthority \<longleftrightarrow> uri_host uri = None)
   \<and> (Key_try_from_uri sn uri = Err (Key_InvalidDnsName e) \<longleftrightarrow>
        (\<exists>h. uri_host uri = Some h \<and> uri_scheme uri = Some Scheme_HTTPS \<and> sn h = Inl e))
   \<and> Key_try_from_uri sn uri \<noteq> Err Key_UnsupportScheme
   \<and> (TcpTlsAddr_try_from sn uri = Err UnsupportScheme \<longleftrightarrow>
        uri_scheme uri \<noteq> Some Scheme_HTTPS \<and> is_ok (Key_try_from_uri sn uri))"
  by (auto simp: Key_try_from_uri_eq TcpTlsAddr_try_from_def scheme_cases is_ok_def Let_def split: option.splits sum.splits)

text \<open>
  The tests of \<open>key.rs\<close>, which are never run because no module declares the file, all pass
  with a parser that reads their four URIs and a parser of names that accepts \<open>bytedance.com\<close>: every
  conversion succeeds and every assertion holds.
\<close>

lemma key_tests_pass:
  assumes "server_name ''bytedance.com'' = Ok name"
    and "parse_uri ''https://bytedance.com:12345'' =
      Ok \<lparr>uri_host = Some ''bytedance.com'', uri_scheme = Some Scheme_HTTPS, uri_port_u16 = Some 12345\<rparr>"
    and "parse_uri ''http://1.1.1.1:443'' =
      Ok \<lparr>uri_host = Some ''1.1.1.1'', uri_scheme = Some Scheme_HTTP, uri_port_u16 = Some 443\<rparr>"
    and "parse_uri ''https://bytedance.com'' =
      Ok \<lparr>uri_host = Some ''bytedance.com'', uri_scheme = Some Scheme_HTTPS, uri_port_u16 = None\<rparr>"
    and "test \<in> {key_default_port server_name, key_specify_port parse_uri server_name,
      key_ip_http parse_uri server_name, key_uri parse_uri server_name}"
  shows "test w = Some (Value (), w)"
  using assms
  by (auto simp: prog_bind_def key_default_port_def key_specify_port_def key_ip_http_def key_uri_def Key_try_from_owned_uri_def
      Key_try_from_uri_eq Key_try_from_parts_def default_port_def unwrap_or_def Let_def)

end
