(* ===== verification/Http_Sharing.thy ===== *)
theory Http_Sharing
  imports Http_Client
begin

text \<open>
  HTTP/2 connections of \<open>HttpConnector\<close> are shared. Calls of \<open>connect\<close> that wait for the lock while
  another one shakes hands can all end with the connection of that handshake, in whichever order they
  are to run; and a session of exchanges with one key dials and shakes hands once.
\<close>

section \<open>Waiting calls\<close>

text \<open>A call that waits for the lock of a key while nobody shakes hands and the pool has a connection.\<close>

lemma waiter_served:
  assumes law: "sem_law permits (Semaphore_new L) acq (release_permit L)" and inv: "hc_inv permits s"
    and i: "ts_task s i = Locking key io a" and free: "\<And>j. \<not> handshakes (ts_task s j) key"
    and q: "queue_of (hw_h2 (ts_world s)) key = [e]" and ok: "healthy (sender_error L) (hw_env (ts_world s)) e"
  obtains w where "hc_step L acq self s (ts_upd i (Finished (Ok (Http2 (conn e)))) w s)"
    "hw_env w = hw_env (ts_world s)" "queue_of (hw_h2 w) key = [e]"
proof -
  have "waits_on (ts_task s i) key a" using i by simp
  from hc_locks.lock_live [OF law hc_invD(1) [OF inv] this] free
  obtain t where t: "lt_acquire acq a (hw_connecting (ts_world s)) = Some t" by (auto simp: handshakes_iff)
  obtain r w1 where h2: "try_h2 (sender_error L) key ((ts_world s)\<lparr>hw_connecting := t\<rparr>) = (r, w1)" by fastforce
  have r: "r = Some (conn e)" "queue_of (hw_h2 w1) key = [e]" "hw_env w1 = hw_env (ts_world s)"
    using try_h2_frame(3,4) [OF h2] q ok h2 by (auto simp: try_h2_def split: prod.splits)
  show thesis
  proof (rule that)
    show "hc_step L acq self s (ts_upd i (Finished (Ok (Http2 (conn e)))) (drop_guard (release_permit L) a w1) s)"
      using hc_step.lock_hit [OF i t h2 [unfolded r(1)]] .
  qed (simp_all add: drop_guard_def r)
qed

text \<open>Any number of them, in any order: every step serves the next one of the list and nobody else.\<close>

lemma waiters_served:
  assumes law: "sem_law permits (Semaphore_new L) acq (release_permit L)"
  shows "hc_inv permits s \<Longrightarrow> distinct is \<Longrightarrow> (\<And>i. i \<in> set is \<Longrightarrow> \<exists>io a. ts_task s i = Locking key io a) \<Longrightarrow>
    (\<And>j. \<not> handshakes (ts_task s j) key) \<Longrightarrow> queue_of (hw_h2 (ts_world s)) key = [e] \<Longrightarrow>
    healthy (sender_error L) (hw_env (ts_world s)) e \<Longrightarrow>
    \<exists>ss. length ss = length is \<and> (\<forall>n < length is. hc_step L acq self ((s # ss) ! n) (ss ! n) \<and>
      (\<forall>j. ts_task (ss ! n) j = (if j \<in> set (take (Suc n) is) then Finished (Ok (Http2 (conn e))) else ts_task s j)))"
proof (induction "is" arbitrary: s)
  case Nil
  then show ?case by simp
next
  case (Cons i "is")
  obtain io a where i: "ts_task s i = Locking key io a" using Cons.prems(3) [of i] by auto
  let ?pc = "Finished (Ok (Http2 (conn e)))"
  obtain w where step: "hc_step L acq self s (ts_upd i ?pc w s)"
    and w: "hw_env w = hw_env (ts_world s)" "queue_of (hw_h2 w) key = [e]"
    by (rule waiter_served [OF law Cons.prems(1) i Cons.prems(4-6)])
  let ?s = "ts_upd i ?pc w s"
  have "\<exists>ss. length ss = length is \<and> (\<forall>n < length is. hc_step L acq self ((?s # ss) ! n) (ss ! n) \<and>
      (\<forall>j. ts_task (ss ! n) j = (if j \<in> set (take (Suc n) is) then ?pc else ts_task ?s j)))"
    by (rule Cons.IH) (use Cons.prems w hc_inv_step [OF law step] in auto)
  then obtain ss where ss: "length ss = length is" "\<And>n. n < length is \<Longrightarrow> hc_step L acq self ((?s # ss) ! n) (ss ! n)"
    "\<And>n j. n < length is \<Longrightarrow> ts_task (ss ! n) j = (if j \<in> set (take (Suc n) is) then ?pc else ts_task ?s j)" by blast
  have "hc_step L acq self ((s # ?s # ss) ! n) ((?s # ss) ! n) \<and>
      (\<forall>j. ts_task ((?s # ss) ! n) j = (if j \<in> set (take (Suc n) (i # is)) then ?pc else ts_task s j))" if "n < length (i # is)" for n
    using that step ss by (cases n) (auto simp: less_Suc_eq_0_disj)
  with ss(1) show ?case by (intro exI [of _ "?s # ss"]) simp
qed

section \<open>Sessions over HTTP/2\<close>

text \<open>The HTTP/2 pool has one connection for the key, with the sender \<open>t\<close>.\<close>

definition shares :: "'k \<Rightarrow> 'tx \<Rightarrow> ('k, 'cd, 'tx, 's, 'w) http_world \<Rightarrow> bool" where
  "shares key t w \<longleftrightarrow> (\<exists>i. queue_of (hw_h2 w) key = [i] \<and> conn i = Http2Connection_new t)"

text \<open>Every request on the sender returns, with a response or an error.\<close>

definition h2_returns :: "('w, 'tx, 'hd, 'rf, 'st, 'b, 'p, 'rb, 'e) h2_client \<Rightarrow> ('body, 'b, 'e) source \<Rightarrow> 'tx \<Rightarrow> bool" where
  "h2_returns C nxt t \<longleftrightarrow> (\<forall>req w. Http2Connection_send_request C nxt (Http2Connection_new t) req w \<noteq> None)"

lemma exchange_h2:
  assumes connect: "HttpConnector_connect L self key w = Some (Ok (Http2 (Http2Connection_new t)), w1)"
    and "shares key t w1" and "h2_returns C2 nxt t"
  obtains res w2 where "http_exchange L C1 C2 nxt self key req w = Some (Ok (False, res), w2)" "shares key t w2"
proof -
  obtain res b env where "Http2Connection_send_request C2 nxt (Http2Connection_new t) req (hw_env w1) = Some ((res, b), env)"
    using assms(3) unfolding h2_returns_def by (metis option.exhaust surj_pair)
  then have "http_exchange L C1 C2 nxt self key req w = Some (Ok (False, res_map (to_body H2Body) res), w1\<lparr>hw_env := env\<rparr>)"
    by (simp add: http_exchange_def connect HttpConnection_send_request_def drop_connection_def is_reused_def)
  then show thesis using that assms(2) by (simp add: shares_def)
qed

lemma connect_shared:
  assumes "is_config_auto self \<or> is_config_h2 self" and "shares key t w" and "\<And>e. sender_error L e t = None"
  obtains w1 where "shares key t w1"
    "\<And>tc hs. HttpConnector_connect (L\<lparr>transport_connect := tc, handshake := hs\<rparr>) self key w
       = Some (Ok (Http2 (Http2Connection_new t)), w1)"
proof -
  obtain i where i: "queue_of (hw_h2 w) key = [i]" "conn i = Http2Connection_new t" using assms(2) by (auto simp: shares_def)
  obtain r w1 where h2: "try_h2 (sender_error L) key w = (r, w1)" by fastforce
  have "healthy (sender_error L) (hw_env w) i" using i(2) assms(3) by (simp add: healthy_def Http2Connection_new_def)
  then have r: "r = Some (Http2Connection_new t)" and "shares key t w1"
    using try_h2_frame(3,4) [OF h2] i by (simp_all add: shares_def)
  then show thesis using that assms(1) h2 by (simp add: HttpConnector_connect_def try_pools_def)
qed

lemma session_shares:
  assumes self: "is_config_auto self \<or> is_config_h2 self" and ok: "\<And>e. sender_error L e t = None" and C: "h2_returns C2 nxt t"
  shows "shares key t w \<Longrightarrow> \<exists>rs w'. (\<forall>tc hs. http_session (L\<lparr>transport_connect := tc, handshake := hs\<rparr>) C1 C2 nxt self key reqs w
      = Some (map (\<lambda>r. Ok (False, r)) rs, w')) \<and> length rs = length reqs"
proof (induction reqs arbitrary: w)
  case Nil
  show ?case by simp
next
  case (Cons req reqs)
  let ?L = "\<lambda>tc hs. L\<lparr>transport_connect := tc, handshake := hs\<rparr>"
  obtain w1 where w1: "shares key t w1"
    and con: "\<And>tc hs. HttpConnector_connect (?L tc hs) self key w = Some (Ok (Http2 (Http2Connection_new t)), w1)"
    using connect_shared [where L = L, OF self Cons.prems ok] by blast
  have same: "http_exchange (?L tc hs) C1 C2 nxt self key req w = http_exchange (?L tc' hs') C1 C2 nxt self key req w"
    for tc hs tc' hs' by (simp add: http_exchange_def con)
  obtain res w2 where x: "\<And>tc hs. http_exchange (?L tc hs) C1 C2 nxt self key req w = Some (Ok (False, res), w2)"
    and w2: "shares key t w2"
    using exchange_h2 [OF con w1 C] same by metis
  obtain rs w' where "\<forall>tc hs. http_session (?L tc hs) C1 C2 nxt self key reqs w2 = Some (map (\<lambda>r. Ok (False, r)) rs, w')"
    "length rs = length reqs" using Cons.IH [OF w2] by blast
  with x show ?case by (intro exI [of _ "res # rs"] exI [of _ w']) simp
qed

text \<open>A call that finds the pools empty and negotiates HTTP/2.\<close>

lemma connect_dials_h2:
  assumes self: "h1_pool self = Some a" "\<not> is_config_h2 self" and w: "holds a key [] w"
    and dial: "\<And>w. transport_connect L (connector self) key w = (Ok io, w\<lparr>hw_env := dialled (hw_env w)\<rparr>)"
    and h2: "is_alpn_h2 (get_conn_metadata L io)"
    and lock: "\<And>a w. \<exists>t. acquire L a w = (Ok (), w\<lparr>hw_connecting := t\<rparr>)"
    and shake: "\<And>w. handshake L (h2_builder self) io w = (Ok (t, task), w\<lparr>hw_env := shaken (hw_env w)\<rparr>)"
  obtains w1 where "HttpConnector_connect L self key w = Some (Ok (Http2 (Http2Connection_new t)), w1)" "shares key t w1"
proof -
  obtain w1 where p: "try_pools (sender_error L) self key w = Some (None, w1)" and "holds a key [] w1"
    using try_pools_holds [OF self w, of "sender_error L"] by auto
  then have q1: "queue_of (hw_h2 w1) key = []" by (simp add: holds_def)
  let ?w2 = "w1\<lparr>hw_env := dialled (hw_env w1)\<rparr>"
  obtain l w3 where l: "take_lock (Semaphore_new L) key ?w2 = (l, w3)" by fastforce
  obtain tb where tb: "acquire L l w3 = (Ok (), w3\<lparr>hw_connecting := tb\<rparr>)" using lock by blast
  have "queue_of (hw_h2 (w3\<lparr>hw_connecting := tb\<rparr>)) key = []" using l q1 by (auto simp: take_lock_def split: prod.splits)
  then obtain p where miss: "try_h2 (sender_error L) key (w3\<lparr>hw_connecting := tb\<rparr>) = (None, w3\<lparr>hw_connecting := tb, hw_h2 := p\<rparr>)"
    and p0: "queue_of p key = []"
    by (rule try_h2_empty [where err = "sender_error L"]) simp
  have "\<exists>w'. HttpConnector_connect L self key w = Some (Ok (Http2 (Http2Connection_new t)), w') \<and> shares key t w'"
    using h2 p0 by (simp add: HttpConnector_connect_def p dial io_bind_def after_transport_def connect_to_h2_def l tb
        connect_locked_def miss shake finish_h2_def drop_guard_def shares_def put_queue Idle_new_def)
  then show thesis using that by blast
qed

section \<open>Properties\<close>

text \<open>
  Property C6. Nobody waits in vain: in a reachable state in which one call shakes hands for a key
  and others wait for its lock, let the handshake succeed with a sender that reports no error. Then
  for every order of any of the waiting calls there is a run of one step each in which the call that
  shook hands and then the waiting calls finish in this order, each with the one connection of that
  handshake; after every step exactly those of them have finished whose turn it was.
\<close>

theorem waiters_share_connection:
  assumes "sem_law permits (Semaphore_new L) acq (release_permit L)" and "hc_reach L acq self s"
    and "ts_task s j = Handshaking key io a" and "finish_h2 (spawn_task L) key t task (ts_world s) = (c, w)"
    and "sender_error L (hw_env w) t = None"
    and "distinct is" and "\<And>i. i \<in> set is \<Longrightarrow> \<exists>io a. ts_task s i = Locking key io a"
  shows "\<exists>ss. length ss = Suc (length is) \<and> (\<forall>n \<le> length is. hc_step L acq self ((s # ss) ! n) (ss ! n) \<and>
      (\<forall>i. ts_task (ss ! n) i = (if i \<in> set (take (Suc n) (j # is)) then Finished (Ok c) else ts_task s i)))"
proof -
  note inv = hc_inv_reach [OF assms(1,2)]
  let ?s = "ts_upd j (Finished (Ok c)) (drop_guard (release_permit L) a w) s"
  let ?e = "Idle_new (hw_clock (ts_world s)) (Http2Connection_new t)"
  have step: "hc_step L acq self s ?s" by (rule hc_step.shake_ok [OF assms(3,4)])
  have c: "c = Http2 (conn ?e)"
    and w: "hw_h2 w = pool_put (hw_clock (ts_world s)) key (Http2Connection_new t) (hw_h2 (ts_world s))"
    using assms(4) by (auto simp: finish_h2_def Idle_new_def)
  have j: "handshakes (ts_task s j) key" using assms(3) by simp
  have "queue_of (hw_h2 (ts_world s)) key = []" using hc_invD(4) [OF inv j] .
  then have q: "queue_of (hw_h2 (ts_world ?s)) key = [?e]" by (simp add: drop_guard_def w put_queue)
  have free: "\<not> handshakes (ts_task ?s i) key" for i using handshake_unique [OF inv j, of i] by auto
  have "\<exists>ss. length ss = length is \<and> (\<forall>n < length is. hc_step L acq self ((?s # ss) ! n) (ss ! n) \<and>
      (\<forall>i. ts_task (ss ! n) i = (if i \<in> set (take (Suc n) is) then Finished (Ok (Http2 (conn ?e))) else ts_task ?s i)))"
  proof (rule waiters_served [OF assms(1) hc_inv_step [OF assms(1) step inv] assms(6) _ free q])
    show "\<exists>io a. ts_task ?s i = Locking key io a" if "i \<in> set is" for i
      using assms(7) [OF that] assms(3) by (cases "i = j") auto
    show "healthy (sender_error L) (hw_env (ts_world ?s)) ?e"
      using assms(5) by (simp add: healthy_def drop_guard_def Idle_new_def Http2Connection_new_def)
  qed
  then obtain ss where ss: "length ss = length is" "\<And>n. n < length is \<Longrightarrow> hc_step L acq self ((?s # ss) ! n) (ss ! n)"
    "\<And>n i. n < length is \<Longrightarrow> ts_task (ss ! n) i = (if i \<in> set (take (Suc n) is) then Finished (Ok c) else ts_task ?s i)"
    unfolding c by blast
  have "hc_step L acq self ((s # ?s # ss) ! n) ((?s # ss) ! n) \<and>
      (\<forall>i. ts_task ((?s # ss) ! n) i = (if i \<in> set (take (Suc n) (j # is)) then Finished (Ok c) else ts_task s i))" if "n \<le> length is" for n
    using that step ss by (cases n) auto
  with ss(1) show ?thesis by (intro exI [of _ "?s # ss"]) simp
qed

text \<open>Task 0 of the example shakes hands, and task 1 arrives and waits.\<close>

definition two_tasks :: "(string, nat, nat, nat, nat, nat, string) hc_sys" where
  "two_tasks = ts_upd 1 (Locking ''a'' 5 0) (ts_world (demo_sys 0)) (demo_sys 0)"

lemma two_tasks_reach: "hc_reach demo_lib demo_acq demo_self two_tasks"
proof -
  let ?s = "demo_sys 0" and ?w = "ts_world (demo_sys 0)"
  have "try_pools (sender_error demo_lib) demo_self ''a'' ?w = Some (None, ?w)"
    by (simp add: try_pools_def try_h2_def try_get_def and_then_mut_def demo_self_def demo_sys_def demo_world_def
        is_config_auto_def is_config_h1_def is_config_h2_def PoolInner_new_def)
  then have "hc_step demo_lib demo_acq demo_self ?s (ts_upd 1 (Transport ''a'') ?w ?s)"
    by (intro hc_step.start_miss) (simp_all add: demo_sys_def)
  with demo_reach_handshaking have r: "hc_reach demo_lib demo_acq demo_self (ts_upd 1 (Transport ''a'') ?w ?s)"
    by (rule reachable.reach_step)
  have "take_lock (Semaphore_new demo_lib) ''a'' ?w = (0, ?w)"
    by (simp add: take_lock_def get_lock_def demo_sys_def demo_world_def hm_get_def)
  then have "hc_step demo_lib demo_acq demo_self (ts_upd 1 (Transport ''a'') ?w ?s)
      (ts_upd 1 (Locking ''a'' 5 0) ?w (ts_upd 1 (Transport ''a'') ?w ?s))"
    by (intro hc_step.transport_h2) (simp_all add: connect_to_h2_def is_config_h2_def demo_self_def)
  with r have "hc_reach demo_lib demo_acq demo_self (ts_upd 1 (Locking ''a'' 5 0) ?w (ts_upd 1 (Transport ''a'') ?w ?s))"
    by (rule reachable.reach_step)
  then show ?thesis by (simp add: two_tasks_def)
qed

theorem waiters_share_connection_witness:
  "\<exists>s1 s2. hc_step demo_lib demo_acq demo_self two_tasks s1 \<and> hc_step demo_lib demo_acq demo_self s1 s2
     \<and> ts_task s1 0 = Finished (Ok (Http2 (Http2Connection_new 3))) \<and> ts_task s1 1 = Locking ''a'' 5 0
     \<and> ts_task s2 1 = Finished (Ok (Http2 (Http2Connection_new 3)))"
proof -
  let ?w = "snd (finish_h2 (spawn_task demo_lib) ''a'' 3 () (ts_world two_tasks))" and ?c = "Http2 (Http2Connection_new 3)"
  have h: "ts_task two_tasks 0 = Handshaking ''a'' 3 0" by (simp add: two_tasks_def demo_sys_def)
  have f: "finish_h2 (spawn_task demo_lib) ''a'' 3 () (ts_world two_tasks) = (?c, ?w)"
    by (simp add: finish_h2_def)
  have ok: "sender_error demo_lib (hw_env ?w) 3 = None"
    by (simp add: finish_h2_def demo_lib_def two_tasks_def demo_sys_def demo_world_def)
  have l: "\<exists>io a. ts_task two_tasks i = Locking ''a'' io a" if "i \<in> set [1]" for i
    using that by (simp add: two_tasks_def)
  obtain ss where "length ss = Suc (length [1 :: nat])" and
    ss: "\<forall>n \<le> length [1 :: nat]. hc_step demo_lib demo_acq demo_self ((two_tasks # ss) ! n) (ss ! n) \<and>
      (\<forall>i. ts_task (ss ! n) i = (if i \<in> set (take (Suc n) (0 # [1])) then Finished (Ok ?c) else ts_task two_tasks i))"
    using waiters_share_connection [OF demo_law two_tasks_reach h f ok, of "[1]"] l by (auto simp del: take_Suc_Cons)
  moreover have "ts_task two_tasks 1 = Locking ''a'' 5 0" by (simp add: two_tasks_def)
  ultimately show ?thesis
    using ss [rule_format, of 0] ss [rule_format, of 1] by (intro exI [of _ "ss ! 0"] exI [of _ "ss ! 1"]) simp
qed

text \<open>
  Property C9. A session over HTTP/2: on a new connector, with a transport that negotiates HTTP/2 and
  a handshake that succeeds, the first exchange dials and shakes hands; all later exchanges with the
  key, whether their requests succeed or fail, go the same whatever the transport and the handshake
  would do, since neither is called again while the sender reports no error.
\<close>

theorem h2_session_shares:
  assumes build: "HttpConnector_new b c w0 = (self, w)" and inv: "rc_inv (hw_h1 w0)"
    and dial: "\<And>w. transport_connect L c key w = (Ok io, w\<lparr>hw_env := dialled (hw_env w)\<rparr>)"
    and h2: "is_alpn_h2 (get_conn_metadata L io)"
    and lock: "\<And>a w. \<exists>t. acquire L a w = (Ok (), w\<lparr>hw_connecting := t\<rparr>)"
    and shake: "\<And>w. handshake L b io w = (Ok (t, task), w\<lparr>hw_env := shaken (hw_env w)\<rparr>)"
    and ok: "\<And>e. sender_error L e t = None" and C: "h2_returns C2 nxt t"
  shows "\<exists>res w1 rs w2. http_exchange L C1 C2 nxt self key req w = Some (Ok (False, res), w1)
    \<and> (\<forall>tc hs. http_session (L\<lparr>transport_connect := tc, handshake := hs\<rparr>) C1 C2 nxt self key reqs w1
        = Some (map (\<lambda>r. Ok (False, r)) rs, w2))
    \<and> length rs = length reqs"
proof -
  obtain a where self: "h1_pool self = Some a" "connector self = c" "\<not> is_config_h2 self" and w: "holds a key [] w"
    by (rule new_connector_holds [OF build inv])
  have cfg: "h2_builder self = b" "is_config_auto self"
    using build by (auto simp: HttpConnector_new_def http_build_def is_config_auto_def split: prod.splits)
  obtain w1 where con: "HttpConnector_connect L self key w = Some (Ok (Http2 (Http2Connection_new t)), w1)"
    and w1: "shares key t w1"
    using connect_dials_h2 [where L = L and dialled = dialled and shaken = shaken,
        OF self(1,3) w dial [folded self(2)] h2 lock shake [folded cfg(1)]] by blast
  obtain res w2 where x: "http_exchange L C1 C2 nxt self key req w = Some (Ok (False, res), w2)" and w2: "shares key t w2"
    by (rule exchange_h2 [OF con w1 C])
  obtain rs w' where "\<forall>tc hs. http_session (L\<lparr>transport_connect := tc, handshake := hs\<rparr>) C1 C2 nxt self key reqs w2
      = Some (map (\<lambda>r. Ok (False, r)) rs, w')" "length rs = length reqs"
    using session_shares [where L = L, OF disjI1 [OF cfg(2)] ok C w2] by blast
  with x show ?thesis by blast
qed

text \<open>A transport that negotiates HTTP/2, and a client whose requests fail as soon as they have a body.\<close>

definition h2_lib :: "(unit, string, nat, nat, nat, unit, nat, unit, nat, unit, string) http_lib" where
  "h2_lib = lock_lib\<lparr>transport_connect := (\<lambda>_ _ w. (Ok 7, w\<lparr>hw_env := Suc (hw_env w)\<rparr>)),
     acquire := (\<lambda>_ w. (Ok (), w\<lparr>hw_connecting := hw_connecting w\<rparr>)),
     handshake := (\<lambda>_ io w. (Ok (io, ()), w\<lparr>hw_env := hw_env w\<rparr>)), sender_error := (\<lambda>_ _. None)\<rparr>"

definition refusing_client :: "(nat, nat, string, unit, unit, nat, string, unit, string) h2_client" where
  "refusing_client = idle_client\<lparr>send_data := (\<lambda>_ _ _ w. (Err ''refused'', w))\<rparr>"

lemma refusing_returns: "h2_returns refusing_client list_source t"
proof -
  have "send_body_loop list_source (\<lambda>d w. (Err ''refused'', w)) body w \<noteq> None" for body :: "(nat, string) result list" and w :: nat
    by (subst send_body_loop.simps) (cases body; auto split: sum.splits)
  then show ?thesis
    by (auto simp: h2_returns_def Http2Connection_send_request_def refusing_client_def idle_client_def io_return_def
        split: option.splits sum.splits prod.splits)
qed

theorem h2_session_shares_witness:
  "\<exists>res w1 rs w2.
     http_exchange h2_lib steady_codec refusing_client list_source (fst (HttpConnector_new () () demo_world)) ''a'' (''GET'', [])
         (snd (HttpConnector_new () () demo_world)) = Some (Ok (False, res), w1)
     \<and> http_session h2_lib steady_codec refusing_client list_source (fst (HttpConnector_new () () demo_world)) ''a''
         [(''PUT'', [Ok 1]), (''GET'', [])] w1 = Some (map (\<lambda>r. Ok (False, r)) rs, w2)
     \<and> length rs = 2"
proof -
  let ?n = "HttpConnector_new () () demo_world"
  have b: "HttpConnector_new () () demo_world = (fst ?n, snd ?n)" by simp
  have i: "rc_inv (hw_h1 demo_world)" by (simp add: demo_world_def)
  have d: "transport_connect h2_lib () ''a'' w = (Ok 7, w\<lparr>hw_env := Suc (hw_env w)\<rparr>)" for w by (simp add: h2_lib_def)
  have m: "is_alpn_h2 (get_conn_metadata h2_lib 7)" by (simp add: h2_lib_def lock_lib_def demo_lib_def is_alpn_h2_def)
  have l: "\<exists>t. acquire h2_lib a w = (Ok (), w\<lparr>hw_connecting := t\<rparr>)" for a w
    by (rule exI [of _ "hw_connecting w"]) (simp add: h2_lib_def)
  have h: "handshake h2_lib () 7 w = (Ok (7, ()), w\<lparr>hw_env := id (hw_env w)\<rparr>)" for w by (simp add: h2_lib_def)
  have e: "sender_error h2_lib e 7 = None" for e by (simp add: h2_lib_def)
  have same: "h2_lib\<lparr>transport_connect := transport_connect h2_lib, handshake := handshake h2_lib\<rparr> = h2_lib" by simp
  have two: "length [(''PUT'', [Ok 1 :: (nat, string) result]), (''GET'', [])] = 2" by simp
  from h2_session_shares [OF b i d m l h e refusing_returns, of steady_codec "(''GET'', [])" "[(''PUT'', [Ok 1]), (''GET'', [])]"]
  show ?thesis unfolding two using same by metis
qed

end
