(* ===== verification/Client_Programs.thy ===== *)
theory Client_Programs
  imports Http_Sharing Programs
begin

text \<open>
  Programs that use \<open>HttpConnector\<close>: the tests of \<open>src/http/connector.rs\<close> and the examples
  \<open>https_with_tcp\<close> and \<open>http_with_uds\<close>. They put the components together: URIs become addresses, the
  TLS connector runs over the TCP connector, the negotiated protocol decides between HTTP/1.1 and
  HTTP/2, connections are used repeatedly or go back to the pool. The network, the parsers and the
  accessors of responses are library code and arguments.
\<close>

section \<open>Libraries of a client\<close>

datatype http_version = HTTP_11 | HTTP_2_0

text \<open>
  \<open>h1_ops\<close> and \<open>h2_ops\<close> are the codec and the HTTP/2 client, \<open>from_http\<close> is the conversion of their
  error made by \<open>?\<close>; \<open>default_tls\<close> is the default configuration of TLS.
\<close>

record ('cd, 'd, 'w, 'tx, 'rf, 'st, 'b, 'rb, 'hd, 'body, 'p, 'e, 'te, 'sn, 'x, 'bd) client_lib =
  parse_uri :: "string \<Rightarrow> (uri_view, unit) result"
  parse_name :: "string \<Rightarrow> ('sn, unit) result"
  build_request :: "string \<Rightarrow> (string \<times> string) list \<Rightarrow> 'body \<Rightarrow> ('hd \<times> 'body, unit) result"
  no_payload :: 'body
  resp_status :: "'p \<Rightarrow> nat"
  resp_header :: "string \<Rightarrow> 'p \<Rightarrow> u8 list option"
  resp_version :: "'p \<Rightarrow> http_version"
  h1_ops :: "('cd, 'hd \<times> 'body, 'p, 'd, 'b, 'e) h1_codec"
  h2_ops :: "('w, 'tx, 'hd, 'rf, 'st, 'b, 'p, 'rb, 'e) h2_client"
  body_source :: "('body, 'b, 'e) source"
  from_http :: "'e \<Rightarrow> 'te"
  default_tls :: "'x client_config"
  default_h2 :: 'bd
  debug_parts :: "'p \<Rightarrow> string"
  println :: "string \<Rightarrow> 'w \<Rightarrow> 'w"

text \<open>The network: name resolution, TCP, and TLS on top of it.\<close>

record ('w, 'a, 's, 'ioe, 'te) tcp_net =
  net_resolve :: "('a, 'ioe) resolver"
  net_connect :: "('a list, 'ioe) result \<Rightarrow> ('w, 's, 'ioe) io"
  net_nodelay :: "'s \<Rightarrow> bool \<Rightarrow> ('w, unit, unit) io"
  net_from_io :: "'ioe \<Rightarrow> 'te"

record ('w, 'a, 's, 'ioe, 'te, 'sn, 'ts, 'x, 'tls) tls_net = "('w, 'a, 's, 'ioe, 'te) tcp_net" +
  net_handshake :: "'x client_config \<Rightarrow> 'sn \<Rightarrow> 's \<Rightarrow> ('w, 'ts, 'tls) io"
  net_alpn :: "'ts \<Rightarrow> u8 list option"
  net_tls_io :: "'ioe \<Rightarrow> 'tls"
  net_from_tls :: "'tls \<Rightarrow> 'te"

text \<open>The transport of \<open>HttpConnector<TcpConnector>\<close> and of \<open>HttpConnector<TlsConnector<TcpConnector>>\<close>.\<close>

definition tcp_transport :: "('w, 'a, 's, 'ioe, 'te, 'z) tcp_net_scheme \<Rightarrow> ('k \<Rightarrow> ('a list, 'ioe) result) \<Rightarrow> TcpConnector
    \<Rightarrow> ('w, 'k, 's, 'ioe) connector" where
  "tcp_transport N addrs c = TcpConnector_connect (\<lambda>key. net_connect N (addrs key)) (net_nodelay N) c"

definition tls_transport :: "('w, 'a, 's, 'ioe, 'te, 'sn, 'ts, 'x, 'tls) tls_net \<Rightarrow> (TcpConnector, 'x) TlsConnector
    \<Rightarrow> ('w, 'sn TcpTlsAddr, 'ts, 'te) connector" where
  "tls_transport N c key =
     io_map_err (net_from_tls N)
       (TlsConnector_connect (net_handshake N) (net_tls_io N) tta_sn
          \<lparr>inner_connector = tcp_transport N (TcpTlsAddr_to_socket_addrs (net_resolve N)) (get_inner_connector c),
           tls_connector = get_tls_connector c\<rparr> key)"

section \<open>Statements\<close>

text \<open>A constructor that changes the world, the call of \<open>connect\<close> with \<open>unwrap\<close>, a request, and a drop.\<close>

definition call :: "('w \<Rightarrow> 'a \<times> 'w) \<Rightarrow> ('w, 'a, 'e) prog" where
  "call f w = (case f w of (a, w') \<Rightarrow> Some (Value a, w'))"

definition http_connect :: "('c, 'k, 'io, 'cd, 'tx, 'bg, 's, 'b, 'w, 'he, 'te) http_lib \<Rightarrow> ('c, 'b) HttpConnector \<Rightarrow> 'k
    \<Rightarrow> (('k, 'cd, 'tx, 's, 'w) http_world, ('k, 'cd, 'tx) HttpConnection, 'te) prog" where
  "http_connect L self key w =
     (case HttpConnector_connect L self key w of None \<Rightarrow> None | Some (r, w') \<Rightarrow> unwrap r w')"

definition http_send :: "('cd, 'd, 'w, 'tx, 'rf, 'st, 'b, 'rb, 'hd, 'body, 'p, 'e, 'te, 'sn, 'x, 'bd) client_lib
    \<Rightarrow> ('k, 'cd, 'tx) HttpConnection \<Rightarrow> 'hd \<times> 'body
    \<Rightarrow> (('k, 'cd, 'tx, 's, 'w) http_world,
        (('p, ('b, 'e, 'rb) HttpBody) Response, 'e) result \<times> ('k, 'cd, 'tx) HttpConnection, 'te) prog" where
  "http_send U c req w =
     (case HttpConnection_send_request (h1_ops U) (h2_ops U) (body_source U) c req (hw_env w) of
        None \<Rightarrow> None
      | Some (Inl _) \<Rightarrow> Some (Panicked, w)
      | Some (Inr ((res, _), c', env)) \<Rightarrow> Some (Value (res, c'), w\<lparr>hw_env := env\<rparr>))"

definition drop_conn :: "('k, 'cd, 'tx) HttpConnection \<Rightarrow> (('k, 'cd, 'tx, 's, 'w) http_world, unit, 'y) prog" where
  "drop_conn c w = (case drop_connection c w of None \<Rightarrow> Some (Panicked, w) | Some w' \<Rightarrow> Some (Value (), w'))"

text \<open>The assertions on a response: its status and its content type.\<close>

definition check_response :: "('cd, 'd, 'w, 'tx, 'rf, 'st, 'b, 'rb, 'hd, 'body, 'p, 'e, 'te, 'sn, 'x, 'bd) client_lib
    \<Rightarrow> 'p \<Rightarrow> ('v, unit, 'te) prog" where
  "check_response U p =
     prog_then (assert_that (200 = resp_status U p))
    (prog_bind (unwrap_opt (resp_header U ''content-type'' p)) (\<lambda>header.
     assert_that (as_bytes ''application/json'' = header)))"

text \<open>One iteration of the loops over an open connection.\<close>

definition request_round :: "('cd, 'd, 'w, 'tx, 'rf, 'st, 'b, 'rb, 'hd, 'body, 'p, 'e, 'te, 'sn, 'x, 'bd) client_lib
    \<Rightarrow> http_version \<Rightarrow> ('k, 'cd, 'tx) HttpConnection
    \<Rightarrow> (('k, 'cd, 'tx, 's, 'w) http_world, ('k, 'cd, 'tx) HttpConnection, 'te) prog" where
  "request_round U version cn =
     prog_bind (unwrap (build_request U ''/get'' [(''Host'', ''httpbin.org'')] (no_payload U))) (\<lambda>req.
     prog_bind (http_send U cn req) (\<lambda>(res, cn').
     prog_bind (try_op (from_http U) res) (\<lambda>resp.
     prog_then (check_response U (resp_parts resp))
    (prog_then (assert_that (resp_version U (resp_parts resp) = version))
    (prog_return cn')))))"

section \<open>The programs\<close>

text \<open>The part that the tests over TLS share: a new connector, one connection, ten requests.\<close>

definition tls_client where
  "tls_client U L build version =
     prog_bind (call build) (\<lambda>self.
     prog_bind (unwrap (parse_uri U ''https://httpbin.org/get'')) (\<lambda>uri.
     prog_bind (unwrap (TcpTlsAddr_try_from (parse_name U) uri :: (_, (unit, unit) FromUriError) result)) (\<lambda>addr.
     prog_bind (http_connect L self addr) (\<lambda>cn.
     prog_bind (repeat_prog 10 (request_round U version) cn) (\<lambda>_. prog_return ())))))"

definition test_default_https_connector where
  "test_default_https_connector U L =
     tls_client U L (HttpConnector_default (default_h2 U) (TlsConnector_default (default_tls U) TcpConnector_default)) HTTP_2_0"

definition test_http2_tls_connector where
  "test_http2_tls_connector U L =
     tls_client U L (build_tls_http2_only (default_tls U) TcpConnector_default (default_h2 U)) HTTP_2_0"

definition test_http1_tls_connector where
  "test_http1_tls_connector U L =
     tls_client U L (build_tls_http1_only (default_tls U) TcpConnector_default (default_h2 U)) HTTP_11"

text \<open>The example \<open>https_with_tcp\<close>: both builders, the first with a limit on concurrent streams.\<close>

definition https_with_tcp_main where
  "https_with_tcp_main U max_concurrent_streams L =
     prog_then
       (tls_client U L
          (\<lambda>w. case build_tls_http2_only (default_tls U) TcpConnector_default (default_h2 U) w of
                 (self, w') \<Rightarrow> (set_h2_builder (max_concurrent_streams (150 :: 32 word)) self, w'))
          HTTP_2_0)
       (tls_client U L (build_tls_http1_only (default_tls U) TcpConnector_default (default_h2 U)) HTTP_11)"

text \<open>The key of the test over plain TCP, and one iteration of its loop: connect, request, drop.\<close>

record test_key =
  tk_host :: string
  tk_port :: u16

definition test_key_to_socket_addrs :: "('a, 'ioe) resolver \<Rightarrow> test_key \<Rightarrow> ('a list, 'ioe) result" where
  "test_key_to_socket_addrs resolve self = resolve (tk_host self) (tk_port self)"

definition uri_key :: "uri_view \<Rightarrow> ('w, test_key, 'e) prog" where
  "uri_key uri =
     prog_bind (unwrap_opt (uri_host uri)) (\<lambda>host.
     prog_return \<lparr>tk_host = host, tk_port = unwrap_or 80 (uri_port_u16 uri)\<rparr>)"

definition tcp_round where
  "tcp_round U L self =
     prog_bind (unwrap (parse_uri U ''http://httpbin.org/get'')) (\<lambda>uri.
     prog_bind (uri_key uri) (\<lambda>key.
     prog_bind (http_connect L self key) (\<lambda>cn.
     prog_bind (request_round U HTTP_11 cn) (\<lambda>cn'.
     drop_conn cn'))))"

definition test_http1_tcp_connector where
  "test_http1_tcp_connector U L =
     prog_bind (call (HttpConnector_default (default_h2 U) TcpConnector_default)) (\<lambda>self.
     repeat_prog 10 (\<lambda>_. tcp_round U L self) ())"

text \<open>The example \<open>http_with_uds\<close>: one request over a Unix socket.\<close>

definition UDS_PATH :: string where
  "UDS_PATH = ''./examples/uds.sock''"

definition http_with_uds_main where
  "http_with_uds_main U L =
     prog_bind (call (HttpConnector_default (default_h2 U) ())) (\<lambda>self.
     prog_bind (http_connect L self UDS_PATH) (\<lambda>cn.
     prog_bind (unwrap (build_request U ''/get'' [(''Host'', ''test''), (''Accept'', ''*/*'')] (no_payload U))) (\<lambda>req.
     prog_bind (http_send U cn req) (\<lambda>(res, cn').
     prog_bind (try_op (from_http U) res) (\<lambda>resp.
     prog_then (check_response U (resp_parts resp))
    (call (\<lambda>w. ((), w\<lparr>hw_env := println U (''resp header: '' @ debug_parts U (resp_parts resp)) (hw_env w)\<rparr>))))))))"

section \<open>A server that answers\<close>

text \<open>
  What the programs expect of the other side: requests can be built, every response has the status,
  the content type and the version of its protocol.
\<close>

definition good_response where
  "good_response U v p \<longleftrightarrow> resp_status U p = 200 \<and> resp_header U ''content-type'' p = Some (as_bytes ''application/json'')
     \<and> resp_version U p = v"

definition serves where
  "serves U \<longleftrightarrow>
     (\<forall>uri hs body. \<exists>req. build_request U uri hs body = Ok req) \<and>
     (\<forall>c req. Http1Connection_is_open c \<longrightarrow> (\<exists>p c'. Http1Connection_send_request (h1_ops U) c req = Some ((Ok p, False), c')
        \<and> good_response U HTTP_11 (resp_parts p))) \<and>
     (\<forall>c req w. \<exists>p b w'. Http2Connection_send_request (h2_ops U) (body_source U) c req w = Some ((Ok p, b), w')
        \<and> good_response U HTTP_2_0 (resp_parts p))"

text \<open>A connection of a protocol that can be used.\<close>

definition usable :: "http_version \<Rightarrow> ('k, 'cd, 'tx) HttpConnection \<Rightarrow> bool" where
  "usable v cn \<longleftrightarrow>
     (case cn of
        Http1 h \<Rightarrow> v = HTTP_11 \<and> (\<exists>c. p_value h = Some c \<and> Http1Connection_is_open c)
      | Http2 _ \<Rightarrow> v = HTTP_2_0)"

lemma check_good: "good_response U v p \<Longrightarrow> check_response U p w = Some (Value (), w)"
  by (simp add: check_response_def good_response_def prog_bind_def)

lemma send_usable:
  assumes "serves U" and "usable v cn"
  obtains resp cn' env where "http_send U cn req w = Some (Value (Ok resp, cn'), w\<lparr>hw_env := env\<rparr>)"
    "usable v cn'" "good_response U v (resp_parts resp)"
proof (cases cn)
  case (Http1 h)
  then obtain c where c: "p_value h = Some c" "Http1Connection_is_open c" and v: "v = HTTP_11"
    using assms(2) by (auto simp: usable_def)
  obtain p c' where s: "Http1Connection_send_request (h1_ops U) c req = Some ((Ok p, False), c')"
    and good: "good_response U HTTP_11 (resp_parts p)"
    using assms(1) c(2) unfolding serves_def by blast
  have "Http1Connection_is_open c'"
    using h1_send_request_frame(2,3) [OF s] c(2) by (simp add: Http1Connection_is_open_def is_ok_def)
  then show thesis
    using that [of "to_body H1Body p" "Http1 (h\<lparr>p_value := Some c'\<rparr>)" "hw_env w"] Http1 c s good v
    by (simp add: http_send_def HttpConnection_send_request_def usable_def to_body_def)
next
  case (Http2 c)
  then have v: "v = HTTP_2_0" using assms(2) by (simp add: usable_def)
  obtain p b w' where "Http2Connection_send_request (h2_ops U) (body_source U) c req (hw_env w) = Some ((Ok p, b), w')"
    "good_response U HTTP_2_0 (resp_parts p)"
    using assms(1) unfolding serves_def by blast
  then show thesis
    using that [of "to_body H2Body p" "Http2 c" w'] Http2 v
    by (simp add: http_send_def HttpConnection_send_request_def usable_def to_body_def)
qed

lemma round_usable:
  assumes "serves U" and "usable v cn"
  shows "\<exists>cn' w'. request_round U v cn w = Some (Value cn', w') \<and> usable v cn'"
proof -
  obtain req where req: "build_request U ''/get'' [(''Host'', ''httpbin.org'')] (no_payload U) = Ok req"
    using assms(1) unfolding serves_def by blast
  obtain resp cn' env where send: "http_send U cn req w = Some (Value (Ok resp, cn'), w\<lparr>hw_env := env\<rparr>)"
    and cn': "usable v cn'" and good: "good_response U v (resp_parts resp)"
    by (rule send_usable [OF assms])
  from good have "resp_version U (resp_parts resp) = v" by (simp add: good_response_def)
  with send cn' show ?thesis by (simp add: request_round_def req prog_bind_def check_good [OF good])
qed

lemma rounds_usable:
  assumes "serves U" and "usable v cn"
  shows "\<exists>cn' w'. repeat_prog n (request_round U v) cn w = Some (Value cn', w')"
  using repeat_prog_invariant [where ok = "\<lambda>c w. usable v c" and body = "request_round U v" and s = cn and w = w and n = n]
    round_usable [OF assms(1)] assms(2) by blast

section \<open>A network that connects\<close>

text \<open>A new connector over a transport that always succeeds; the negotiated protocol decides.\<close>

definition transport_up where
  "transport_up L c key h2 \<longleftrightarrow>
     (\<forall>w. \<exists>io w'. transport_connect L c key w = (Ok io, w') \<and> (is_alpn_h2 (get_conn_metadata L io) \<longleftrightarrow> h2))"

definition h2_up where
  "h2_up L \<longleftrightarrow> (\<forall>a w. \<exists>w'. acquire L a w = (Ok (), w')) \<and> (\<forall>b io w. \<exists>t w'. handshake L b io w = (Ok t, w'))"

lemma try_pools_new:
  assumes "http_build b c P_Auto w0 = (self, w)"
  obtains w1 where "try_pools err (self\<lparr>h2_builder := b'\<rparr>) key w = Some (None, w1)"
proof -
  let ?n = "rc_new (PoolInner_new None) (hw_h1 w0)"
  have self: "self = \<lparr>connector = c, protocol = P_Auto, h1_pool = Some (fst ?n), h2_builder = b\<rparr>"
    and w: "w = w0\<lparr>hw_h1 := snd ?n, hw_h2 := PoolInner_new None, hw_connecting := lt_new\<rparr>"
    using assms by (auto simp: http_build_def ConnectionPool_default_def ConnectionPool_new_def split: prod.splits)
  obtain p where h2: "try_h2 err key w = (None, w\<lparr>hw_h2 := p\<rparr>)"
    by (rule try_h2_empty [of w key err]) (simp_all add: w)
  have "rc_read (fst ?n) (hw_h1 w) = Some (PoolInner_new None)" by (simp add: w rc.read_alloc)
  then have "ConnectionPool_get (hw_clock w) (fst ?n) key (hw_h1 w)
      = Some (None, rc_write (fst ?n) (PoolInner_new None) (hw_h1 w))"
    by (simp add: ConnectionPool_get_def get_wf)
  then have "try_pools err (self\<lparr>h2_builder := b'\<rparr>) key w
      = Some (None, w\<lparr>hw_h2 := p, hw_h1 := rc_write (fst ?n) (PoolInner_new None) (hw_h1 w)\<rparr>)"
    by (simp add: try_pools_def h2 self is_config_auto_def is_config_h1_def try_h1_def)
  then show thesis by (rule that)
qed

lemma connect_usable:
  assumes build: "http_build b c P_Auto w0 = (self, w)"
    and up: "transport_up L c key h2" "h2_up L"
  shows "\<exists>cn w'. http_connect L (self\<lparr>h2_builder := b'\<rparr>) key w = Some (Value cn, w') \<and> usable (if h2 then HTTP_2_0 else HTTP_11) cn"
proof -
  let ?self = "self\<lparr>h2_builder := b'\<rparr>"
  have self: "\<exists>a. h1_pool ?self = Some a" "connector ?self = c" "\<not> is_config_h2 ?self"
    using build by (auto simp: http_build_def is_config_h2_def split: prod.splits)
  obtain w1 where p: "try_pools (sender_error L) ?self key w = Some (None, w1)"
    by (rule try_pools_new [OF build])
  obtain io w2 where t: "transport_connect L c key w1 = (Ok io, w2)" "is_alpn_h2 (get_conn_metadata L io) \<longleftrightarrow> h2"
    using up(1) unfolding transport_up_def by blast
  obtain r w3 where res: "after_transport L ?self key io w2 = (r, w3)" by fastforce
  have con: "http_connect L ?self key w = unwrap r w3"
    using res self t by (simp add: http_connect_def HttpConnector_connect_def p io_bind_def)
  show ?thesis
  proof (cases h2)
    case True
    obtain l w4 where l: "take_lock (Semaphore_new L) key w2 = (l, w4)" by fastforce
    obtain w5 where acq: "acquire L l w4 = (Ok (), w5)" using up(2) unfolding h2_up_def by blast
    obtain q w6 where q: "try_h2 (sender_error L) key w5 = (q, w6)" by fastforce
    obtain t' task w7 where hs: "handshake L b' io w6 = (Ok (t', task), w7)"
      using up(2) unfolding h2_up_def by (metis surj_pair)
    have "\<exists>x. r = Ok (Http2 x)"
      using res True t(2) l acq q hs
      by (cases q) (auto simp: after_transport_def connect_to_h2_def io_bind_def connect_locked_def finish_h2_def)
    with con True show ?thesis by (auto simp: usable_def)
  next
    case False
    then have "r = Ok (finish_h1 (ClientCodec_new L) ?self key io)"
      using res t(2) self(3) by (simp add: after_transport_def connect_to_h2_def)
    with con False self(1) show ?thesis
      by (auto simp: usable_def finish_h1_def ConnectionPool_link_def Pooled_new_def Http1Connection_is_open_def
          Http1Connection_new_def)
  qed
qed

text \<open>
  TLS over TCP: the name of the server resolves, a socket to its addresses opens, the handshake for
  its name succeeds, and the server speaks both protocols and prefers HTTP/2 among those that are
  advertised. Nothing is said of other names, ports and addresses.
\<close>

definition prefers_h2 :: "u8 list list \<Rightarrow> u8 list option" where
  "prefers_h2 ps =
     (if as_bytes ''h2'' \<in> set ps then Some (as_bytes ''h2'')
      else if as_bytes ''http/1.1'' \<in> set ps then Some (as_bytes ''http/1.1'') else None)"

definition net_reaches :: "('w, 'a, 's, 'ioe, 'te, 'z) tcp_net_scheme \<Rightarrow> string \<Rightarrow> u16 \<Rightarrow> bool" where
  "net_reaches N host port \<longleftrightarrow>
     (\<exists>as. net_resolve N host port = Ok as \<and> as \<noteq> [] \<and> (\<forall>w. \<exists>s w'. net_connect N (Ok as) w = (Ok s, w')))"

definition tls_up where
  "tls_up N host port name \<longleftrightarrow> net_reaches N host port \<and>
     (\<forall>cfg s w. \<exists>ts w'. net_handshake N cfg name s w = (Ok ts, w') \<and> net_alpn N ts = prefers_h2 (alpn_protocols cfg))"

definition over_tls where
  "over_tls N L = L\<lparr>transport_connect := tls_transport N, get_conn_metadata := TlsStream_get_conn_metadata (net_alpn N)\<rparr>"

lemma tcp_transport_ok:
  assumes "net_connect N (addrs key) w = (Ok s, w1)"
  shows "\<exists>w2. tcp_transport N addrs c key w = (Ok s, w2)"
  using assms by (cases "no_delay c"; cases "net_nodelay N s True w1") (auto simp: tcp_transport_def TcpConnector_connect_def io_defs)

lemma over_tls_up:
  assumes "tls_up N (tta_host key) (tta_port key) (tta_sn key)"
  shows "transport_up (over_tls N L) c key (as_bytes ''h2'' \<in> set (alpn_protocols (tls_connector c)))"
  unfolding transport_up_def
proof
  fix w
  obtain s w1 where s: "net_connect N (TcpTlsAddr_to_socket_addrs (net_resolve N) key) w = (Ok s, w1)"
    using assms unfolding tls_up_def net_reaches_def TcpTlsAddr_to_socket_addrs_def by metis
  obtain w2 where tcp: "tcp_transport N (TcpTlsAddr_to_socket_addrs (net_resolve N)) (inner_connector c) key w = (Ok s, w2)"
    using tcp_transport_ok [where addrs = "TcpTlsAddr_to_socket_addrs (net_resolve N)", OF s] by blast
  obtain ts w3 where ts: "net_handshake N (tls_connector c) (tta_sn key) s w2 = (Ok ts, w3)"
    "net_alpn N ts = prefers_h2 (alpn_protocols (tls_connector c))"
    using assms unfolding tls_up_def by blast
  have "transport_connect (over_tls N L) c key w = (Ok ts, w3)"
    using tcp ts(1) by (simp add: over_tls_def tls_transport_def get_inner_connector_def get_tls_connector_def
        TlsConnector_connect_def io_bind_def io_map_err_def)
  moreover have "is_alpn_h2 (get_conn_metadata (over_tls N L) ts)
      \<longleftrightarrow> as_bytes ''h2'' \<in> set (alpn_protocols (tls_connector c))"
    using ts(2) by (simp add: over_tls_def TlsStream_get_conn_metadata_def is_alpn_h2_set prefers_h2_def as_bytes_inj)
  ultimately show "\<exists>io w'. transport_connect (over_tls N L) c key w = (Ok io, w')
      \<and> (is_alpn_h2 (get_conn_metadata (over_tls N L) io) \<longleftrightarrow> as_bytes ''h2'' \<in> set (alpn_protocols (tls_connector c)))" by blast
qed

lemma tls_client_run:
  assumes "serves U" and "h2_up L" and "tls_up N ''httpbin.org'' 443 name"
    and "parse_uri U ''https://httpbin.org/get'' =
      Ok \<lparr>uri_host = Some ''httpbin.org'', uri_scheme = Some Scheme_HTTPS, uri_port_u16 = None\<rparr>"
    and "parse_name U ''httpbin.org'' = Ok name"
    and "http_build b c P_Auto w0 = (self, w)" and "build w0 = (self\<lparr>h2_builder := b'\<rparr>, w)"
    and "v = (if as_bytes ''h2'' \<in> set (alpn_protocols (tls_connector c)) then HTTP_2_0 else HTTP_11)"
  shows "\<exists>w'. tls_client U (over_tls N L) build v w0 = Some (Value (), w')"
proof -
  let ?addr = "\<lparr>tta_host = ''httpbin.org'', tta_port = 443, tta_sn = name\<rparr>"
  have addr: "(TcpTlsAddr_try_from (parse_name U)
      \<lparr>uri_host = Some ''httpbin.org'', uri_scheme = Some Scheme_HTTPS, uri_port_u16 = None\<rparr> :: (_, (unit, unit) FromUriError) result) = Ok ?addr"
    using assms(5) by (simp add: TcpTlsAddr_try_from_def unwrap_or_def)
  have up: "h2_up (over_tls N L)" using assms(2) by (simp add: h2_up_def over_tls_def)
  have reach: "transport_up (over_tls N L) c ?addr (as_bytes ''h2'' \<in> set (alpn_protocols (tls_connector c)))"
    by (rule over_tls_up) (simp add: assms(3))
  obtain cn w1 where con: "http_connect (over_tls N L) (self\<lparr>h2_builder := b'\<rparr>) ?addr w = Some (Value cn, w1)" and "usable v cn"
    using connect_usable [OF assms(6) reach up] assms(8) by blast
  then obtain cn' w2 where "repeat_prog 10 (request_round U v) cn w1 = Some (Value cn', w2)"
    using rounds_usable [OF assms(1)] by blast
  with con addr assms(4,7) show ?thesis by (simp add: tls_client_def call_def prog_bind_def)
qed

section \<open>The test over TCP\<close>

text \<open>A network that resolves a name, and that leaves a trace \<open>dialled\<close> of every socket it opens to its addresses.\<close>

definition tcp_dials where
  "tcp_dials N host port s dialled \<longleftrightarrow>
     (\<exists>as. net_resolve N host port = Ok as \<and> as \<noteq> [] \<and>
        (\<forall>w. net_connect N (Ok as) w = (Ok s, w\<lparr>hw_env := dialled (hw_env w)\<rparr>))) \<and>
     (\<forall>b w. \<exists>r. net_nodelay N s b w = (r, w))"

definition over_tcp where
  "over_tcp N L = L\<lparr>transport_connect := (\<lambda>c key. io_map_err (net_from_io N)
       (tcp_transport N (test_key_to_socket_addrs (net_resolve N)) c key)), get_conn_metadata := TcpStream_get_conn_metadata\<rparr>"

lemma over_tcp_dials:
  assumes "tcp_dials N (tk_host key) (tk_port key) s dialled"
  shows "transport_connect (over_tcp N L) c key w = (Ok s, w\<lparr>hw_env := dialled (hw_env w)\<rparr>)"
proof -
  let ?w = "w\<lparr>hw_env := dialled (hw_env w)\<rparr>"
  obtain r where "net_nodelay N s True ?w = (r, ?w)" "net_connect N (test_key_to_socket_addrs (net_resolve N) key) w = (Ok s, ?w)"
    using assms unfolding tcp_dials_def test_key_to_socket_addrs_def by metis
  then show ?thesis
    by (simp add: over_tcp_def tcp_transport_def TcpConnector_connect_def io_defs)
qed

lemma round_pooled:
  assumes "serves U" and "Http1Connection_is_open c"
  obtains c' where "request_round U HTTP_11 (Http1 (Pooled_new key c r a)) w = Some (Value (Http1 (Pooled_new key c' r a)), w)"
    "Http1Connection_is_open c'"
proof -
  obtain req where req: "build_request U ''/get'' [(''Host'', ''httpbin.org'')] (no_payload U) = Ok req"
    using assms(1) unfolding serves_def by blast
  obtain p c' where s: "Http1Connection_send_request (h1_ops U) c req = Some ((Ok p, False), c')"
    and good: "good_response U HTTP_11 (resp_parts p)"
    using assms unfolding serves_def by blast
  have "request_round U HTTP_11 (Http1 (Pooled_new key c r a)) w = Some (Value (Http1 (Pooled_new key c' r a)), w)"
    using s good by (simp add: request_round_def req http_send_def HttpConnection_send_request_def Pooled_new_def
        prog_bind_def check_good [OF good] to_body_def good_response_def)
  moreover have "Http1Connection_is_open c'"
    using h1_send_request_frame(2,3) [OF s] assms(2) by (simp add: Http1Connection_is_open_def is_ok_def)
  ultimately show thesis using that by blast
qed

text \<open>One iteration, given what \<open>connect\<close> does: the connection ends up in the pool.\<close>

lemma tcp_round_pools:
  assumes U: "serves U"
    and uri: "parse_uri U ''http://httpbin.org/get'' =
      Ok \<lparr>uri_host = Some ''httpbin.org'', uri_scheme = Some Scheme_HTTP, uri_port_u16 = None\<rparr>"
    and con: "HttpConnector_connect L self \<lparr>tk_host = ''httpbin.org'', tk_port = 80\<rparr> w
      = Some (Ok (Http1 (Pooled_new \<lparr>tk_host = ''httpbin.org'', tk_port = 80\<rparr> c r a)), w1)"
    and c: "Http1Connection_is_open c" and w1: "holds a \<lparr>tk_host = ''httpbin.org'', tk_port = 80\<rparr> [] w1"
  shows "\<exists>w2 c'. tcp_round U L self w = Some (Value (), w2)
    \<and> holds a \<lparr>tk_host = ''httpbin.org'', tk_port = 80\<rparr> [c'] w2 \<and> Http1Connection_is_open c' \<and> hw_env w2 = hw_env w1"
proof -
  let ?key = "\<lparr>tk_host = ''httpbin.org'', tk_port = 80\<rparr>"
  obtain c' where round: "request_round U HTTP_11 (Http1 (Pooled_new ?key c r a)) w1 = Some (Value (Http1 (Pooled_new ?key c' r a)), w1)"
    and c': "Http1Connection_is_open c'"
    by (rule round_pooled [OF U c]) (rule that)
  obtain w2 where w2: "drop_connection (Http1 (Pooled_new ?key c' r a)) w1 = Some w2" "holds a ?key [c'] w2"
    by (rule drop_holds [OF w1 c', where r = r]) (rule that)
  have "hw_env w2 = hw_env w1" using w2(1) by (auto simp: drop_connection_def split: sum.splits)
  moreover have "tcp_round U L self w = Some (Value (), w2)"
    using w2(1) by (simp add: tcp_round_def uri con http_connect_def round drop_conn_def prog_bind_def unwrap_or_def uri_key_def)
  ultimately show ?thesis using w2(2) c' by blast
qed

section \<open>The example over a Unix socket\<close>

definition over_unix where
  "over_unix unix_connect from_io L = L\<lparr>transport_connect := (\<lambda>_ key. io_map_err from_io (UnixConnector_connect unix_connect key)),
     get_conn_metadata := UnixStream_get_conn_metadata\<rparr>"

text \<open>It gets its response over HTTP/1.1 and prints the header.\<close>

lemma uds_client_passes:
  assumes "serves U" and "h2_up L" and "\<And>w. \<exists>s w'. unix_connect UDS_PATH w = (Ok s, w')"
  shows "\<exists>w'. http_with_uds_main U (over_unix unix_connect from_io L) w = Some (Value (), w')"
proof -
  let ?L = "over_unix unix_connect from_io L"
  have up: "transport_up ?L () UDS_PATH False" "h2_up ?L"
    using assms(2,3) by (auto simp: transport_up_def h2_up_def over_unix_def UnixConnector_connect_def io_map_err_def
        UnixStream_get_conn_metadata_def TransportConnMeta_default_def is_alpn_h2_def split: prod.splits)
      (metis Pair_inject res_map_err.simps)+
  obtain self w1 where b: "http_build (default_h2 U) () P_Auto w = (self, w1)" by fastforce
  obtain cn w2 where con: "http_connect ?L (self\<lparr>h2_builder := h2_builder self\<rparr>) UDS_PATH w1 = Some (Value cn, w2)" and cn: "usable HTTP_11 cn"
    using connect_usable [OF b up, of "h2_builder self"] by auto
  obtain req where req: "build_request U ''/get'' [(''Host'', ''test''), (''Accept'', ''*/*'')] (no_payload U) = Ok req"
    using assms(1) unfolding serves_def by blast
  obtain resp cn' env where send: "http_send U cn req w2 = Some (Value (Ok resp, cn'), w2\<lparr>hw_env := env\<rparr>)"
    and good: "good_response U HTTP_11 (resp_parts resp)"
    by (rule send_usable [OF assms(1) cn])
  show ?thesis
    using b con send by (simp add: http_with_uds_main_def HttpConnector_default_def HttpConnector_new_def call_def req
        prog_bind_def check_good [OF good])
qed

section \<open>Properties\<close>

text \<open>
  Property C12. The tests over TLS and the example \<open>https_with_tcp\<close> pass against a server that speaks both
  protocols, prefers HTTP/2 and answers: a default connector and one from \<open>build_tls_http2_only\<close>
  get HTTP/2 responses, one from \<open>build_tls_http1_only\<close> gets HTTP/1.1 ones, on all requests; nothing
  panics, no error is returned. The whole stack takes part, from the URI to the response.
\<close>

theorem tls_clients_pass:
  assumes "serves U" and "h2_up L" and "tls_up N ''httpbin.org'' 443 name"
    and "parse_uri U ''https://httpbin.org/get'' =
      Ok \<lparr>uri_host = Some ''httpbin.org'', uri_scheme = Some Scheme_HTTPS, uri_port_u16 = None\<rparr>"
    and "parse_name U ''httpbin.org'' = Ok name"
    and "client \<in> {test_default_https_connector U (over_tls N L), test_http2_tls_connector U (over_tls N L),
      test_http1_tls_connector U (over_tls N L), https_with_tcp_main U streams (over_tls N L)}"
  shows "\<exists>w'. client w = Some (Value (), w')"
proof -
  let ?L = "over_tls N L" and ?tls = "\<lambda>alpn. new_with_tls_default (default_tls U) TcpConnector_default (Some alpn)"
  have alpn: "alpn_protocols (tls_connector (?tls ps)) = map as_bytes ps" for ps
    by (simp add: new_with_tls_default_def TlsConnector_new_def)
  have run: "\<exists>w'. tls_client U ?L (\<lambda>w. case http_build (default_h2 U) (?tls ps) P_Auto w of (s, w') \<Rightarrow> (s\<lparr>h2_builder := f (h2_builder s)\<rparr>, w'))
      (if ''h2'' \<in> set ps then HTTP_2_0 else HTTP_11) w = Some (Value (), w')" for ps f w
  proof -
    obtain s w1 where b: "http_build (default_h2 U) (?tls ps) P_Auto w = (s, w1)" by fastforce
    have "as_bytes ''h2'' \<in> set (map as_bytes ps) \<longleftrightarrow> ''h2'' \<in> set ps" by (auto simp: as_bytes_inj)
    then show ?thesis
      by (intro tls_client_run [OF assms(1-5) b, where b' = "f (h2_builder s)"]) (simp_all add: b alpn)
  qed
  have same: "(\<lambda>w. case http_build b c p w of (s, w') \<Rightarrow> (s\<lparr>h2_builder := h2_builder s\<rparr>, w')) = http_build b c p" for b c p
    by (simp add: fun_eq_iff split: prod.splits)
  note h2 = run [where ps = "[''h2'']" and f = "\<lambda>b. b", unfolded same]
    and h1 = run [where ps = "[''http/1.1'']" and f = "\<lambda>b. b", unfolded same]
    and both = run [where ps = "[''h2'', ''http/1.1'']" and f = "\<lambda>b. b", unfolded same]
    and limited = run [where ps = "[''h2'']" and f = "streams 150"]
  obtain w1 where first: "tls_client U ?L (\<lambda>w. case http_build (default_h2 U) (?tls [''h2'']) P_Auto w of
      (s, w') \<Rightarrow> (s\<lparr>h2_builder := streams 150 (h2_builder s)\<rparr>, w')) HTTP_2_0 w = Some (Value (), w1)"
    using limited [of w] by auto
  have "\<exists>w'. https_with_tcp_main U streams ?L w = Some (Value (), w')"
    using first h1 [of w1] by (simp add: https_with_tcp_main_def build_tls_http1_only_def build_tls_http2_only_def
        set_h2_builder_def prog_bind_Value)
  then show ?thesis
    using assms(6) h1 [of w] h2 [of w] both [of w]
    by (auto simp: test_default_https_connector_def test_http2_tls_connector_def test_http1_tls_connector_def
        HttpConnector_default_def HttpConnector_new_def TlsConnector_default_def
        build_tls_http1_only_def build_tls_http2_only_def)
qed

text \<open>A server of both protocols for concrete runs. A TLS stream is the protocol it has negotiated, the parts of a response are its version.\<close>

definition demo_client ::
  "('cd, unit, nat, nat, unit, unit, nat, unit, string, (nat, string) result list, http_version, string, string, string, unit, unit) client_lib" where
  "demo_client =
     \<lparr>parse_uri = (\<lambda>s. Ok \<lparr>uri_host = Some ''httpbin.org'',
        uri_scheme = Some (if s = ''https://httpbin.org/get'' then Scheme_HTTPS else Scheme_HTTP), uri_port_u16 = None\<rparr>),
      parse_name = (\<lambda>h. Ok h), build_request = (\<lambda>uri hs body. Ok (uri, body)), no_payload = [],
      resp_status = (\<lambda>_. 200), resp_header = (\<lambda>_ _. Some (as_bytes ''application/json'')), resp_version = (\<lambda>v. v),
      h1_ops = \<lparr>send_and_flush = (\<lambda>_ cd. (Ok (), cd)), next_response = (\<lambda>cd. (Some (Ok (HTTP_11, PayloadDecoder_None)), cd)),
        next_data = (\<lambda>s. (None, s)), UnexpectedEof = ''eof''\<rparr>,
      h2_ops = \<lparr>tx_conn_error = (\<lambda>_ _. None), tx_ready = (\<lambda>t. io_return t), tx_send_request = (\<lambda>_ _ _. io_return ((), ())),
        send_data = (\<lambda>_ _ _. io_return ()), await_response = (\<lambda>_. io_return (HTTP_2_0, ())), Bytes_new = 0\<rparr>,
      body_source = (\<lambda>_. (None, [])), from_http = id, default_tls = \<lparr>alpn_protocols = [], cfg_rest = ()\<rparr>, default_h2 = (),
      debug_parts = (\<lambda>_. ''''), println = (\<lambda>_ n. n)\<rparr>"

lemma demo_client_serves: "serves demo_client"
proof -
  have "send_body_loop (\<lambda>_. (None, [])) (\<lambda>d :: nat. (io_return () :: (nat, unit, string) io)) body w = Some (Ok (), w)"
    for body :: "(nat, string) result list" and w :: nat
    by (subst send_body_loop.simps) simp
  then show ?thesis
    by (simp add: serves_def good_response_def demo_client_def Http1Connection_send_request_def
        Http2Connection_send_request_def io_return_def split: prod.splits) blast
qed

definition demo_tls_net ::
  "('w, string \<times> u16, unit, unit, string, string, u8 list option, unit, unit) tls_net" where
  "demo_tls_net =
     \<lparr>net_resolve = (\<lambda>h p. if h = ''httpbin.org'' then Ok [(h, p)] else Err ()),
      net_connect = (\<lambda>as w. (case as of Inr (_ # _) \<Rightarrow> Ok () | _ \<Rightarrow> Err (), w)), net_nodelay = (\<lambda>_ _ w. (Ok (), w)),
      net_from_io = (\<lambda>_. ''io''), net_handshake = (\<lambda>cfg _ _ w. (Ok (prefers_h2 (alpn_protocols cfg)), w)),
      net_alpn = id, net_tls_io = (\<lambda>_. ()), net_from_tls = (\<lambda>_. ''tls'')\<rparr>"

definition demo_http_lib :: "('c, 'k, 'io, 'io, nat, unit, nat, unit, nat, unit, string) http_lib" where
  "demo_http_lib =
     \<lparr>transport_connect = (\<lambda>_ _ w. (Err ''no network'', w)), get_conn_metadata = (\<lambda>_. TransportConnMeta_default),
      ClientCodec_new = id, handshake = (\<lambda>_ _ w. (Ok (hw_env w, ()), w)), spawn_task = (\<lambda>_ n. n),
      sender_error = (\<lambda>_ _. None), Semaphore_new = 1, acquire = (\<lambda>_ w. (Ok (), w)), release_permit = Suc\<rparr>"

theorem tls_clients_pass_witness:
  "\<exists>w'. test_http1_tls_connector demo_client (over_tls demo_tls_net demo_http_lib)
     \<lparr>hw_h1 = rc_empty, hw_h2 = PoolInner_new None, hw_connecting = lt_new, hw_clock = 0, hw_env = 5\<rparr> = Some (Value (), w')"
proof -
  have h2: "h2_up demo_http_lib" by (simp add: h2_up_def demo_http_lib_def)
  have tls: "tls_up demo_tls_net ''httpbin.org'' 443 ''httpbin.org''"
    by (simp add: tls_up_def net_reaches_def demo_tls_net_def)
  have uri: "parse_uri demo_client ''https://httpbin.org/get'' =
      Ok \<lparr>uri_host = Some ''httpbin.org'', uri_scheme = Some Scheme_HTTPS, uri_port_u16 = None\<rparr>"
    and name: "parse_name demo_client ''httpbin.org'' = Ok ''httpbin.org''" by (simp_all add: demo_client_def)
  show ?thesis by (rule tls_clients_pass [OF demo_client_serves h2 tls uri name, where streams = "\<lambda>_ b. b"]) simp
qed

text \<open>
  Property C13. The test over TCP passes and dials once: with a server that answers over HTTP/1.1, its ten
  iterations of connect, request and drop end without a panic or an error, and the network is used
  for one connection only, since all iterations but the first find it in the pool.
\<close>

theorem tcp_test_dials_once:
  assumes "serves U" and "tcp_dials N ''httpbin.org'' 80 s dialled" and "rc_inv (hw_h1 w)"
    and "parse_uri U ''http://httpbin.org/get'' =
      Ok \<lparr>uri_host = Some ''httpbin.org'', uri_scheme = Some Scheme_HTTP, uri_port_u16 = None\<rparr>"
  shows "\<exists>w'. test_http1_tcp_connector U (over_tcp N L) w = Some (Value (), w') \<and> hw_env w' = dialled (hw_env w)"
proof -
  let ?key = "\<lparr>tk_host = ''httpbin.org'', tk_port = 80\<rparr>" and ?L = "over_tcp N L"
  have dials: "tcp_dials N (tk_host ?key) (tk_port ?key) s dialled" using assms(2) by simp
  obtain self w0 where b: "HttpConnector_new (default_h2 U) TcpConnector_default w = (self, w0)" by fastforce
  obtain a where self: "h1_pool self = Some a" "connector self = TcpConnector_default" "\<not> is_config_h2 self" and w0: "holds a ?key [] w0"
    by (rule new_connector_holds [OF b assms(3)])
  have env0: "hw_env w0 = hw_env w"
    using b by (auto simp: HttpConnector_new_def http_build_def split: prod.splits)
  define e where "e = dialled (hw_env w)"
  obtain w1 where p: "try_pools (sender_error ?L) self ?key w0 = Some (None, w1)" "holds a ?key [] w1" "hw_env w1 = hw_env w0"
    using try_pools_holds [OF self(1,3) w0, of "sender_error ?L"] by auto
  let ?c = "Http1Connection_new (ClientCodec_new ?L s)"
  have meta: "get_conn_metadata ?L s = TransportConnMeta_default" by (simp add: over_tcp_def TcpStream_get_conn_metadata_def)
  have first: "HttpConnector_connect ?L self ?key w0 = Some (Ok (Http1 (Pooled_new ?key ?c False a)), w1\<lparr>hw_env := e\<rparr>)"
    using self p(3) env0
    by (simp add: HttpConnector_connect_def p(1) io_bind_def over_tcp_dials [where key = ?key, OF dials] after_transport_def connect_to_h2_def meta
        TransportConnMeta_default_def is_alpn_h2_def finish_h1_def ConnectionPool_link_def e_def)
  have op: "Http1Connection_is_open ?c" by (simp add: Http1Connection_is_open_def Http1Connection_new_def)
  let ?ok = "\<lambda>(_ :: unit) w. hw_env w = e \<and> (\<exists>c. holds a ?key [c] w \<and> Http1Connection_is_open c)"
  obtain w2 where r1: "tcp_round U ?L self w0 = Some (Value (), w2)" and w2: "?ok () w2"
    using tcp_round_pools [OF assms(1,4) first op] p(2) by auto
  have step: "\<exists>u' w'. tcp_round U ?L self w = Some (Value u', w') \<and> ?ok u' w'" if inv: "?ok u w" for u :: unit and w
  proof -
    obtain c where c: "holds a ?key [c] w" "Http1Connection_is_open c" "hw_env w = e" using inv by blast
    obtain w1 where p: "try_pools (sender_error ?L) self ?key w = Some (Some (Http1 (Pooled_new ?key c True a)), w1)"
      "holds a ?key [] w1" "hw_env w1 = e"
      using try_pools_holds [OF self(1,3) c(1), of "sender_error ?L"] c(3) by auto
    have "HttpConnector_connect ?L self ?key w = Some (Ok (Http1 (Pooled_new ?key c True a)), w1)"
      by (simp add: HttpConnector_connect_def p(1))
    from tcp_round_pools [OF assms(1,4) this c(2) p(2)] p(3) show ?thesis by auto
  qed
  obtain w3 where "repeat_prog 9 (\<lambda>_. tcp_round U ?L self) () w2 = Some (Value (), w3)" "hw_env w3 = e"
    using repeat_prog_invariant [where ok = ?ok and body = "\<lambda>_. tcp_round U ?L self" and n = 9, OF step w2] by auto
  moreover have "repeat_prog (Suc 9) (\<lambda>_. tcp_round U ?L self) () w0 = repeat_prog 9 (\<lambda>_. tcp_round U ?L self) () w2"
    unfolding repeat_prog.simps by (rule prog_bind_Value) (rule r1)
  ultimately show ?thesis
    using b by (auto simp: test_http1_tcp_connector_def call_def HttpConnector_default_def prog_bind_def e_def)
qed

definition demo_tcp_net :: "((test_key, 'cd, 'tx, 's, nat) http_world, string \<times> u16, nat, unit, string) tcp_net" where
  "demo_tcp_net =
     \<lparr>net_resolve = (\<lambda>h p. if h = ''httpbin.org'' then Ok [(h, p)] else Err ()),
      net_connect = (\<lambda>as w. case as of Inr (_ # _) \<Rightarrow> (Ok 3, w\<lparr>hw_env := Suc (hw_env w)\<rparr>) | _ \<Rightarrow> (Err (), w)),
      net_nodelay = (\<lambda>_ _ w. (Ok (), w)), net_from_io = (\<lambda>_. ''io'')\<rparr>"

theorem tcp_test_dials_once_witness:
  "\<exists>w'. test_http1_tcp_connector demo_client (over_tcp demo_tcp_net demo_http_lib)
       \<lparr>hw_h1 = rc_empty, hw_h2 = PoolInner_new None, hw_connecting = lt_new, hw_clock = 0, hw_env = 5\<rparr> = Some (Value (), w')
     \<and> hw_env w' = 6"
proof -
  let ?w = "\<lparr>hw_h1 = rc_empty, hw_h2 = PoolInner_new None, hw_connecting = lt_new, hw_clock = 0, hw_env = 5\<rparr>
    :: (test_key, nat, nat, nat, nat) http_world"
  have d: "tcp_dials demo_tcp_net ''httpbin.org'' 80 3 Suc" by (simp add: tcp_dials_def demo_tcp_net_def)
  have i: "rc_inv (hw_h1 ?w)" by simp
  have u: "parse_uri demo_client ''http://httpbin.org/get'' =
      Ok \<lparr>uri_host = Some ''httpbin.org'', uri_scheme = Some Scheme_HTTP, uri_port_u16 = None\<rparr>" by (simp add: demo_client_def)
  from tcp_test_dials_once [where dialled = Suc, OF demo_client_serves d i u, of demo_http_lib] show ?thesis by simp
qed

end
