(* ===== verification/Example_Programs.thy ===== *)
theory Example_Programs
  imports Client_Programs
begin

text \<open>
  The example \<open>http_with_tcp\<close>, a client over plain TCP for both protocols with its own HTTP/2 server, the
  HTTP/2 server of the tests of \<open>src/http/hyper/mod.rs\<close>, and the example \<open>demo_unix_server\<close>. The server side
  of the HTTP/2 library, listeners and the executor are arguments; a spawned task is handed to the
  executor.
\<close>

section \<open>HTTP/2 servers\<close>

record ('w, 'io, 'cn, 'rq, 'rsp, 'snd, 'rb, 'd, 'e) h2_server =
  sv_handshake :: "'io \<Rightarrow> ('w, 'cn, 'e) io"
  sv_accept :: "'cn \<Rightarrow> 'w \<Rightarrow> ('rq \<times> 'rsp, 'e) result option \<times> 'w"
  sv_spawn :: "'rq \<times> 'rsp \<Rightarrow> 'w \<Rightarrow> 'w"
  sv_body :: "'rq \<Rightarrow> 'rb"
  sv_next_data :: "('rb, 'd, 'e) source"
  sv_send_response :: "'rsp \<Rightarrow> bool \<Rightarrow> ('w, 'snd, 'e) io"
  sv_send_data :: "'snd \<Rightarrow> string \<Rightarrow> bool \<Rightarrow> ('w, unit, 'e) io"
  sv_debug_request :: "'rq \<Rightarrow> string"
  sv_debug_data :: "'d \<Rightarrow> string"
  sv_display_error :: "'e \<Rightarrow> string"
  sv_debug_error :: "'e \<Rightarrow> string"
  sv_println :: "string \<Rightarrow> 'w \<Rightarrow> 'w"

text \<open>\<open>while let Some(result) = connection.accept().await\<close>: a failed accept leaves the function.\<close>

partial_function (option) accept_requests :: "('cn \<Rightarrow> 'w \<Rightarrow> ('q, 'e) result option \<times> 'w) \<Rightarrow> ('q \<Rightarrow> 'w \<Rightarrow> 'w) \<Rightarrow> 'cn
    \<Rightarrow> ('w, unit, 'e) prog" where
  "accept_requests accept spawn cn w =
     (case fst (accept cn w) of
        None \<Rightarrow> Some (Value (), snd (accept cn w))
      | Some (Inl e) \<Rightarrow> Some (Returned e, snd (accept cn w))
      | Some (Inr q) \<Rightarrow> accept_requests accept spawn cn (spawn q (snd (accept cn w))))"

definition serve_h2 where
  "serve_h2 S io =
     prog_bind (await (sv_handshake S io)) (\<lambda>r.
     prog_bind (try_op id r) (\<lambda>cn.
     prog_then (call (\<lambda>w. ((), sv_println S ''H2 connection bound'' w)))
    (prog_then (accept_requests (sv_accept S) (sv_spawn S) cn)
    (call (\<lambda>w. ((), sv_println S ''~~~~~~~~~~~ H2 connection CLOSE !!!!!! ~~~~~~~~~~~'' w))))))"

text \<open>The server of the tests converts the socket first.\<close>

definition hyper_serve_h2 where
  "hyper_serve_h2 into_poll_io S io =
     prog_bind (await (into_poll_io io)) (\<lambda>r.
     prog_bind (try_op id r) (serve_h2 S))"

text \<open>The loop over the data of a request, with what is done for each piece.\<close>

partial_function (option) receive_body :: "('rb, 'd, 'e) source \<Rightarrow> ('d \<Rightarrow> 'w \<Rightarrow> 'w) \<Rightarrow> 'rb \<Rightarrow> ('w, unit, 'e) prog" where
  "receive_body nxt on_data body w =
     (case nxt body of
        (r, body') \<Rightarrow>
          (case r of
             None \<Rightarrow> Some (Value (), w)
           | Some (Inl e) \<Rightarrow> Some (Returned e, w)
           | Some (Inr d) \<Rightarrow> receive_body nxt on_data body' (on_data d w)))"

text \<open>The answer of both servers.\<close>

definition answer_hello where
  "answer_hello S respond =
     prog_bind (await (sv_send_response S respond False)) (\<lambda>r.
     prog_bind (try_op id r) (\<lambda>send.
     prog_then (call (\<lambda>w. ((), sv_println S ''>>>> send'' w)))
    (prog_bind (await (sv_send_data S send ''hello '' False)) (\<lambda>r.
     prog_then (try_op id r)
    (prog_bind (await (sv_send_data S send (''world'' @ [CHR 0x0A]) True)) (\<lambda>r.
     try_op id r))))))"

definition print_data where
  "print_data S d = sv_println S (''<<<< recv '' @ sv_debug_data S d)"

definition handle_request_h2 where
  "handle_request_h2 S request respond =
     prog_then (call (\<lambda>w. ((), sv_println S (''GOT request: '' @ sv_debug_request S request) w)))
    (prog_then (receive_body (sv_next_data S) (print_data S) (sv_body S request))
    (answer_hello S respond))"

text \<open>The handler of the tests also gives back the capacity of the stream and ignores the result.\<close>

definition hyper_handle_request_h2 where
  "hyper_handle_request_h2 S release_capacity request respond =
     prog_then (call (\<lambda>w. ((), sv_println S (''GOT request: '' @ sv_debug_request S request) w)))
    (prog_then (receive_body (sv_next_data S) (\<lambda>d w. snd (release_capacity d (print_data S d w))) (sv_body S request))
    (answer_hello S respond))"

text \<open>The task that is spawned for a request prints the error of the handler.\<close>

definition report_error where
  "report_error S m w =
     (case m w of
        Some (Returned e, w') \<Rightarrow> Some (Value (), sv_println S (''error while handling request: '' @ sv_display_error S e) w')
      | r \<Rightarrow> r)"

text \<open>
  One round of the loop that accepts sockets, the same in the example and in the tests: a failed accept
  is ignored. The task that is spawned for a socket prints the error of its server.
\<close>

definition accept_round :: "('w, 's, unit) io \<Rightarrow> ('s \<Rightarrow> 'w \<Rightarrow> 'w) \<Rightarrow> 'w \<Rightarrow> 'w" where
  "accept_round accept spawn w = (case accept w of (Inl _, w') \<Rightarrow> w' | (Inr socket, w') \<Rightarrow> spawn socket w')"

definition socket_task where
  "socket_task S serve socket w =
     (case serve socket w of
        Some (Returned e, w') \<Rightarrow> Some (Value (), sv_println S (''  -> err='' @ sv_debug_error S e) w')
      | r \<Rightarrow> r)"

section \<open>The example over plain TCP\<close>

text \<open>What the example uses besides the libraries of a client: a listener, and the bodies of responses.\<close>

record ('w, 'l, 'rb, 'b, 'e, 'body) example_lib =
  ex_bind :: "string \<Rightarrow> ('w, 'l, unit) io"
  ex_local_addr :: "'l \<Rightarrow> string"
  ex_spawn_server :: "'l \<Rightarrow> 'w \<Rightarrow> 'w"
  ex_fixed_body :: "string \<Rightarrow> 'body"
  ex_next_data :: "('rb, 'b, 'e) source"
  ex_debug_chunk :: "('b, 'e) result \<Rightarrow> string"
  ex_status :: "nat \<Rightarrow> string"

definition say where
  "say U line = call (\<lambda>w. ((), w\<lparr>hw_env := println U line (hw_env w)\<rparr>))"

text \<open>\<open>while let Some(chunk) = body.next_data().await\<close>: errors are printed like data.\<close>

partial_function (option) print_chunks :: "('rb, 'b, 'e) source \<Rightarrow> (('b, 'e) result \<Rightarrow> 'w \<Rightarrow> 'w) \<Rightarrow> 'rb \<Rightarrow> ('w, unit, 'te) prog" where
  "print_chunks nxt print body w =
     (case nxt body of
        (r, body') \<Rightarrow>
          (case r of
             None \<Rightarrow> Some (Value (), w)
           | Some chunk \<Rightarrow> print_chunks nxt print body' (print chunk w)))"

definition h2_example_round where
  "h2_example_round U X L self key =
     prog_bind (http_connect L self key) (\<lambda>cn.
     prog_bind (unwrap (build_request U ''http://127.0.0.1:5928/get'' [] (ex_fixed_body X ''hello world''))) (\<lambda>req.
     prog_bind (http_send U cn req) (\<lambda>(res, cn').
     prog_bind (unwrap res) (\<lambda>resp.
     prog_then (say U (''H2 Response status: '' @ ex_status X (resp_status U (resp_parts resp))))
    (prog_then (print_chunks (ex_next_data X)
        (\<lambda>chunk w. w\<lparr>hw_env := println U (''GOT CHUNK = '' @ ex_debug_chunk X chunk) (hw_env w)\<rparr>) (resp_body resp))
    (drop_conn cn'))))))"

definition http_with_tcp_main where
  "http_with_tcp_main U X L =
     prog_bind (call (HttpConnector_default (default_h2 U) TcpConnector_default)) (\<lambda>self.
     prog_bind (unwrap (parse_uri U ''http://httpbin.org/get'')) (\<lambda>uri.
     prog_bind (uri_key uri) (\<lambda>key.
     prog_bind (http_connect L self key) (\<lambda>cn.
     prog_bind (unwrap (build_request U ''/get'' [(''Host'', ''httpbin.org'')] (no_payload U))) (\<lambda>req.
     prog_bind (http_send U cn req) (\<lambda>(res, cn').
     prog_bind (try_op (from_http U) res) (\<lambda>resp.
     prog_then (check_response U (resp_parts resp))
    (prog_then (say U (''resp header: '' @ debug_parts U (resp_parts resp)))
    (prog_bind (await (\<lambda>w. case ex_bind X ''127.0.0.1:5928'' (hw_env w) of (r, e) \<Rightarrow> (r, w\<lparr>hw_env := e\<rparr>))) (\<lambda>r.
     prog_bind (unwrap r) (\<lambda>listener.
     prog_then (say U (''listening on '' @ ex_local_addr X listener))
    (prog_then (call (\<lambda>w. ((), w\<lparr>hw_env := ex_spawn_server X listener (hw_env w)\<rparr>)))
    (prog_bind (unwrap (parse_uri U ''http://127.0.0.1:5928/get'')) (\<lambda>uri.
     prog_bind (uri_key uri) (\<lambda>key.
     prog_bind (call (build_tcp_http2_only (default_h2 U))) (\<lambda>self.
     repeat_prog 3 (\<lambda>_. h2_example_round U X L self key) ()))))))))))))))))"

section \<open>The server on a Unix socket\<close>

definition RESP :: string where
  "RESP = ''HTTP/1.1 200 OK'' @ [CHR 0x0D, CHR 0x0A] @ ''Content-Length: 17'' @ [CHR 0x0D, CHR 0x0A]
     @ ''Content-Type: application/json'' @ [CHR 0x0D, CHR 0x0A] @ ''Server: hertz'' @ [CHR 0x0D, CHR 0x0A]
     @ [CHR 0x0D, CHR 0x0A] @ [CHR 0x7B, CHR 0x22] @ ''hello'' @ [CHR 0x22, CHR 0x3A, CHR 0x22] @ ''world'' @ [CHR 0x22, CHR 0x7D]"

text \<open>\<open>read\<close> takes the capacity of the buffer and returns the count and the buffer.\<close>

record ('w, 's, 'l) unix_server =
  us_remove_file :: "string \<Rightarrow> ('w, unit, unit) io"
  us_bind :: "string \<Rightarrow> ('w, 'l, unit) io"
  us_accept :: "'l \<Rightarrow> ('w, 's, unit) io"
  us_spawn :: "'s \<Rightarrow> 'w \<Rightarrow> 'w"
  us_read :: "'s \<Rightarrow> nat \<Rightarrow> 'w \<Rightarrow> ((nat, unit) result \<times> u8 list) \<times> 'w"
  us_write_all :: "'s \<Rightarrow> string \<Rightarrow> ('w, unit, unit) io"
  us_println :: "string \<Rightarrow> 'w \<Rightarrow> 'w"
  us_count :: "nat \<Rightarrow> string"
  us_lossy :: "u8 list \<Rightarrow> string"

definition uds_handle where
  "uds_handle S stream =
     prog_bind (call (us_read S stream 1024)) (\<lambda>(res, buffer).
     prog_bind (unwrap res) (\<lambda>n.
     prog_then (call (\<lambda>w. ((), us_println S (''read '' @ us_count S n @ '' bytes'') w)))
    (prog_then (assert_that (n \<le> length buffer))
    (prog_then (call (\<lambda>w. ((), us_println S (''read: '' @ us_lossy S (take n buffer)) w)))
    (prog_bind (await (us_write_all S stream RESP)) (\<lambda>res.
     prog_then (unwrap res) (prog_return ())))))))"

partial_function (option) uds_accept_loop :: "('l \<Rightarrow> ('w, 's, unit) io) \<Rightarrow> ('s \<Rightarrow> 'w \<Rightarrow> 'w) \<Rightarrow> 'l \<Rightarrow> ('w, unit, 'e) prog" where
  "uds_accept_loop accept spawn listener w =
     (case fst (accept listener w) of
        Inl _ \<Rightarrow> Some (Panicked, snd (accept listener w))
      | Inr stream \<Rightarrow> uds_accept_loop accept spawn listener (spawn stream (snd (accept listener w))))"

definition demo_unix_server_main where
  "demo_unix_server_main S =
     prog_bind (await (us_remove_file S UDS_PATH)) (\<lambda>_.
     prog_then (call (\<lambda>w. ((), us_println S (''listen on '' @ [CHR 0x22] @ UDS_PATH @ [CHR 0x22]) w)))
    (prog_bind (await (us_bind S UDS_PATH)) (\<lambda>r.
     prog_bind (unwrap r) (uds_accept_loop (us_accept S) (us_spawn S)))))"

section \<open>Runs of the servers\<close>

lemma receive_body_ends:
  "ends_with nxt body ds body' \<Longrightarrow> receive_body nxt on_data body w = Some (Value (), fold on_data ds w)"
proof (induction ds arbitrary: body w)
  case Nil
  then show ?case by (subst receive_body.simps) simp
next
  case (Cons d ds)
  then obtain b where "nxt body = (Some (Inr d), b)" "ends_with nxt b ds body'" by (auto simp: ends_with_Cons)
  then show ?case using Cons.IH by (subst receive_body.simps) simp
qed

lemma receive_body_fails:
  "fails_with nxt body ds e body' \<Longrightarrow> receive_body nxt on_data body w = Some (Returned e, fold on_data ds w)"
proof (induction ds arbitrary: body w)
  case Nil
  then show ?case by (subst receive_body.simps) simp
next
  case (Cons d ds)
  then obtain b where "nxt body = (Some (Inr d), b)" "fails_with nxt b ds e body'" by (auto simp: fails_with_Cons)
  then show ?case using Cons.IH by (subst receive_body.simps) simp
qed

text \<open>The loop over frames prints in order; the loop over chunks too.\<close>

lemma print_chunks_ends:
  "ends_with nxt body ds body' \<Longrightarrow> print_chunks nxt print body w = Some (Value (), fold (\<lambda>d. print (Ok d)) ds w)"
proof (induction ds arbitrary: body w)
  case Nil
  then show ?case by (subst print_chunks.simps) simp
next
  case (Cons d ds)
  then obtain b where "nxt body = (Some (Inr d), b)" "ends_with nxt b ds body'" by (auto simp: ends_with_Cons)
  then show ?case using Cons.IH by (subst print_chunks.simps) simp
qed

text \<open>The accept loop of a connection spawns every request in order, until the peer closes or an accept fails.\<close>

lemma accept_requests_ends:
  assumes "\<And>xs w. accept cn (xs, w) = (case xs of [] \<Rightarrow> (None, ([], w)) | x # ys \<Rightarrow> (Some x, (ys, w)))"
    and "\<And>q xs w. spawn q (xs, w) = (xs, w @ [q])"
  shows "accept_requests accept spawn cn (map Inr qs, w) = Some (Value (), ([], w @ qs))"
    and "accept_requests accept spawn cn (map Inr qs @ Inl e # xs, w) = Some (Returned e, (xs, w @ qs))"
proof -
  show "accept_requests accept spawn cn (map Inr qs, w) = Some (Value (), ([], w @ qs))"
    by (induction qs arbitrary: w; subst accept_requests.simps) (simp_all add: assms)
  show "accept_requests accept spawn cn (map Inr qs @ Inl e # xs, w) = Some (Returned e, (xs, w @ qs))"
    by (induction qs arbitrary: w; subst accept_requests.simps) (simp_all add: assms)
qed

text \<open>A task for a socket never returns an error, so that a bad client does not end the accept loop.\<close>

lemma tasks_report:
  "socket_task S serve socket w = Some (r, w') \<Longrightarrow> r \<noteq> Returned e"
  "report_error S m w = Some (r', w') \<Longrightarrow> r' \<noteq> Returned e"
  by (auto simp: socket_task_def report_error_def split: option.splits outcome.splits)

text \<open>Rounds of the accept loop spawn a task for exactly the sockets that were accepted, in order.\<close>

lemma accept_rounds_spawn:
  assumes "\<And>xs w. accept (xs, w) = (case xs of [] \<Rightarrow> (Inl (), ([], w)) | x # ys \<Rightarrow> (x, (ys, w)))"
    and "\<And>q xs w. spawn q (xs, w) = (xs, w @ [q])"
  shows "(accept_round accept spawn ^^ length xs) (xs, w) = ([], w @ concat (map (\<lambda>x. case x of Inl _ \<Rightarrow> [] | Inr q \<Rightarrow> [q]) xs))"
  by (induction xs arbitrary: w) (auto simp: accept_round_def assms funpow_Suc_right simp del: funpow.simps(2) split: sum.splits)

text \<open>The accept loop of the Unix server has no other end than a panic.\<close>

lemma uds_accept_loop_ends: "uds_accept_loop accept spawn listener w = Some y \<Longrightarrow> fst y = Panicked"
  by (rule uds_accept_loop.raw_induct [where P = "\<lambda>_ _ _ _ y. fst y = Panicked"]) (auto split: sum.splits)

lemma uds_server_ends: "demo_unix_server_main S w = Some (r, w') \<Longrightarrow> r = Panicked"
  by (auto simp: demo_unix_server_main_def prog_bind_def await_def call_def unwrap_def
      dest: uds_accept_loop_ends split: prod.splits sum.splits option.splits outcome.splits)

lemma RESP_wellformed:
  "length RESP = 103" "drop 86 RESP = [CHR 0x7B, CHR 0x22] @ ''hello'' @ [CHR 0x22, CHR 0x3A, CHR 0x22] @ ''world'' @ [CHR 0x22, CHR 0x7D]"
  "length (drop 86 RESP) = 17" "take 4 (drop 82 RESP) = [CHR 0x0D, CHR 0x0A, CHR 0x0D, CHR 0x0A]"
  by (simp_all add: RESP_def)

section \<open>Runs of the client\<close>

text \<open>A connector that is configured for HTTP/2 gives an HTTP/2 connection whatever its pool and the transport say.\<close>

lemma connect_h2_only:
  assumes cfg: "is_config_h2 self" and up: "transport_up L (connector self) key h2" "h2_up L"
  shows "\<exists>c w'. http_connect L self key w = Some (Value (Http2 c), w')"
proof -
  have other: "\<not> is_config_auto self" "\<not> is_config_h1 self"
    using cfg by (auto simp: is_config_h2_def is_config_auto_def is_config_h1_def split: Protocol.splits)
  obtain q w1 where q: "try_h2 (sender_error L) key w = (q, w1)" by fastforce
  show ?thesis
  proof (cases q)
    case (Some c)
    with q cfg show ?thesis by (simp add: http_connect_def HttpConnector_connect_def try_pools_def)
  next
    case None
    obtain io w2 where t: "transport_connect L (connector self) key w1 = (Ok io, w2)" using up(1) unfolding transport_up_def by blast
    obtain l w3 where l: "take_lock (Semaphore_new L) key w2 = (l, w3)" by fastforce
    obtain w4 where acq: "acquire L l w3 = (Ok (), w4)" using up(2) unfolding h2_up_def by blast
    obtain q' w5 where q': "try_h2 (sender_error L) key w4 = (q', w5)" by fastforce
    obtain t' task w6 where hs: "handshake L (h2_builder self) io w5 = (Ok (t', task), w6)"
      using up(2) unfolding h2_up_def by (metis surj_pair)
    show ?thesis
      using None q cfg other t l acq q' hs
      by (cases q') (auto simp: http_connect_def HttpConnector_connect_def try_pools_def io_bind_def after_transport_def
          connect_to_h2_def connect_locked_def finish_h2_def)
  qed
qed

definition bodies_end where
  "bodies_end X \<longleftrightarrow> (\<forall>body. \<exists>ds body'. ends_with (ex_next_data X) body ds body')"

lemma h2_example_round_runs:
  assumes "serves U" and "bodies_end X" and "is_config_h2 self" "transport_up L (connector self) key h2" "h2_up L"
  shows "\<exists>w'. h2_example_round U X L self key w = Some (Value (), w')"
proof -
  obtain c w1 where con: "http_connect L self key w = Some (Value (Http2 c), w1)"
    using connect_h2_only [OF assms(3-5)] by blast
  obtain req where req: "build_request U ''http://127.0.0.1:5928/get'' [] (ex_fixed_body X ''hello world'') = Ok req"
    using assms(1) unfolding serves_def by blast
  have u: "usable HTTP_2_0 (Http2 c)" by (simp add: usable_def)
  obtain resp cn' env where send: "http_send U (Http2 c) req w1 = Some (Value (Ok resp, cn'), w1\<lparr>hw_env := env\<rparr>)"
    and cn': "usable HTTP_2_0 cn'"
    by (rule send_usable [OF assms(1) u])
  from cn' obtain c' where c': "cn' = Http2 c'" by (cases cn') (auto simp: usable_def)
  obtain ds body' where ends: "ends_with (ex_next_data X) (resp_body resp) ds body'"
    using assms(2) unfolding bodies_end_def by blast
  from con send c' show ?thesis
    by (simp add: h2_example_round_def req print_chunks_ends [OF ends] prog_bind_def say_def call_def drop_conn_def drop_connection_def)
qed

lemma over_tcp_up:
  assumes "net_reaches N (tk_host key) (tk_port key)"
  shows "transport_up (over_tcp N L) c key False"
  unfolding transport_up_def
proof
  fix w
  obtain s w1 where s: "net_connect N (test_key_to_socket_addrs (net_resolve N) key) w = (Ok s, w1)" 
    using assms unfolding net_reaches_def test_key_to_socket_addrs_def by metis
  obtain w2 where "tcp_transport N (test_key_to_socket_addrs (net_resolve N)) c key w = (Ok s, w2)"
    using tcp_transport_ok [where addrs = "test_key_to_socket_addrs (net_resolve N)", OF s] by blast
  then show "\<exists>io w'. transport_connect (over_tcp N L) c key w = (Ok io, w') \<and> (is_alpn_h2 (get_conn_metadata (over_tcp N L) io) \<longleftrightarrow> False)"
    by (simp add: over_tcp_def io_map_err_def TcpStream_get_conn_metadata_def TransportConnMeta_default_def is_alpn_h2_def)
qed

section \<open>What the runs show\<close>

text \<open>
  The example \<open>http_with_tcp\<close> passes against a network that connects and servers that answer: a
  default connector over plain TCP gets an HTTP/1.1 response, one from \<open>build_tcp_http2_only\<close> speaks
  HTTP/2 with prior knowledge on all its three requests, although plain TCP negotiates nothing.
\<close>

lemma tcp_example_passes:
  assumes "serves U" and "h2_up L" and "net_reaches N ''httpbin.org'' 80" and "net_reaches N ''127.0.0.1'' 5928"
    and "bodies_end X" and "\<And>w. \<exists>l w'. ex_bind X ''127.0.0.1:5928'' w = (Ok l, w')"
    and "parse_uri U ''http://httpbin.org/get'' =
      Ok \<lparr>uri_host = Some ''httpbin.org'', uri_scheme = Some Scheme_HTTP, uri_port_u16 = None\<rparr>"
    and "parse_uri U ''http://127.0.0.1:5928/get'' =
      Ok \<lparr>uri_host = Some ''127.0.0.1'', uri_scheme = Some Scheme_HTTP, uri_port_u16 = Some 5928\<rparr>"
  shows "\<exists>w'. http_with_tcp_main U X (over_tcp N L) w = Some (Value (), w')"
proof -
  let ?L = "over_tcp N L" and ?key = "\<lparr>tk_host = ''httpbin.org'', tk_port = 80\<rparr>" and ?key2 = "\<lparr>tk_host = ''127.0.0.1'', tk_port = 5928\<rparr>"
  have up: "transport_up ?L c ?key False" "transport_up ?L c ?key2 False" for c
    using assms(3,4) by (intro over_tcp_up, simp)+
  have h2: "h2_up ?L" using assms(2) by (simp add: h2_up_def over_tcp_def)
  obtain self w1 where b: "http_build (default_h2 U) TcpConnector_default P_Auto w = (self, w1)" by fastforce
  obtain cn w2 where con: "http_connect ?L (self\<lparr>h2_builder := h2_builder self\<rparr>) ?key w1 = Some (Value cn, w2)" and cn: "usable HTTP_11 cn"
    using connect_usable [where key = ?key and b' = "h2_builder self", OF b up(1) h2] by auto
  obtain req where req: "build_request U ''/get'' [(''Host'', ''httpbin.org'')] (no_payload U) = Ok req"
    using assms(1) unfolding serves_def by blast
  obtain resp cn' env where send: "http_send U cn req w2 = Some (Value (Ok resp, cn'), w2\<lparr>hw_env := env\<rparr>)"
    and good: "good_response U HTTP_11 (resp_parts resp)"
    by (rule send_usable [OF assms(1) cn])
  define e3 where "e3 = println U (''resp header: '' @ debug_parts U (resp_parts resp)) env"
  obtain l e4 where bind: "ex_bind X ''127.0.0.1:5928'' e3 = (Ok l, e4)" using assms(6) by blast
  define w5 where "w5 = w2\<lparr>hw_env := ex_spawn_server X l (println U (''listening on '' @ ex_local_addr X l) e4)\<rparr>"
  obtain self2 w6 where b2: "build_tcp_http2_only (default_h2 U) w5 = (self2, w6)" by fastforce
  then have cfg: "is_config_h2 self2" by (auto simp: build_tcp_http2_only_def http_build_def is_config_h2_def split: prod.splits)
  obtain w7 where rounds: "repeat_prog 3 (\<lambda>_. h2_example_round U X ?L self2 ?key2) () w6 = Some (Value (), w7)"
    using repeat_prog_invariant [where ok = "\<lambda>_ _. True" and body = "\<lambda>_. h2_example_round U X ?L self2 ?key2" and n = 3 and s = "()" and w = w6]
      h2_example_round_runs [OF assms(1,5) cfg up(2) h2] by auto
  show ?thesis
    using b con send rounds b2 [unfolded w5_def] bind [unfolded e3_def]
    by (simp add: http_with_tcp_main_def HttpConnector_default_def HttpConnector_new_def call_def assms(7,8) uri_key_def unwrap_or_def
        req prog_bind_def check_good [OF good] say_def await_def)
qed

text \<open>
  Both HTTP/2 servers receive all data of a request before they answer, and answer with a response
  that stays open, \<open>hello\<close> with the stream open and \<open>world\<close> with its end; the handler of the tests
  gives back capacity for each piece. A body that fails is not answered, its error is reported.
\<close>

lemma servers_answer_after_body:
  assumes "\<And>r w. sv_send_response S r False w = (Ok (snd_of r), log (Inl ()) w)"
    and "\<And>s d eos w. sv_send_data S s d eos w = (Ok (), log (Inr (d, eos)) w)"
    and "received = fold (\<lambda>d. print_data S d) ds (sv_println S (''GOT request: '' @ sv_debug_request S q) w)"
    and "released = fold (\<lambda>d w. snd (release d (print_data S d w))) ds (sv_println S (''GOT request: '' @ sv_debug_request S q) w)"
    and "answer = (\<lambda>w. log (Inr (''world'' @ [CHR 0x0A], True)) (log (Inr (''hello '', False)) (sv_println S ''>>>> send'' (log (Inl ()) w))))"
  shows "(ends_with (sv_next_data S) (sv_body S q) ds rest \<longrightarrow>
      handle_request_h2 S q r w = Some (Value (), answer received)
      \<and> hyper_handle_request_h2 S release q r w = Some (Value (), answer released))
    \<and> (fails_with (sv_next_data S) (sv_body S q) ds e rest \<longrightarrow>
      report_error S (handle_request_h2 S q r) w
        = Some (Value (), sv_println S (''error while handling request: '' @ sv_display_error S e) received))"
proof -
  have "answer_hello S r v = Some (Value (), answer v)" for v
    by (simp add: answer_hello_def assms(1,2,5) await_def call_def prog_bind_def)
  then show ?thesis
    unfolding handle_request_h2_def hyper_handle_request_h2_def report_error_def assms(3,4)
    by (auto simp: receive_body_ends receive_body_fails call_def prog_bind_def)
qed

end
