(* ===== verification/Hyper_H1.thy ===== *)
theory Hyper_H1
  imports Connectors
begin

text \<open>
  \<open>HyperH1Connector\<close>, \<open>src/http/hyper/mod.rs\<close>: HTTP/1.1 through hyper, with a pool of senders. The
  sender of hyper is library code: \<open>is_closed\<close> reads its state from the environment, \<open>ready\<close>
  waits until it can take a request. The loop of \<open>connect\<close> takes idle senders from the pool until
  one is usable; it is a partial function, and \<open>None\<close> stands for a loop that does not end and for
  the undefined behaviour of a freed pool, neither of which happens under the stated laws.
\<close>

section \<open>Data\<close>

record 'tx HyperH1Connection =
  hyper_tx :: 'tx

definition HyperH1Connection_is_open :: "('w \<Rightarrow> 'tx \<Rightarrow> bool) \<Rightarrow> 'w \<Rightarrow> 'tx HyperH1Connection \<Rightarrow> bool" where
  "HyperH1Connection_is_open is_closed env c \<longleftrightarrow> \<not> is_closed env (hyper_tx c)"

text \<open>\<open>deref\<close> and \<open>deref_mut\<close>: the sender inside, and an operation on it.\<close>

definition HyperH1Connection_deref :: "'tx HyperH1Connection \<Rightarrow> 'tx" where
  "HyperH1Connection_deref self = hyper_tx self"

definition HyperH1Connection_deref_mut :: "('tx \<Rightarrow> 'r \<times> 'tx) \<Rightarrow> 'tx HyperH1Connection \<Rightarrow> 'r \<times> 'tx HyperH1Connection" where
  "HyperH1Connection_deref_mut f self = (case f (hyper_tx self) of (r, t) \<Rightarrow> (r, self\<lparr>hyper_tx := t\<rparr>))"

datatype ('ce, 'he) HyperError = HE_Connect 'ce | HE_Hyper 'he

type_synonym ('k, 'tx, 'w) hyper_world = "('k, 'tx HyperH1Connection, 'w) world"

record ('k, 'io, 'ce, 'tx, 'w, 'b) HyperH1Connector =
  hy_connector :: "(('k, 'tx, 'w) hyper_world, 'k, 'io, 'ce) connector"
  hy_pool :: pool_ref
  hy_builder :: 'b

text \<open>\<open>new\<close> and \<open>new_with_pool\<close>; \<open>b\<close> is the default builder of hyper.\<close>

definition HyperH1Connector_new_with_pool :: "'b \<Rightarrow> (('k, 'tx, 'w) hyper_world, 'k, 'io, 'ce) connector \<Rightarrow> pool_ref
    \<Rightarrow> ('k, 'io, 'ce, 'tx, 'w, 'b) HyperH1Connector" where
  "HyperH1Connector_new_with_pool b c p = \<lparr>hy_connector = c, hy_pool = p, hy_builder = b\<rparr>"

definition HyperH1Connector_new :: "'b \<Rightarrow> (('k, 'tx, 'w) hyper_world, 'k, 'io, 'ce) connector \<Rightarrow> ('k, 'tx, 'w) hyper_world
    \<Rightarrow> ('k, 'io, 'ce, 'tx, 'w, 'b) HyperH1Connector \<times> ('k, 'tx, 'w) hyper_world" where
  "HyperH1Connector_new b c w =
     (case ConnectionPool_new None (w_store w) of
        (p, s) \<Rightarrow> (\<lparr>hy_connector = c, hy_pool = p, hy_builder = b\<rparr>, w\<lparr>w_store := s\<rparr>))"

definition H1_with_hyper_builder :: "'b \<Rightarrow> ('k, 'io, 'ce, 'tx, 'w, 'b) HyperH1Connector
    \<Rightarrow> ('k, 'io, 'ce, 'tx, 'w, 'b) HyperH1Connector" where
  "H1_with_hyper_builder b self = self\<lparr>hy_builder := b\<rparr>"

text \<open>\<open>hyper_builder()\<close> hands out a mutable reference: any change of the builder.\<close>

definition H1_hyper_builder :: "('b \<Rightarrow> 'b) \<Rightarrow> ('k, 'io, 'ce, 'tx, 'w, 'b) HyperH1Connector
    \<Rightarrow> ('k, 'io, 'ce, 'tx, 'w, 'b) HyperH1Connector" where
  "H1_hyper_builder f self = self\<lparr>hy_builder := f (hy_builder self)\<rparr>"

definition H1_get_connection_pool :: "('k, 'io, 'ce, 'tx, 'w, 'b) HyperH1Connector \<Rightarrow> pool_ref" where
  "H1_get_connection_pool self = hy_pool self"

section \<open>connect\<close>

text \<open>
  The loop \<open>while let Some(mut pooled) = self.pool.get(&key)\<close>. A handle that is not returned is
  dropped at the end of its round, which may put it back into the pool.
\<close>

definition drop_pooled :: "('w \<Rightarrow> 'tx \<Rightarrow> bool) \<Rightarrow> ('k, 'tx HyperH1Connection) Pooled \<Rightarrow> ('k, 'tx, 'w) hyper_world
    \<Rightarrow> ('k, 'tx, 'w) hyper_world option" where
  "drop_pooled is_closed h w =
     (case Pooled_drop (HyperH1Connection_is_open is_closed (w_env w)) (w_clock w) h (w_store w) of
        Inl _ \<Rightarrow> None
      | Inr s \<Rightarrow> Some (w\<lparr>w_store := s\<rparr>))"

partial_function (option) hyper_h1_loop :: "('w \<Rightarrow> 'tx \<Rightarrow> bool) \<Rightarrow> ('tx \<Rightarrow> (('k, 'tx, 'w) hyper_world, unit, 'e) io)
    \<Rightarrow> pool_ref \<Rightarrow> 'k \<Rightarrow> ('k, 'tx, 'w) hyper_world
    \<Rightarrow> (('k, 'tx HyperH1Connection) Pooled option \<times> ('k, 'tx, 'w) hyper_world) option" where
  "hyper_h1_loop is_closed ready pool key w =
     (case ConnectionPool_get (w_clock w) pool key (w_store w) of
        None \<Rightarrow> None
      | Some g \<Rightarrow>
          (case fst g of
             None \<Rightarrow> Some (None, w\<lparr>w_store := snd g\<rparr>)
           | Some pooled \<Rightarrow>
               (case p_value pooled of
                  None \<Rightarrow> None
                | Some c \<Rightarrow>
                    if \<not> is_closed (w_env w) (hyper_tx c)
                    then (case fst (ready (hyper_tx c) (w\<lparr>w_store := snd g\<rparr>)) of
                            Inr _ \<Rightarrow> Some (Some pooled, snd (ready (hyper_tx c) (w\<lparr>w_store := snd g\<rparr>)))
                          | Inl _ \<Rightarrow>
                              Option.bind (drop_pooled is_closed pooled (snd (ready (hyper_tx c) (w\<lparr>w_store := snd g\<rparr>))))
                                (hyper_h1_loop is_closed ready pool key))
                    else Option.bind (drop_pooled is_closed pooled (w\<lparr>w_store := snd g\<rparr>))
                           (hyper_h1_loop is_closed ready pool key))))"

text \<open>
  The part of \<open>connect\<close> after the loop: a new connection, its handshake, the spawned background
  task and a fresh handle of the pool.
\<close>

definition hyper_h1_dial :: "('b \<Rightarrow> 'io \<Rightarrow> (('k, 'tx, 'w) hyper_world, 'tx \<times> 'bg, 'he) io) \<Rightarrow> ('bg \<Rightarrow> 'w \<Rightarrow> 'w)
    \<Rightarrow> ('k, 'io, 'ce, 'tx, 'w, 'b) HyperH1Connector \<Rightarrow> 'k
    \<Rightarrow> (('k, 'tx, 'w) hyper_world, ('k, 'tx HyperH1Connection) Pooled, ('ce, 'he) HyperError) io" where
  "hyper_h1_dial handshake spawn self key =
     io_bind (io_map_err HE_Connect (hy_connector self key)) (\<lambda>underlying.
     io_bind (io_map_err HE_Hyper (handshake (hy_builder self) underlying)) (\<lambda>(t, task) w.
       (Ok (ConnectionPool_link (hy_pool self) key \<lparr>hyper_tx = t\<rparr>), w\<lparr>w_env := spawn task (w_env w)\<rparr>)))"

definition HyperH1Connector_connect :: "('w \<Rightarrow> 'tx \<Rightarrow> bool) \<Rightarrow> ('tx \<Rightarrow> (('k, 'tx, 'w) hyper_world, unit, 'e) io)
    \<Rightarrow> ('b \<Rightarrow> 'io \<Rightarrow> (('k, 'tx, 'w) hyper_world, 'tx \<times> 'bg, 'he) io) \<Rightarrow> ('bg \<Rightarrow> 'w \<Rightarrow> 'w)
    \<Rightarrow> ('k, 'io, 'ce, 'tx, 'w, 'b) HyperH1Connector \<Rightarrow> 'k \<Rightarrow> ('k, 'tx, 'w) hyper_world
    \<Rightarrow> ((('k, 'tx HyperH1Connection) Pooled, ('ce, 'he) HyperError) result \<times> ('k, 'tx, 'w) hyper_world) option" where
  "HyperH1Connector_connect is_closed ready handshake spawn self key w =
     (case hyper_h1_loop is_closed ready (hy_pool self) key w of
        None \<Rightarrow> None
      | Some (Some pooled, w1) \<Rightarrow> Some (Ok pooled, w1)
      | Some (None, w1) \<Rightarrow> Some (hyper_h1_dial handshake spawn self key w1))"

section \<open>What the loop finds\<close>

text \<open>
  The laws: while \<open>ready\<close> waits nobody touches the pool, and a sender that cannot become ready
  is closed. \<open>rd\<close> is its effect on the environment alone.
\<close>

definition quiet_ready :: "('w \<Rightarrow> 'tx \<Rightarrow> bool) \<Rightarrow> ('tx \<Rightarrow> 'w \<Rightarrow> (unit, 'e) result \<times> 'w)
    \<Rightarrow> ('tx \<Rightarrow> (('k, 'tx, 'w) hyper_world, unit, 'e) io) \<Rightarrow> bool" where
  "quiet_ready is_closed rd ready \<longleftrightarrow>
     (\<forall>t w. ready t w = (case rd t (w_env w) of (r, e) \<Rightarrow> (r, w\<lparr>w_env := e\<rparr>))) \<and>
     (\<forall>t e err e'. rd t e = (Inl err, e') \<longrightarrow> is_closed e' t)"

text \<open>The first usable entry of a queue, the entries behind it and the environment afterwards.\<close>

fun first_ready :: "('w \<Rightarrow> 'tx \<Rightarrow> bool) \<Rightarrow> ('tx \<Rightarrow> 'w \<Rightarrow> (unit, 'e) result \<times> 'w) \<Rightarrow> 'tx HyperH1Connection Idle list \<Rightarrow> 'w
    \<Rightarrow> 'tx HyperH1Connection option \<times> 'tx HyperH1Connection Idle list \<times> 'w" where
  "first_ready is_closed rd [] e = (None, [], e)"
| "first_ready is_closed rd (i # q) e =
     (if is_closed e (hyper_tx (conn i)) then first_ready is_closed rd q e
      else (case rd (hyper_tx (conn i)) e of
              (Inr _, e') \<Rightarrow> (Some (conn i), q, e')
            | (Inl _, e') \<Rightarrow> first_ready is_closed rd q e'))"

lemma Pooled_new_value [simp]: "p_value (Pooled_new k c r a) = Some c"
  by (simp add: Pooled_new_def)

lemma drop_closed:
  "is_closed (w_env w) (hyper_tx c) \<Longrightarrow> drop_pooled is_closed (Pooled_new k c r a) w = Some w"
  by (simp add: drop_pooled_def Pooled_drop_def Pooled_new_def HyperH1Connection_is_open_def)

lemma hyper_h1_loop_finds:
  assumes "quiet_ready is_closed rd ready"
    and "rc_read pool (w_store w) = Some p" and "pool_wf p"
  shows "\<exists>w' p'. hyper_h1_loop is_closed ready pool key w =
      Some (map_option (\<lambda>c. Pooled_new key c True pool) (fst (first_ready is_closed rd (queue_of p key) (w_env w))), w')
    \<and> rc_read pool (w_store w') = Some p' \<and> pool_wf p'
    \<and> queue_of p' key = fst (snd (first_ready is_closed rd (queue_of p key) (w_env w)))
    \<and> w_env w' = snd (snd (first_ready is_closed rd (queue_of p key) (w_env w)))"
  using assms(2,3)
proof (induction "queue_of p key" arbitrary: p w)
  case Nil
  then show ?case
    by (subst hyper_h1_loop.simps) (simp add: ConnectionPool_get_def get_wf rc_write_same)
next
  case (Cons i q)
  let ?c = "conn i" and ?p = "set_queue key q p"
  let ?w = "w\<lparr>w_store := rc_write pool ?p (w_store w)\<rparr>"
  have get: "ConnectionPool_get (w_clock w) pool key (w_store w) =
      Some (Some (Pooled_new key ?c True pool), rc_write pool ?p (w_store w))"
    using Cons.prems Cons.hyps(2) by (simp add: ConnectionPool_get_def get_wf flip: Cons.hyps(2))
  have wf: "pool_wf ?p" using Cons.prems(2) by (simp add: pool_wf_def)
  have again: "\<exists>w' p'. hyper_h1_loop is_closed ready pool key (?w\<lparr>w_env := e\<rparr>) =
        Some (map_option (\<lambda>c. Pooled_new key c True pool) (fst (first_ready is_closed rd q e)), w')
      \<and> rc_read pool (w_store w') = Some p' \<and> pool_wf p'
      \<and> queue_of p' key = fst (snd (first_ready is_closed rd q e))
      \<and> w_env w' = snd (snd (first_ready is_closed rd q e))" for e
    using Cons.hyps(1) [of ?p "?w\<lparr>w_env := e\<rparr>"] wf Cons.prems(1) by (simp add: rc.read_write)
  show ?case
  proof (cases "is_closed (w_env w) (hyper_tx ?c)")
    case True
    then have "hyper_h1_loop is_closed ready pool key w = hyper_h1_loop is_closed ready pool key (?w\<lparr>w_env := w_env w\<rparr>)"
      by (subst hyper_h1_loop.simps) (simp add: get drop_closed)
    with again [of "w_env w"] True show ?thesis by (simp flip: Cons.hyps(2))
  next
    case open_conn: False
    obtain r e where rd: "rd (hyper_tx ?c) (w_env w) = (r, e)" by (cases "rd (hyper_tx ?c) (w_env w)")
    have ready: "ready (hyper_tx ?c) ?w = (r, ?w\<lparr>w_env := e\<rparr>)"
      using assms(1) rd by (simp add: quiet_ready_def)
    show ?thesis
    proof (cases r)
      case (Inl err)
      then have "is_closed e (hyper_tx ?c)" using assms(1) rd by (auto simp: quiet_ready_def)
      then have "hyper_h1_loop is_closed ready pool key w = hyper_h1_loop is_closed ready pool key (?w\<lparr>w_env := e\<rparr>)"
        using open_conn Inl by (subst hyper_h1_loop.simps) (simp add: get ready drop_closed)
      with again [of e] open_conn rd Inl show ?thesis by (simp flip: Cons.hyps(2))
    next
      case (Inr u)
      then have "hyper_h1_loop is_closed ready pool key w = Some (Some (Pooled_new key ?c True pool), ?w\<lparr>w_env := e\<rparr>)"
        using open_conn by (subst hyper_h1_loop.simps) (simp add: get ready)
      with open_conn rd Inr wf Cons.prems(1) show ?thesis by (simp add: rc.read_write flip: Cons.hyps(2))
    qed
  qed
qed

lemma first_ready_None: "fst (first_ready is_closed rd q e) = None \<Longrightarrow> fst (snd (first_ready is_closed rd q e)) = []"
  by (induction is_closed rd q e rule: first_ready.induct) (auto split: prod.splits sum.splits if_splits)

section \<open>Properties\<close>

text \<open>
  Property C17. \<open>HyperH1Connector::connect\<close> always gets past its loop, when the pool is left alone
  while it waits and a sender that fails to become ready is closed. It returns the oldest idle sender
  that is open and becomes ready, the unusable ones in front of it being lost and those behind it
  kept; only if there is none does it dial, with no idle sender of the key left.
\<close>

theorem hyper_h1_connect:
  assumes "quiet_ready is_closed rd ready"
    and "rc_read (hy_pool self) (w_store w) = Some p" and "pool_reach p"
  shows "\<exists>w1 p1. rc_read (hy_pool self) (w_store w1) = Some p1
    \<and> (case first_ready is_closed rd (queue_of p key) (w_env w) of
        (r, q, e) \<Rightarrow>
          queue_of p1 key = q \<and> w_env w1 = e \<and>
          HyperH1Connector_connect is_closed ready handshake spawn self key w =
            Some (case r of
                Some c \<Rightarrow> (Ok (Pooled_new key c True (hy_pool self)), w1)
              | None \<Rightarrow> hyper_h1_dial handshake spawn self key w1)
          \<and> (r = None \<longrightarrow> q = []))"
proof -
  have "pool_wf p" using pool_inv_reach [OF assms(3)] by (simp add: pool_inv_def)
  from hyper_h1_loop_finds [OF assms(1,2) this, of key] obtain w1 p1 where
    l: "hyper_h1_loop is_closed ready (hy_pool self) key w =
      Some (map_option (\<lambda>c. Pooled_new key c True (hy_pool self)) (fst (first_ready is_closed rd (queue_of p key) (w_env w))), w1)"
    and p1: "rc_read (hy_pool self) (w_store w1) = Some p1"
    and q: "queue_of p1 key = fst (snd (first_ready is_closed rd (queue_of p key) (w_env w)))"
    and e: "w_env w1 = snd (snd (first_ready is_closed rd (queue_of p key) (w_env w)))"
    by blast
  then show ?thesis
    using first_ready_None [of is_closed rd "queue_of p key" "w_env w"]
    by (intro exI [of _ w1] exI [of _ p1])
      (auto simp: HyperH1Connector_connect_def split: prod.splits option.splits)
qed

theorem hyper_h1_connect_witness:
  "\<exists>w1. HyperH1Connector_connect (\<lambda>e t. t < e) (\<lambda>t w. (Ok (), w)) (\<lambda>b io w. (Err (), w)) (\<lambda>_ e. e)
      \<lparr>hy_connector = (\<lambda>k w. (Err (), w)), hy_pool = 0, hy_builder = ()\<rparr> ''a''
      \<lparr>w_store = snd (rc_new (pool_put 5 ''a'' \<lparr>hyper_tx = 7\<rparr> (pool_put 4 ''a'' \<lparr>hyper_tx = 2\<rparr> (PoolInner_new None))) rc_empty),
       w_clock = 9, w_env = 3 :: nat\<rparr>
    = Some (Ok (Pooled_new ''a'' \<lparr>hyper_tx = 7\<rparr> True 0), w1)"
proof -
  let ?p = "pool_put 5 ''a'' \<lparr>hyper_tx = 7 :: nat\<rparr> (pool_put 4 ''a'' \<lparr>hyper_tx = 2\<rparr> (PoolInner_new None))"
  let ?w = "\<lparr>w_store = snd (rc_new ?p rc_empty), w_clock = 9, w_env = 3 :: nat\<rparr>"
  let ?self = "\<lparr>hy_connector = (\<lambda>k w. (Err (), w)), hy_pool = 0, hy_builder = ()\<rparr>"
  have law: "quiet_ready (\<lambda>e t. t < e) (\<lambda>t e. (Ok (), e)) (\<lambda>t w. (Ok (), w))"
    by (simp add: quiet_ready_def)
  have r: "rc_read (hy_pool ?self) (w_store ?w) = Some ?p" by (simp add: rc_new_def rc_empty_def rc_read_def)
  have reach: "pool_reach ?p" by (intro pool_reach.intros)
  have q: "queue_of ?p ''a'' = [\<lparr>conn = \<lparr>hyper_tx = 2\<rparr>, idle_at = 4\<rparr>, \<lparr>conn = \<lparr>hyper_tx = 7\<rparr>, idle_at = 5\<rparr>]"
    by (simp add: put_queue Idle_new_def)
  from hyper_h1_connect [OF law r reach, of "''a''" "\<lambda>b io w. (Err (), w)" "\<lambda>_ e. e"]
  show ?thesis unfolding q by auto
qed

end
