(* ===== verification/Hyper_H2.thy ===== *)
theory Hyper_H2
  imports Hyper_H1 Lock_Protocol
begin

text \<open>
  \<open>HyperH2Connector\<close>, \<open>src/http/hyper/mod.rs\<close>: HTTP/2 through hyper, one connection serving many
  handles. A connection may carry a shared counter \<open>Rc<usize>\<close> whose strong count stands for the
  number of handles and whose value is the limit; counters are cells of the theory \<open>Rc_Store\<close>. As
  in the theory \<open>Http_Connector\<close> the code between two await points is one definition each,
  composed into \<open>connect\<close> as one call and into the steps of many interleaved calls.
\<close>

section \<open>Data\<close>

record 'tx HyperH2Connection =
  h2_tx :: 'tx
  h2_cnt :: "nat option"

type_synonym counters = "usize rc_store"

text \<open>\<open>to_owned\<close>, and a handle going out of scope: the counter follows the references.\<close>

definition HyperH2Connection_to_owned :: "'tx HyperH2Connection \<Rightarrow> counters \<Rightarrow> 'tx HyperH2Connection \<times> counters" where
  "HyperH2Connection_to_owned c s =
     (\<lparr>h2_tx = h2_tx c, h2_cnt = h2_cnt c\<rparr>, case h2_cnt c of None \<Rightarrow> s | Some a \<Rightarrow> rc_clone a s)"

definition HyperH2Connection_deref :: "'tx HyperH2Connection \<Rightarrow> 'tx" where
  "HyperH2Connection_deref self = h2_tx self"

definition HyperH2Connection_deref_mut :: "('tx \<Rightarrow> 'r \<times> 'tx) \<Rightarrow> 'tx HyperH2Connection \<Rightarrow> 'r \<times> 'tx HyperH2Connection" where
  "HyperH2Connection_deref_mut f self = (case f (h2_tx self) of (r, t) \<Rightarrow> (r, self\<lparr>h2_tx := t\<rparr>))"

definition HyperH2Connection_drop :: "'tx HyperH2Connection \<Rightarrow> counters \<Rightarrow> counters" where
  "HyperH2Connection_drop c s = (case h2_cnt c of None \<Rightarrow> s | Some a \<Rightarrow> rc_drop a s)"

definition HyperH2Connection_is_open :: "('w \<Rightarrow> 'tx \<Rightarrow> bool) \<Rightarrow> 'w \<Rightarrow> 'tx HyperH2Connection \<Rightarrow> bool" where
  "HyperH2Connection_is_open is_closed env c \<longleftrightarrow> \<not> is_closed env (h2_tx c)"

definition stream_full :: "'tx HyperH2Connection \<Rightarrow> counters \<Rightarrow> bool" where
  "stream_full c s =
     (case h2_cnt c of
        None \<Rightarrow> False
      | Some a \<Rightarrow> (case rc_read a s of None \<Rightarrow> False | Some limit \<Rightarrow> strong_count a s \<ge> limit))"

record ('c, 'b) HyperH2Connector =
  hy2_connector :: 'c
  hy2_builder :: 'b
  max_stream_sender :: "usize option"

text \<open>
  As for \<open>HttpConnector\<close>, the pool and the table of locks are in the world, next to the counters.
\<close>

record ('k, 'tx, 's, 'w) hyper2_world =
  y_pool :: "('k, 'tx HyperH2Connection) PoolInner"
  y_connecting :: "('k, 's) lock_table"
  y_cnt :: counters
  y_clock :: instant
  y_env :: 'w

definition HyperH2Connector_new :: "'b \<Rightarrow> 'c \<Rightarrow> ('k, 'tx, 's, 'w) hyper2_world
    \<Rightarrow> ('c, 'b) HyperH2Connector \<times> ('k, 'tx, 's, 'w) hyper2_world" where
  "HyperH2Connector_new b c w =
     (\<lparr>hy2_connector = c, hy2_builder = b, max_stream_sender = None\<rparr>,
      w\<lparr>y_pool := PoolInner_new None, y_connecting := lt_new\<rparr>)"

definition HyperH2Connector_new_with_pool :: "'b \<Rightarrow> 'c \<Rightarrow> ('k, 'tx HyperH2Connection) PoolInner \<Rightarrow> ('k, 'tx, 's, 'w) hyper2_world
    \<Rightarrow> ('c, 'b) HyperH2Connector \<times> ('k, 'tx, 's, 'w) hyper2_world" where
  "HyperH2Connector_new_with_pool b c p w =
     (\<lparr>hy2_connector = c, hy2_builder = b, max_stream_sender = None\<rparr>,
      w\<lparr>y_pool := p, y_connecting := lt_new\<rparr>)"

definition H2_get_connection_pool :: "('k, 'tx, 's, 'w) hyper2_world \<Rightarrow> ('k, 'tx HyperH2Connection) PoolInner" where
  "H2_get_connection_pool w = y_pool w"

definition with_max_stream_sender :: "usize option \<Rightarrow> ('c, 'b) HyperH2Connector \<Rightarrow> ('c, 'b) HyperH2Connector" where
  "with_max_stream_sender m self = self\<lparr>max_stream_sender := m\<rparr>"

text \<open>\<open>set_timer\<close> is \<open>builder.timer(MonoioTimer)\<close> of hyper.\<close>

definition H2_with_hyper_builder :: "('b \<Rightarrow> 'b) \<Rightarrow> 'b \<Rightarrow> ('c, 'b) HyperH2Connector \<Rightarrow> ('c, 'b) HyperH2Connector" where
  "H2_with_hyper_builder set_timer b self = self\<lparr>hy2_builder := set_timer b\<rparr>"

definition H2_hyper_builder :: "('b \<Rightarrow> 'b) \<Rightarrow> ('c, 'b) HyperH2Connector \<Rightarrow> ('c, 'b) HyperH2Connector" where
  "H2_hyper_builder f self = self\<lparr>hy2_builder := f (hy2_builder self)\<rparr>"

section \<open>The code between await points\<close>

text \<open>
  The macro \<open>try_get!\<close>: entries that are not ready are dropped, then the first connection that is not
  full is cloned and its idle time reset.
\<close>

fun pick_stream :: "instant \<Rightarrow> 'tx HyperH2Connection Idle list \<Rightarrow> counters
    \<Rightarrow> 'tx HyperH2Connection option \<times> 'tx HyperH2Connection Idle list \<times> counters" where
  "pick_stream now [] s = (None, [], s)"
| "pick_stream now (i # q) s =
     (if stream_full (conn i) s
      then (case pick_stream now q s of (r, q', s') \<Rightarrow> (r, i # q', s'))
      else (case HyperH2Connection_to_owned (conn i) s of (c, s') \<Rightarrow> (Some c, reset_idle now i # q, s')))"

definition drop_all :: "'tx HyperH2Connection Idle list \<Rightarrow> counters \<Rightarrow> counters" where
  "drop_all q s = fold (\<lambda>i. HyperH2Connection_drop (conn i)) q s"

definition hyper_try_get :: "('w \<Rightarrow> 'tx \<Rightarrow> bool) \<Rightarrow> 'k \<Rightarrow> ('k, 'tx, 's, 'w) hyper2_world
    \<Rightarrow> 'tx HyperH2Connection option \<times> ('k, 'tx, 's, 'w) hyper2_world" where
  "hyper_try_get is_ready key w =
     (case hm_get (idle_conns (y_pool w)) key of
        None \<Rightarrow> (None, w)
      | Some conns \<Rightarrow>
          (let ready = (\<lambda>i. is_ready (y_env w) (h2_tx (conn i)));
               s = drop_all (filter (\<lambda>i. \<not> ready i) conns) (y_cnt w)
           in case pick_stream (y_clock w) (retain ready conns) s of
                (r, q, s') \<Rightarrow> (r, w\<lparr>y_pool := set_queue key q (y_pool w), y_cnt := s'\<rparr>)))"

text \<open>
  The end of \<open>connect\<close>: the counter is allocated if a limit is configured, a clone goes to the pool.
  \<open>put\<close> drops the entries it evicts.
\<close>

definition hyper_finish :: "('bg \<Rightarrow> 'w \<Rightarrow> 'w) \<Rightarrow> ('c, 'b) HyperH2Connector \<Rightarrow> 'k \<Rightarrow> 'tx \<Rightarrow> 'bg \<Rightarrow> ('k, 'tx, 's, 'w) hyper2_world
    \<Rightarrow> 'tx HyperH2Connection \<times> ('k, 'tx, 's, 'w) hyper2_world" where
  "hyper_finish spawn self key t task w =
     (case (case max_stream_sender self of
              None \<Rightarrow> (None, y_cnt w)
            | Some n \<Rightarrow> (case rc_new n (y_cnt w) of (a, s) \<Rightarrow> (Some a, s))) of
        (cnt, s) \<Rightarrow>
          (let cn = \<lparr>h2_tx = t, h2_cnt = cnt\<rparr>;
               queue = hm_or_insert (idle_conns (y_pool w)) key [];
               evicted = (if length queue > max_idle (y_pool w)
                          then take (Suc (length queue - max_idle (y_pool w))) queue else [])
           in case HyperH2Connection_to_owned cn s of
                (cn', s') \<Rightarrow>
                  (cn, w\<lparr>y_env := spawn task (y_env w),
                         y_pool := pool_put (y_clock w) key cn' (y_pool w),
                         y_cnt := drop_all evicted s'\<rparr>)))"

section \<open>\<open>connect\<close> as one call\<close>

record ('c, 'k, 'io, 'tx, 'bg, 's, 'b, 'w, 'ce, 'he) hyper_lib =
  y_transport :: "'c \<Rightarrow> (('k, 'tx, 's, 'w) hyper2_world, 'k, 'io, 'ce) connector"
  y_handshake :: "'b \<Rightarrow> 'io \<Rightarrow> (('k, 'tx, 's, 'w) hyper2_world, 'tx \<times> 'bg, 'he) io"
  y_spawn :: "'bg \<Rightarrow> 'w \<Rightarrow> 'w"
  y_is_ready :: "'w \<Rightarrow> 'tx \<Rightarrow> bool"
  Mutex_new :: 's
  y_lock :: "nat \<Rightarrow> ('k, 'tx, 's, 'w) hyper2_world \<Rightarrow> ('k, 'tx, 's, 'w) hyper2_world"
  y_unlock :: "'s \<Rightarrow> 's"

definition hyper_unlock :: "('s \<Rightarrow> 's) \<Rightarrow> nat \<Rightarrow> ('k, 'tx, 's, 'w) hyper2_world \<Rightarrow> ('k, 'tx, 's, 'w) hyper2_world" where
  "hyper_unlock rel a w = w\<lparr>y_connecting := lt_release rel a (y_connecting w)\<rparr>"

definition hyper_locked :: "('c, 'k, 'io, 'tx, 'bg, 's, 'b, 'w, 'ce, 'he) hyper_lib \<Rightarrow> ('c, 'b) HyperH2Connector
    \<Rightarrow> 'k \<Rightarrow> (('k, 'tx, 's, 'w) hyper2_world, 'tx HyperH2Connection, ('ce, 'he) HyperError) io" where
  "hyper_locked L self key w =
     (case hyper_try_get (y_is_ready L) key w of
        (Some c, w1) \<Rightarrow> (Ok c, w1)
      | (None, w1) \<Rightarrow>
          io_bind (io_map_err HE_Connect (y_transport L (hy2_connector self) key)) (\<lambda>underlying.
          io_bind (io_map_err HE_Hyper (y_handshake L (hy2_builder self) underlying)) (\<lambda>(t, task) w.
            (case hyper_finish (y_spawn L) self key t task w of (c, w') \<Rightarrow> (Ok c, w')))) w1)"

definition HyperH2Connector_connect :: "('c, 'k, 'io, 'tx, 'bg, 's, 'b, 'w, 'ce, 'he) hyper_lib \<Rightarrow> ('c, 'b) HyperH2Connector
    \<Rightarrow> 'k \<Rightarrow> (('k, 'tx, 's, 'w) hyper2_world, 'tx HyperH2Connection, ('ce, 'he) HyperError) io" where
  "HyperH2Connector_connect L self key w =
     (case hyper_try_get (y_is_ready L) key w of
        (Some c, w1) \<Rightarrow> (Ok c, w1)
      | (None, w1) \<Rightarrow>
          (case get_lock (Mutex_new L) key (y_connecting w1) of
             (a, t) \<Rightarrow>
               (case hyper_locked L self key (y_lock L a (w1\<lparr>y_connecting := t\<rparr>)) of
                  (r, w2) \<Rightarrow> (r, hyper_unlock (y_unlock L) a w2))))"

section \<open>The number of handles\<close>

text \<open>
  A run of the connector seen by the counters: calls that find or make a connection, handles that are
  dropped by their users, and the idle task or other users of the pool that remove entries. Users
  that clone a handle themselves are outside this account.
\<close>

inductive count_step :: "('w \<Rightarrow> 'tx \<Rightarrow> bool) \<Rightarrow> ('bg \<Rightarrow> 'w \<Rightarrow> 'w) \<Rightarrow> ('c, 'b) HyperH2Connector
    \<Rightarrow> ('k, 'tx, 's, 'w) hyper2_world \<Rightarrow> ('k, 'tx, 's, 'w) hyper2_world \<Rightarrow> bool" for is_ready spawn self where
  cs_get: "hyper_try_get is_ready key w = (r, w') \<Longrightarrow> count_step is_ready spawn self w w'"
| cs_new: "hyper_finish spawn self key t task w = (c, w') \<Longrightarrow> count_step is_ready spawn self w w'"
| cs_drop: "w' = w\<lparr>y_cnt := HyperH2Connection_drop (c :: 'tx HyperH2Connection) (y_cnt w)\<rparr> \<Longrightarrow> count_step is_ready spawn self w w'"
| cs_other: "y_cnt w' = y_cnt w \<Longrightarrow> count_step is_ready spawn self w w'"

abbreviation count_reach :: "('w \<Rightarrow> 'tx \<Rightarrow> bool) \<Rightarrow> ('bg \<Rightarrow> 'w \<Rightarrow> 'w) \<Rightarrow> ('c, 'b) HyperH2Connector
    \<Rightarrow> ('k, 'tx, 's, 'w) hyper2_world \<Rightarrow> bool" where
  "count_reach is_ready spawn self \<equiv> reachable (\<lambda>w. y_cnt w = rc_empty) (count_step is_ready spawn self)"

text \<open>Every counter holds the configured limit, and counts at most that many references, or two.\<close>

definition cnt_inv :: "('c, 'b) HyperH2Connector \<Rightarrow> counters \<Rightarrow> bool" where
  "cnt_inv self s \<longleftrightarrow> rc_inv s \<and>
     (\<forall>a n. rc_read a s = Some n \<longrightarrow> max_stream_sender self = Some n \<and> strong_count a s \<le> max 2 n)"

lemma cnt_inv_drop:
  assumes "cnt_inv self s"
  shows "cnt_inv self (HyperH2Connection_drop c s)"
proof (cases "h2_cnt c")
  case None
  with assms show ?thesis by (simp add: HyperH2Connection_drop_def)
next
  case (Some a)
  have le: "strong_count b (rc_drop a s) \<le> strong_count b s" for b by (simp add: rc.count_release)
  have "max_stream_sender self = Some n \<and> strong_count b (rc_drop a s) \<le> max 2 n"
    if "rc_read b (rc_drop a s) = Some n" for b n
  proof -
    from that have "rc_read b s = Some n" by (simp add: rc.read_release split: if_splits)
    with assms have "max_stream_sender self = Some n" "strong_count b s \<le> max 2 n" by (simp_all add: cnt_inv_def)
    with le [of b] show ?thesis by simp
  qed
  with assms Some show ?thesis by (simp add: cnt_inv_def HyperH2Connection_drop_def rc.invar_release)
qed

lemma cnt_inv_drop_all: "cnt_inv self s \<Longrightarrow> cnt_inv self (drop_all q s)"
  unfolding drop_all_def by (induction q arbitrary: s) (auto intro: cnt_inv_drop)

text \<open>Cloning is safe where the limit is not reached.\<close>

lemma cnt_inv_clone:
  assumes "cnt_inv self s" and "\<not> stream_full c s"
  shows "cnt_inv self (snd (HyperH2Connection_to_owned c s))"
  using assms
  by (auto simp: cnt_inv_def HyperH2Connection_to_owned_def stream_full_def rc.invar_clone rc.read_clone rc.count_clone
      split: option.splits if_splits)

lemma cnt_inv_pick: "cnt_inv self s \<Longrightarrow> cnt_inv self (snd (snd (pick_stream now q s)))"
proof (induction now q s rule: pick_stream.induct)
  case (2 now i q s)
  then show ?case using cnt_inv_clone [of self s "conn i"] by (auto split: prod.splits)
qed simp

lemma cnt_inv_new:
  assumes "cnt_inv self s" and "max_stream_sender self = Some n" and "rc_new n s = (a, s')"
  shows "cnt_inv self (rc_clone a s')"
proof -
  have s': "s' = snd (rc_new n s)" and a: "a = fst (rc_new n s)" using assms(3) by simp_all
  have "strong_count b (rc_clone a s') \<le> max 2 m" "m = n \<or> max_stream_sender self = Some m"
    if "rc_read b (rc_clone a s') = Some m" for b m
    using that assms(1,2)
    by (auto simp: s' a cnt_inv_def rc.read_clone rc.count_clone rc.read_alloc rc.count_alloc split: if_splits)
  then show ?thesis using assms(1,2) by (auto simp: cnt_inv_def s' rc.invar_clone rc.invar_alloc)
qed

lemma cnt_inv_step:
  assumes "count_step is_ready spawn self w w'" and "cnt_inv self (y_cnt w)"
  shows "cnt_inv self (y_cnt w')"
  using assms
proof (induction rule: count_step.induct)
  case (cs_get key w r w')
  show ?case
  proof (cases "hm_get (idle_conns (y_pool w)) key")
    case None
    with cs_get show ?thesis by (simp add: hyper_try_get_def)
  next
    case (Some conns)
    let ?s = "drop_all (filter (\<lambda>i. \<not> is_ready (y_env w) (h2_tx (conn i))) conns) (y_cnt w)"
    have "cnt_inv self ?s" using cs_get.prems by (rule cnt_inv_drop_all)
    from cnt_inv_pick [OF this, of "y_clock w" "retain (\<lambda>i. is_ready (y_env w) (h2_tx (conn i))) conns"] cs_get.hyps Some
    show ?thesis
      by (auto simp: hyper_try_get_def Let_def split: prod.splits)
  qed
next
  case (cs_new key t task w c w')
  then show ?case
    by (auto simp: hyper_finish_def HyperH2Connection_to_owned_def Let_def
        intro!: cnt_inv_drop_all cnt_inv_new split: prod.splits option.splits)
next
  case (cs_drop w' w c)
  then show ?case by (simp add: cnt_inv_drop)
qed simp

interpretation counts: invariant_system "\<lambda>w. y_cnt w = rc_empty" "count_step is_ready spawn self" "\<lambda>w. cnt_inv self (y_cnt w)"
    for is_ready spawn self
  by unfold_locales (simp add: cnt_inv_def, rule cnt_inv_step)

text \<open>What the scan serves: the first entry that is not full.\<close>

lemma pick_stream_Some:
  "pick_stream now q s = (Some c, q', s') \<Longrightarrow>
   \<exists>i \<in> set q. c = conn i \<and> \<not> stream_full (conn i) s \<and> s' = snd (HyperH2Connection_to_owned (conn i) s)"
  by (induction now q s arbitrary: q' rule: pick_stream.induct)
    (auto simp: HyperH2Connection_to_owned_def split: if_splits prod.splits)

lemma pick_stream_None: "fst (pick_stream now q s) = None \<longleftrightarrow> (\<forall>i \<in> set q. stream_full (conn i) s)"
  by (induction now q s rule: pick_stream.induct)
    (auto simp: HyperH2Connection_to_owned_def split: prod.splits)

lemma pick_stream_miss: "fst (pick_stream now q s) = None \<Longrightarrow> snd (snd (pick_stream now q s)) = s"
  by (induction now q s rule: pick_stream.induct)
    (auto simp: HyperH2Connection_to_owned_def split: prod.splits if_splits)

section \<open>Many calls on one connector\<close>

datatype ('k, 'io, 'r) y_pc =
  Y_idle
| Y_locking 'k nat
| Y_transport 'k nat
| Y_handshake 'k 'io nat
| Y_done 'r

type_synonym ('k, 'tx, 's, 'w, 'io, 'e) y_sys =
  "(('k, 'tx, 's, 'w) hyper2_world, ('k, 'io, ('tx HyperH2Connection, 'e) result) y_pc) tasks"

text \<open>
  The steps, as in the theory \<open>Http_Connector\<close>; here the transport is dialled under the lock. The
  futures may be dropped at every await point, and the pool, which users can reach, may change at
  any time.
\<close>

inductive y_step :: "('c, 'k, 'io, 'tx, 'bg, 's, 'b, 'w, 'ce, 'he) hyper_lib \<Rightarrow> ('s \<Rightarrow> 's option) \<Rightarrow> ('c, 'b) HyperH2Connector
    \<Rightarrow> ('k, 'tx, 's, 'w, 'io, ('ce, 'he) HyperError) y_sys \<Rightarrow> ('k, 'tx, 's, 'w, 'io, ('ce, 'he) HyperError) y_sys \<Rightarrow> bool"
  for L acq self where
  y_start_hit: "ts_task s i = Y_idle \<Longrightarrow> hyper_try_get (y_is_ready L) key (ts_world s) = (Some c, w) \<Longrightarrow>
    y_step L acq self s (ts_upd i (Y_done (Ok c)) w s)"
| y_start_miss: "ts_task s i = Y_idle \<Longrightarrow> hyper_try_get (y_is_ready L) key (ts_world s) = (None, w) \<Longrightarrow>
    get_lock (Mutex_new L) key (y_connecting w) = (a, t) \<Longrightarrow>
    y_step L acq self s (ts_upd i (Y_locking key a) (w\<lparr>y_connecting := t\<rparr>) s)"
| y_lock_hit: "ts_task s i = Y_locking key a \<Longrightarrow> lt_acquire acq a (y_connecting (ts_world s)) = Some t \<Longrightarrow>
    hyper_try_get (y_is_ready L) key ((ts_world s)\<lparr>y_connecting := t\<rparr>) = (Some c, w) \<Longrightarrow>
    y_step L acq self s (ts_upd i (Y_done (Ok c)) (hyper_unlock (y_unlock L) a w) s)"
| y_lock_miss: "ts_task s i = Y_locking key a \<Longrightarrow> lt_acquire acq a (y_connecting (ts_world s)) = Some t \<Longrightarrow>
    hyper_try_get (y_is_ready L) key ((ts_world s)\<lparr>y_connecting := t\<rparr>) = (None, w) \<Longrightarrow>
    y_step L acq self s (ts_upd i (Y_transport key a) w s)"
| y_transport_ok: "ts_task s i = Y_transport key a \<Longrightarrow>
    y_step L acq self s (ts_upd i (Y_handshake key io a) (ts_world s) s)"
| y_transport_end: "ts_task s i = Y_transport key a \<Longrightarrow> pc = Y_done (Err (HE_Connect e)) \<or> pc = Y_idle \<Longrightarrow>
    y_step L acq self s (ts_upd i pc (hyper_unlock (y_unlock L) a (ts_world s)) s)"
| y_handshake_ok: "ts_task s i = Y_handshake key io a \<Longrightarrow>
    hyper_finish (y_spawn L) self key t task (ts_world s) = (c, w) \<Longrightarrow>
    y_step L acq self s (ts_upd i (Y_done (Ok c)) (hyper_unlock (y_unlock L) a w) s)"
| y_handshake_end: "ts_task s i = Y_handshake key io a \<Longrightarrow> pc = Y_done (Err (HE_Hyper e)) \<or> pc = Y_idle \<Longrightarrow>
    y_step L acq self s (ts_upd i pc (hyper_unlock (y_unlock L) a (ts_world s)) s)"
| y_cancel: "ts_task s i = Y_locking key a \<or> ts_task s i = Y_done r \<Longrightarrow>
    y_step L acq self s (ts_upd i Y_idle (ts_world s) s)"
| y_other: "y_connecting w = y_connecting (ts_world s) \<Longrightarrow> y_step L acq self s (s\<lparr>ts_world := w\<rparr>)"

definition y_start :: "('k, 'tx, 's, 'w, 'io, 'e) y_sys \<Rightarrow> bool" where
  "y_start s \<longleftrightarrow> y_connecting (ts_world s) = lt_new \<and> ts_task s = (\<lambda>_. Y_idle)"

abbreviation y_reach :: "('c, 'k, 'io, 'tx, 'bg, 's, 'b, 'w, 'ce, 'he) hyper_lib \<Rightarrow> ('s \<Rightarrow> 's option) \<Rightarrow> ('c, 'b) HyperH2Connector
    \<Rightarrow> ('k, 'tx, 's, 'w, 'io, ('ce, 'he) HyperError) y_sys \<Rightarrow> bool" where
  "y_reach L acq self \<equiv> reachable y_start (y_step L acq self)"

definition y_lock_of :: "('k, 'io, 'r) y_pc \<Rightarrow> nat option" where
  "y_lock_of pc = (case pc of Y_transport _ a \<Rightarrow> Some a | Y_handshake _ _ a \<Rightarrow> Some a | _ \<Rightarrow> None)"

definition y_uses :: "('k, 'io, 'r) y_pc \<Rightarrow> 'k \<Rightarrow> nat \<Rightarrow> bool" where
  "y_uses pc key a \<longleftrightarrow> pc = Y_locking key a \<or> pc = Y_transport key a \<or> (\<exists>io. pc = Y_handshake key io a)"

definition dials :: "('k, 'io, 'r) y_pc \<Rightarrow> 'k \<Rightarrow> bool" where
  "dials pc key \<longleftrightarrow> (\<exists>a. pc = Y_transport key a \<or> (\<exists>io. pc = Y_handshake key io a))"

lemma y_lock_of_simps [simp]:
  "y_lock_of Y_idle = None" "y_lock_of (Y_locking key a) = None" "y_lock_of (Y_transport key a) = Some a"
  "y_lock_of (Y_handshake key io a) = Some a" "y_lock_of (Y_done r) = None"
  by (simp_all add: y_lock_of_def)

lemma y_uses_simps [simp]:
  "\<not> y_uses Y_idle key a" "\<not> y_uses (Y_done r) key a"
  "y_uses (Y_locking key' b) key a \<longleftrightarrow> key' = key \<and> b = a"
  "y_uses (Y_transport key' b) key a \<longleftrightarrow> key' = key \<and> b = a"
  "y_uses (Y_handshake key' io b) key a \<longleftrightarrow> key' = key \<and> b = a"
  by (auto simp: y_uses_def)

lemma dials_iff: "dials pc key \<longleftrightarrow> (\<exists>a. y_lock_of pc = Some a \<and> y_uses pc key a)"
  by (cases pc) (auto simp: dials_def)

interpretation y_locks: lock_protocol y_lock_of y_uses y_connecting
proof unfold_locales
  fix pc :: "('k, 'io, 'r) y_pc" and a
  show "y_lock_of pc = Some a \<Longrightarrow> \<exists>key. y_uses pc key a" by (cases pc) auto
qed

abbreviation y_inv :: "('s \<Rightarrow> nat) \<Rightarrow> ('k, 'tx, 's, 'w, 'io, 'e) y_sys \<Rightarrow> bool" where
  "y_inv permits \<equiv> lock_inv permits y_lock_of y_uses y_connecting"

lemma try_get_connecting [simp]:
  "hyper_try_get is_ready key w = (r, w') \<Longrightarrow> y_connecting w' = y_connecting w"
  by (auto simp: hyper_try_get_def Let_def split: option.splits prod.splits)

lemma finish_connecting [simp]:
  "hyper_finish spawn self key t task w = (c, w') \<Longrightarrow> y_connecting w' = y_connecting w"
  by (auto simp: hyper_finish_def HyperH2Connection_to_owned_def Let_def split: option.splits prod.splits)

text \<open>A task that releases its lock and ends.\<close>

lemma y_inv_unlock:
  assumes "sem_law permits fresh acq rel" and "y_inv permits s" and "y_lock_of (ts_task s i) = Some a"
    and "y_connecting w = y_connecting (ts_world s)" and "pc = Y_idle \<or> (\<exists>r. pc = Y_done r)"
  shows "y_inv permits (ts_upd i pc (hyper_unlock rel a w) s)"
  by (rule y_locks.step_release [OF assms(1-3)]) (use assms(4,5) in \<open>auto simp: hyper_unlock_def\<close>)

lemma y_inv_step:
  assumes law: "sem_law permits (Mutex_new L) acq (y_unlock L)"
    and step: "y_step L acq self s t" and inv: "y_inv permits s"
  shows "y_inv permits t"
  using step inv
proof (induction rule: y_step.induct)
  case (y_start_miss s i key w a t)
  then show ?case by (intro y_locks.step_get_lock [OF law, of s key a]) auto
next
  case (y_lock_hit s i key a t c w)
  then show ?case by (intro y_locks.step_cycle [OF law, of s a t]) (auto simp: hyper_unlock_def)
next
  case (y_lock_miss s i key a t w)
  then show ?case by (intro y_locks.step_acquire [OF law, of s a w i key]) auto
next
  case (y_transport_end s i key a pc e)
  then show ?case by (intro y_inv_unlock [OF law]) auto
next
  case (y_handshake_ok s i key io a t task c w)
  then show ?case by (intro y_inv_unlock [OF law]) auto
next
  case (y_handshake_end s i key io a pc e)
  then show ?case by (intro y_inv_unlock [OF law]) auto
next
  case (y_other w s)
  then show ?case by (simp add: lock_inv_def)
qed (rule y_locks.step_quiet; auto)+

interpretation hyper: invariant_system y_start "y_step L acq self"
    "\<lambda>s. sem_law permits (Mutex_new L) acq (y_unlock L) \<longrightarrow> y_inv permits s" for L acq self permits
  by unfold_locales (simp add: y_start_def lock_inv_def locks_inv_new, blast intro: y_inv_step)

lemma y_inv_reach:
  assumes "sem_law permits (Mutex_new L) acq (y_unlock L)" and "y_reach L acq self s"
  shows "y_inv permits s"
  using hyper.inv_reachable [OF assms(2)] assms(1) by blast

section \<open>Properties\<close>

text \<open>
  Property C18. \<open>HyperH2Connector\<close> opens connections one at a time: however calls of \<open>connect\<close> are
  interleaved, cancelled or fail and whatever happens to the pool, for each key at most one call
  dials or shakes hands; and a call that waits for its turn can go on exactly when no such call
  is under way.
\<close>

theorem hyper_single_flight:
  assumes "sem_law permits (Mutex_new L) acq (y_unlock L)" and "y_reach L acq self s"
  shows "(dials (ts_task s i) key \<and> dials (ts_task s j) key \<longrightarrow> i = j)
    \<and> (ts_task s l = Y_locking key a \<longrightarrow>
        (lt_acquire acq a (y_connecting (ts_world s)) \<noteq> None \<longleftrightarrow> \<not> (\<exists>j. dials (ts_task s j) key)))"
proof (intro conjI impI)
  note inv = y_inv_reach [OF assms]
  show "i = j" if "dials (ts_task s i) key \<and> dials (ts_task s j) key"
    using that y_locks.lock_exclusive [OF inv] unfolding dials_iff by blast
  show "lt_acquire acq a (y_connecting (ts_world s)) \<noteq> None \<longleftrightarrow> \<not> (\<exists>j. dials (ts_task s j) key)"
    if "ts_task s l = Y_locking key a"
    using y_locks.lock_live [OF assms(1) inv, of l key a] that by (simp add: dials_iff)
qed

text \<open>A library for concrete runs.\<close>

definition demo_hyper :: "(unit, string, nat, nat, unit, nat, unit, nat, string, string) hyper_lib" where
  "demo_hyper =
     \<lparr>y_transport = (\<lambda>_ key w. (Ok (y_env w), w)), y_handshake = (\<lambda>_ io w. (Ok (io, ()), w)),
      y_spawn = (\<lambda>_ e. e), y_is_ready = (\<lambda>e t. t \<le> e), Mutex_new = 1, y_lock = (\<lambda>_ w. w), y_unlock = Suc\<rparr>"

definition demo_hyper_self :: "(unit, unit) HyperH2Connector" where
  "demo_hyper_self = \<lparr>hy2_connector = (), hy2_builder = (), max_stream_sender = Some 3\<rparr>"

definition demo_hyper_world :: "(string, nat, nat, nat) hyper2_world" where
  "demo_hyper_world =
     \<lparr>y_pool = PoolInner_new None, y_connecting = lt_new, y_cnt = rc_empty, y_clock = 5, y_env = 7\<rparr>"

theorem hyper_single_flight_witness:
  "let s = \<lparr>ts_world = demo_hyper_world\<lparr>y_connecting := \<lparr>lt_map = [(''a'', 0)], lt_sems = [1]\<rparr>\<rparr>,
            ts_task = (\<lambda>_. Y_idle)(0 := Y_locking ''a'' 0)\<rparr> :: (string, nat, nat, nat, nat, (string, string) HyperError) y_sys
   in lt_acquire (\<lambda>n. if n = 0 then None else Some (n - 1)) 0 (y_connecting (ts_world s)) \<noteq> None"
proof -
  let ?acq = "\<lambda>n :: nat. if n = 0 then None else Some (n - 1)"
  let ?init = "\<lparr>ts_world = demo_hyper_world, ts_task = (\<lambda>_. Y_idle)\<rparr> :: (string, nat, nat, nat, nat, (string, string) HyperError) y_sys"
  let ?t = "\<lparr>lt_map = [(''a'', 0)], lt_sems = [1]\<rparr> :: (string, nat) lock_table"
  let ?s = "\<lparr>ts_world = demo_hyper_world\<lparr>y_connecting := ?t\<rparr>, ts_task = (\<lambda>_. Y_idle)(0 := Y_locking ''a'' 0)\<rparr>
    :: (string, nat, nat, nat, nat, (string, string) HyperError) y_sys"
  have law: "sem_law id (Mutex_new demo_hyper) ?acq (y_unlock demo_hyper)"
    by (auto simp: sem_law_def demo_hyper_def)
  have r0: "y_reach demo_hyper ?acq demo_hyper_self ?init"
    by (rule reachable.reach_init) (simp add: y_start_def demo_hyper_world_def)
  have g: "get_lock (Mutex_new demo_hyper) ''a'' (y_connecting demo_hyper_world) = (0, ?t)"
    by (simp add: get_lock_def demo_hyper_world_def lt_new_def demo_hyper_def) (simp add: hm_new_def hm_insert_def)
  have m: "hyper_try_get (y_is_ready demo_hyper) ''a'' demo_hyper_world = (None, demo_hyper_world)"
    by (simp add: hyper_try_get_def demo_hyper_world_def PoolInner_new_def)
  have "y_step demo_hyper ?acq demo_hyper_self ?init (ts_upd 0 (Y_locking ''a'' 0) (demo_hyper_world\<lparr>y_connecting := ?t\<rparr>) ?init)"
    by (rule y_step.y_start_miss [OF _ _ g]) (simp_all add: m)
  moreover have "ts_upd 0 (Y_locking ''a'' 0) (demo_hyper_world\<lparr>y_connecting := ?t\<rparr>) ?init = ?s"
    by (simp add: ts_upd_def)
  ultimately have "y_step demo_hyper ?acq demo_hyper_self ?init ?s" by (simp only:)
  with r0 have "y_reach demo_hyper ?acq demo_hyper_self ?s" by (rule reachable.reach_step)
  from hyper_single_flight [OF law this, of 0 "''a''" 0 0 0] show ?thesis
    by (auto simp: Let_def dials_def)
qed

text \<open>
  Property C20. The limit on streams: with a limit \<open>n\<close> configured, every counter of a reachable state
  counts at most \<open>max 2 n\<close> references, the one of the pool included, and whenever the pool serves a
  connection the handle it adds keeps the count within \<open>n\<close>; the connection served is ready. When
  nothing is served, every ready connection of the key is full.
\<close>

theorem hyper_stream_limit:
  assumes "count_reach is_ready spawn self w" and "hyper_try_get is_ready key w = (r, w')"
  shows "(rc_read a (y_cnt w) = Some n \<longrightarrow> max_stream_sender self = Some n \<and> strong_count a (y_cnt w) \<le> max 2 n)
    \<and> (\<forall>c. r = Some c \<longrightarrow> is_ready (y_env w) (h2_tx c) \<and>
        (h2_cnt c = Some a \<and> rc_read a (y_cnt w') = Some n \<longrightarrow> strong_count a (y_cnt w') \<le> n))
    \<and> (r = None \<longrightarrow> (\<forall>i \<in> set (queue_of (y_pool w) key). is_ready (y_env w) (h2_tx (conn i)) \<longrightarrow>
        stream_full (conn i) (y_cnt w')))"
proof -
  have "cnt_inv self (y_cnt w)" by (rule counts.inv_reachable [OF assms(1)])
  then have bound: "rc_read a (y_cnt w) = Some n \<longrightarrow> max_stream_sender self = Some n \<and> strong_count a (y_cnt w) \<le> max 2 n"
    by (simp add: cnt_inv_def)
  show ?thesis
  proof (cases "hm_get (idle_conns (y_pool w)) key")
    case None
    with assms(2) bound show ?thesis by (auto simp: hyper_try_get_def queue_of_absent)
  next
    case (Some conns)
    let ?ready = "\<lambda>i. is_ready (y_env w) (h2_tx (conn i))"
    let ?s = "drop_all (filter (\<lambda>i. \<not> ?ready i) conns) (y_cnt w)"
    obtain q s' where p: "pick_stream (y_clock w) (filter ?ready conns) ?s = (r, q, s')"
      and w': "y_cnt w' = s'"
      using assms(2) Some by (auto simp: hyper_try_get_def Let_def retain_def split: prod.splits)
    have served: "is_ready (y_env w) (h2_tx c) \<and>
        (h2_cnt c = Some a \<and> rc_read a s' = Some n \<longrightarrow> strong_count a s' \<le> n)" if "r = Some c" for c
      using pick_stream_Some [OF p [unfolded that]]
      by (auto simp: HyperH2Connection_to_owned_def stream_full_def rc.read_clone rc.count_clone)
    have "stream_full (conn i) s'" if "r = None" "i \<in> set conns" "?ready i" for i
    proof -
      have "\<forall>j \<in> set (filter ?ready conns). stream_full (conn j) ?s"
        using pick_stream_None [of "y_clock w" "filter ?ready conns" ?s] p that(1) by simp
      moreover have "s' = ?s" using pick_stream_miss [of "y_clock w" "filter ?ready conns" ?s] p that(1) by simp
      ultimately show ?thesis using that by simp
    qed
    with served bound show ?thesis unfolding w' hm_get_queue_of [OF Some] by blast
  qed
qed

theorem hyper_stream_limit_witness:
  "\<exists>c w'. hyper_try_get (y_is_ready demo_hyper) ''a''
      (snd (hyper_finish (y_spawn demo_hyper) demo_hyper_self ''a'' 4 () demo_hyper_world)) = (Some c, w')
    \<and> h2_tx c = 4 \<and> strong_count 0 (y_cnt w') \<le> 3"
proof -
  let ?w = "snd (hyper_finish (y_spawn demo_hyper) demo_hyper_self ''a'' 4 () demo_hyper_world)"
  let ?c = "\<lparr>h2_tx = 4, h2_cnt = Some 0\<rparr> :: nat HyperH2Connection"
  have r0: "count_reach (y_is_ready demo_hyper) (y_spawn demo_hyper) demo_hyper_self demo_hyper_world"
    by (rule reachable.reach_init) (simp add: demo_hyper_world_def)
  have f: "hyper_finish (y_spawn demo_hyper) demo_hyper_self ''a'' 4 () demo_hyper_world = (?c, ?w)"
    by (simp add: hyper_finish_def demo_hyper_self_def demo_hyper_world_def rc_new_def rc_empty_def
        HyperH2Connection_to_owned_def Let_def split: prod.splits)
  have reach: "count_reach (y_is_ready demo_hyper) (y_spawn demo_hyper) demo_hyper_self ?w"
    by (rule reachable.reach_step [OF r0 count_step.cs_new [OF f]])
  have q: "hyper_try_get (y_is_ready demo_hyper) ''a'' ?w = (Some ?c, snd (hyper_try_get (y_is_ready demo_hyper) ''a'' ?w))"
    "rc_read 0 (y_cnt (snd (hyper_try_get (y_is_ready demo_hyper) ''a'' ?w))) = Some 3"
    by (simp_all add: hyper_try_get_def hyper_finish_def demo_hyper_def demo_hyper_self_def demo_hyper_world_def
        rc_defs rc_empty_def HyperH2Connection_to_owned_def pool_put_def set_queue_def hm_or_insert_def
        PoolInner_new_def push_back_def Idle_new_def retain_def drop_all_def stream_full_def Let_def)
  let ?w' = "snd (hyper_try_get (y_is_ready demo_hyper) ''a'' ?w)"
  from hyper_stream_limit [OF reach q(1), of 0 3] q(2) have "strong_count 0 (y_cnt ?w') \<le> 3" by simp
  with q(1) show ?thesis by (intro exI [of _ ?c] exI [of _ ?w']) simp
qed

end
