(* ===== verification/Hyper_Client.thy ===== *)
theory Hyper_Client
  imports Hyper_H2
begin

text \<open>
  The hyper HTTP/2 connector as its clients see it: one call of \<open>connect\<close> as a run of the interleaving
  semantics, callers that keep their handles, so that a connection fills up, and calls that wait while
  another one dials.
\<close>

section \<open>A call as a run of the interleaving\<close>

text \<open>
  The library for a call that runs undisturbed: the transport and the handshake leave the table of
  locks alone, and waiting for the mutex ends when it is taken.
\<close>

definition hyper_undisturbed :: "('c, 'k, 'io, 'tx, 'bg, 's, 'b, 'w, 'ce, 'he) hyper_lib \<Rightarrow> ('s \<Rightarrow> 's option) \<Rightarrow> bool" where
  "hyper_undisturbed L acq \<longleftrightarrow>
     (\<forall>c key w. y_connecting (snd (y_transport L c key w)) = y_connecting w) \<and>
     (\<forall>b io w. y_connecting (snd (y_handshake L b io w)) = y_connecting w) \<and>
     (\<forall>a w t. lt_acquire acq a (y_connecting w) = Some t \<longrightarrow> y_lock L a w = w\<lparr>y_connecting := t\<rparr>)"

lemma hyper_undisturbedD:
  assumes "hyper_undisturbed L acq"
  shows "y_transport L c key w = (r, w') \<Longrightarrow> y_connecting w' = y_connecting w"
    and "y_handshake L b io w = (x, w') \<Longrightarrow> y_connecting w' = y_connecting w"
    and "lt_acquire acq a (y_connecting w) = Some t \<Longrightarrow> y_lock L a w = w\<lparr>y_connecting := t\<rparr>"
  using assms unfolding hyper_undisturbed_def by (metis snd_conv)+

lemma y_await:
  assumes "y_connecting w' = y_connecting w"
  shows "y_step L acq self (ts_upd i pc w s) (ts_upd i pc w' s)"
  using y_step.y_other [of w' "ts_upd i pc w s" L acq self] assms by (simp add: ts_upd_world)

lemma hyper_shake_run:
  assumes L: "hyper_undisturbed L acq"
    and res: "io_bind (io_map_err HE_Hyper (y_handshake L (hy2_builder self) io)) (\<lambda>(t, task) w.
        (case hyper_finish (y_spawn L) self key t task w of (c, w') \<Rightarrow> (Ok c, w'))) w = (r, w')"
  shows "(y_step L acq self)\<^sup>*\<^sup>* (ts_upd i (Y_handshake key io a) w s) (ts_upd i (Y_done r) (hyper_unlock (y_unlock L) a w') s)"
proof -
  obtain x w1 where hs: "y_handshake L (hy2_builder self) io w = (x, w1)" by fastforce
  let ?s = "ts_upd i (Y_handshake key io a) w1 s"
  have env: "y_step L acq self (ts_upd i (Y_handshake key io a) w s) ?s"
    by (rule y_await) (rule hyper_undisturbedD(2) [OF L hs])
  have "y_step L acq self ?s (ts_upd i (Y_done r) (hyper_unlock (y_unlock L) a w') s)"
  proof (cases x)
    case (Inl e)
    then show ?thesis
      using res hs y_step.y_handshake_end [of ?s i key io a "Y_done (Err (HE_Hyper e))" e L acq self]
      by (auto simp: io_bind_def io_map_err_def)
  next
    case (Inr y)
    obtain t task c w2 where "y = (t, task)" "hyper_finish (y_spawn L) self key t task w1 = (c, w2)" by (cases y) fastforce
    then show ?thesis
      using res hs Inr y_step.y_handshake_ok [of ?s i key io a L self t task c w2 acq]
      by (auto simp: io_bind_def io_map_err_def)
  qed
  with env show ?thesis by (meson converse_rtranclp_into_rtranclp r_into_rtranclp)
qed

lemma hyper_locked_run:
  assumes L: "hyper_undisturbed L acq" and acq: "lt_acquire acq a (y_connecting w) = Some t"
    and res: "hyper_locked L self key (w\<lparr>y_connecting := t\<rparr>) = (r, w')"
  shows "(y_step L acq self)\<^sup>*\<^sup>* (ts_upd i (Y_locking key a) w s) (ts_upd i (Y_done r) (hyper_unlock (y_unlock L) a w') s)"
proof -
  let ?s = "ts_upd i (Y_locking key a) w s"
  obtain q w1 where g: "hyper_try_get (y_is_ready L) key (w\<lparr>y_connecting := t\<rparr>) = (q, w1)" by fastforce
  show ?thesis
  proof (cases q)
    case (Some c)
    then show ?thesis
      using res g y_step.y_lock_hit [of ?s i key a acq t L c w1 self] acq by (auto simp: hyper_locked_def)
  next
    case None
    have miss: "y_step L acq self ?s (ts_upd i (Y_transport key a) w1 s)"
      using g None y_step.y_lock_miss [of ?s i key a acq t L w1 self] acq by simp
    obtain x w2 where tr: "y_transport L (hy2_connector self) key w1 = (x, w2)" by fastforce
    let ?s2 = "ts_upd i (Y_transport key a) w2 s"
    have env: "y_step L acq self (ts_upd i (Y_transport key a) w1 s) ?s2"
      by (rule y_await) (rule hyper_undisturbedD(1) [OF L tr])
    have "(y_step L acq self)\<^sup>*\<^sup>* ?s2 (ts_upd i (Y_done r) (hyper_unlock (y_unlock L) a w') s)"
    proof (cases x)
      case (Inl e)
      then show ?thesis
        using res g None tr y_step.y_transport_end [of ?s2 i key a "Y_done (Err (HE_Connect e))" e L acq self]
        by (auto simp: hyper_locked_def io_bind_def io_map_err_def)
    next
      case (Inr io)
      have "y_step L acq self ?s2 (ts_upd i (Y_handshake key io a) w2 s)"
        using y_step.y_transport_ok [of ?s2 i key a L acq self io] by simp
      moreover have "(y_step L acq self)\<^sup>*\<^sup>* (ts_upd i (Y_handshake key io a) w2 s)
          (ts_upd i (Y_done r) (hyper_unlock (y_unlock L) a w') s)"
        by (rule hyper_shake_run [OF L]) (use res g None tr Inr in \<open>simp add: hyper_locked_def io_bind_def io_map_err_def\<close>)
      ultimately show ?thesis by (rule converse_rtranclp_into_rtranclp)
    qed
    with miss env show ?thesis by (meson converse_rtranclp_into_rtranclp)
  qed
qed

text \<open>
  The two semantics of \<open>HyperH2Connector::connect\<close> agree: from every reachable state in which a task
  is not running and nobody dials for the key, a call that is not disturbed is a run of the
  interleaving that leads to its answer and its world, and leaves all other tasks where they were.
\<close>

lemma hyper_connect_is_run:
  assumes "sem_law permits (Mutex_new L) acq (y_unlock L)" and "y_reach L acq self s"
    and "hyper_undisturbed L acq" and "ts_task s i = Y_idle" and "\<And>j. \<not> dials (ts_task s j) key"
    and "HyperH2Connector_connect L self key (ts_world s) = (r, w')"
  shows "(y_step L acq self)\<^sup>*\<^sup>* s (ts_upd i (Y_done r) w' s)"
proof -
  obtain q w1 where g: "hyper_try_get (y_is_ready L) key (ts_world s) = (q, w1)" by fastforce
  show ?thesis
  proof (cases q)
    case (Some c)
    then show ?thesis
      using assms(6) g y_step.y_start_hit [OF assms(4), of L key c w1 acq self] by (auto simp: HyperH2Connector_connect_def)
  next
    case None
    obtain a t where l: "get_lock (Mutex_new L) key (y_connecting w1) = (a, t)" by fastforce
    let ?w = "w1\<lparr>y_connecting := t\<rparr>"
    let ?s = "ts_upd i (Y_locking key a) ?w s"
    have start: "y_step L acq self s ?s" using y_step.y_start_miss [OF assms(4) _ l] g None by blast
    have inv: "y_inv permits ?s" by (rule y_inv_step [OF assms(1) start y_inv_reach [OF assms(1,2)]])
    have "lt_acquire acq a (y_connecting (ts_world ?s)) \<noteq> None"
      using y_locks.lock_live [OF assms(1) inv, of i key a] assms(5) by (simp add: dials_iff)
    then obtain t' where t': "lt_acquire acq a (y_connecting ?w) = Some t'" by auto
    obtain r' w2 where body: "hyper_locked L self key (?w\<lparr>y_connecting := t'\<rparr>) = (r', w2)" by fastforce
    have "r' = r" "w' = hyper_unlock (y_unlock L) a w2"
      using assms(6) g None l hyper_undisturbedD(3) [OF assms(3) t'] body by (auto simp: HyperH2Connector_connect_def)
    with start hyper_locked_run [OF assms(3) t' body] show ?thesis by (meson converse_rtranclp_into_rtranclp)
  qed
qed

section \<open>Callers that keep their handles\<close>

text \<open>Several calls find their key in the pool, or not, one after the other; nobody drops a handle.\<close>

fun hyper_gets :: "('w \<Rightarrow> 'tx \<Rightarrow> bool) \<Rightarrow> 'k \<Rightarrow> nat \<Rightarrow> ('k, 'tx, 's, 'w) hyper2_world
    \<Rightarrow> 'tx HyperH2Connection option list \<times> ('k, 'tx, 's, 'w) hyper2_world" where
  "hyper_gets is_ready key 0 w = ([], w)"
| "hyper_gets is_ready key (Suc m) w =
     (case hyper_try_get is_ready key w of
        (r, w1) \<Rightarrow> (case hyper_gets is_ready key m w1 of (rs, w2) \<Rightarrow> (r # rs, w2)))"

text \<open>The only connection of the key has the limit \<open>n\<close> and \<open>k\<close> references.\<close>

definition filled :: "('w \<Rightarrow> 'tx \<Rightarrow> bool) \<Rightarrow> 'k \<Rightarrow> 'tx HyperH2Connection \<Rightarrow> nat \<Rightarrow> nat \<Rightarrow> ('k, 'tx, 's, 'w) hyper2_world \<Rightarrow> bool" where
  "filled is_ready key c n k w \<longleftrightarrow>
     is_ready (y_env w) (h2_tx c) \<and>
     (\<exists>e a. hm_get (idle_conns (y_pool w)) key = Some [e] \<and> conn e = c \<and> h2_cnt c = Some a \<and>
        rc_read a (y_cnt w) = Some n \<and> strong_count a (y_cnt w) = k)"

lemma filled_get:
  assumes "filled is_ready key c n k w"
  shows "\<exists>w1. hyper_try_get is_ready key w = (if k < n then Some c else None, w1)
    \<and> filled is_ready key c n (if k < n then Suc k else k) w1"
proof -
  obtain e a where e: "hm_get (idle_conns (y_pool w)) key = Some [e]" "conn e = c" "h2_cnt c = Some a"
    "rc_read a (y_cnt w) = Some n" "strong_count a (y_cnt w) = k" "is_ready (y_env w) (h2_tx c)"
    using assms by (auto simp: filled_def)
  then show ?thesis
    by (auto simp: hyper_try_get_def retain_def drop_all_def stream_full_def HyperH2Connection_to_owned_def filled_def
        set_queue_def reset_idle_def rc.read_clone rc.count_clone)
qed

lemma filled_gets:
  "filled is_ready key c n k w \<Longrightarrow>
   fst (hyper_gets is_ready key m w) = replicate (min m (n - k)) (Some c) @ replicate (m - (n - k)) None"
proof (induction m arbitrary: k w)
  case (Suc m)
  obtain w1 where g: "hyper_try_get is_ready key w = (if k < n then Some c else None, w1)"
    and f: "filled is_ready key c n (if k < n then Suc k else k) w1"
    using filled_get [OF Suc.prems] by blast
  show ?case
  proof (cases "k < n")
    case True
    then have "min (Suc m) (n - k) = Suc (min m (n - Suc k))" "Suc m - (n - k) = m - (n - Suc k)" by auto
    with Suc.IH [OF f] g True show ?thesis by (auto split: prod.splits)
  next
    case False
    with Suc.IH [OF f] g show ?thesis by (auto split: prod.splits)
  qed
qed simp

text \<open>The first connection of a key has two references, the handle of the caller and the one in the pool.\<close>

lemma finish_filled:
  assumes "queue_of (y_pool w) key = []" and "max_stream_sender self = Some n"
    and "hyper_finish spawn self key t task w = (c, w1)" and "is_ready (y_env w1) t"
  shows "filled is_ready key c n 2 w1"
proof -
  obtain a s where s: "rc_new n (y_cnt w) = (a, s)" by fastforce
  have a: "a = fst (rc_new n (y_cnt w))" "s = snd (rc_new n (y_cnt w))" using s by simp_all
  have c: "c = \<lparr>h2_tx = t, h2_cnt = Some a\<rparr>"
    and w1: "y_cnt w1 = rc_clone a s" "y_pool w1 = pool_put (y_clock w) key c (y_pool w)"
    using assms(1-3) s by (auto simp: hyper_finish_def HyperH2Connection_to_owned_def drop_all_def Let_def
        simp flip: queue_of_def)
  have "hm_get (idle_conns (y_pool w1)) key = Some [Idle_new (y_clock w) c]"
    using assms(1) unfolding w1 by (simp add: pool_put_def Let_def set_queue_def push_back_def flip: queue_of_def)
  moreover have "rc_read a (y_cnt w1) = Some n" "strong_count a (y_cnt w1) = 2"
    unfolding w1 a by (simp_all add: rc.read_clone rc.count_clone rc.read_alloc rc.count_alloc)
  ultimately show ?thesis
    using assms(4) by (auto simp: filled_def c Idle_new_def)
qed

section \<open>Callers that wait\<close>

lemma filled_connecting [simp]:
  "filled is_ready key c n k (w\<lparr>y_connecting := t\<rparr>) = filled is_ready key c n k w"
  "filled is_ready key c n k (hyper_unlock rel a w) = filled is_ready key c n k w"
  by (simp_all add: filled_def hyper_unlock_def)

text \<open>A call that waits for the lock while nobody dials: it is given the connection, or dials if that is full.\<close>

lemma hyper_waiter:
  assumes law: "sem_law permits (Mutex_new L) acq (y_unlock L)" and inv: "y_inv permits s"
    and i: "ts_task s i = Y_locking key a" and free: "\<And>j. \<not> dials (ts_task s j) key"
    and f: "filled (y_is_ready L) key c n k (ts_world s)"
  shows "if k < n then \<exists>w. y_step L acq self s (ts_upd i (Y_done (Ok c)) w s) \<and> filled (y_is_ready L) key c n (Suc k) w
    else \<exists>w. y_step L acq self s (ts_upd i (Y_transport key a) w s)"
proof -
  have "y_uses (ts_task s i) key a" using i by simp
  from y_locks.lock_live [OF law inv this] free
  obtain t where t: "lt_acquire acq a (y_connecting (ts_world s)) = Some t" by (auto simp: dials_iff)
  obtain w where g: "hyper_try_get (y_is_ready L) key ((ts_world s)\<lparr>y_connecting := t\<rparr>) = (if k < n then Some c else None, w)"
    and w: "filled (y_is_ready L) key c n (if k < n then Suc k else k) w"
    using filled_get [where w = "(ts_world s)\<lparr>y_connecting := t\<rparr>"] f by fastforce
  show ?thesis
  proof (cases "k < n")
    case True
    with g w have "y_step L acq self s (ts_upd i (Y_done (Ok c)) (hyper_unlock (y_unlock L) a w) s)"
      by (intro y_step.y_lock_hit [OF i t]) simp
    with True w show ?thesis by (auto intro!: exI [of _ "hyper_unlock (y_unlock L) a w"])
  next
    case False
    with g y_step.y_lock_miss [OF i t] show ?thesis by auto
  qed
qed

text \<open>A full connection is given to nobody who waits.\<close>

lemma full_not_given:
  assumes "filled (y_is_ready L) key c n k (ts_world s)" and "n \<le> k" and "ts_task s i = Y_locking key a" and "y_step L acq self s s'"
  shows "ts_task s' i \<noteq> Y_done (Ok c')"
  using assms(4)
proof cases
  case (y_lock_hit i' key' a' t d w)
  show ?thesis
  proof (cases "i' = i")
    case True
    with y_lock_hit assms(3) have "hyper_try_get (y_is_ready L) key ((ts_world s)\<lparr>y_connecting := t\<rparr>) = (Some d, w)" by simp
    with filled_get [where w = "(ts_world s)\<lparr>y_connecting := t\<rparr>"] assms(1,2) show ?thesis by fastforce
  qed (use y_lock_hit assms(3) in simp)
qed (use assms(3) in auto)

lemma full_then_dials:
  assumes "sem_law permits (Mutex_new L) acq (y_unlock L)" and "y_inv permits s" and "ts_task s i = Y_locking key a"
    and "\<And>j. \<not> dials (ts_task s j) key" and "filled (y_is_ready L) key c n k (ts_world s)" and "n \<le> k"
  shows "(\<forall>s'. y_step L acq self s s' \<longrightarrow> ts_task s' i \<noteq> Y_done (Ok c'))
    \<and> (\<exists>b w'. y_step L acq self s (ts_upd i (Y_transport key b) w' s))"
proof -
  have "\<not> k < n" using assms(6) by simp
  with hyper_waiter [where self = self, OF assms(1-5)] full_not_given [OF assms(5,6,3)] show ?thesis by auto
qed

text \<open>Waiting calls are served one after the other while the connection is not full.\<close>

lemma hyper_waiters:
  assumes law: "sem_law permits (Mutex_new L) acq (y_unlock L)"
  shows "y_inv permits s \<Longrightarrow> distinct is \<Longrightarrow> (\<And>i. i \<in> set is \<Longrightarrow> \<exists>a. ts_task s i = Y_locking key a) \<Longrightarrow>
    (\<And>j. \<not> dials (ts_task s j) key) \<Longrightarrow> filled (y_is_ready L) key c n k (ts_world s) \<Longrightarrow> (is \<noteq> [] \<Longrightarrow> k + length is \<le> n) \<Longrightarrow>
    \<exists>ss. length ss = length is \<and> y_inv permits (last (s # ss)) \<and> filled (y_is_ready L) key c n (k + length is) (ts_world (last (s # ss))) \<and>
      (\<forall>j. ts_task (last (s # ss)) j = (if j \<in> set is then Y_done (Ok c) else ts_task s j)) \<and>
      (\<forall>m < length is. y_step L acq self ((s # ss) ! m) (ss ! m) \<and>
        (\<forall>j. ts_task (ss ! m) j = (if j \<in> set (take (Suc m) is) then Y_done (Ok c) else ts_task s j)))"
proof (induction "is" arbitrary: s k)
  case Nil
  then show ?case by simp
next
  case (Cons i "is")
  obtain a where i: "ts_task s i = Y_locking key a" using Cons.prems(3) [of i] by auto
  obtain w where step: "y_step L acq self s (ts_upd i (Y_done (Ok c)) w s)" and w: "filled (y_is_ready L) key c n (Suc k) w"
    using hyper_waiter [where self = self, OF law Cons.prems(1) i Cons.prems(4,5)] Cons.prems(6) by auto
  let ?s = "ts_upd i (Y_done (Ok c)) w s"
  have "\<exists>ss. length ss = length is \<and> y_inv permits (last (?s # ss)) \<and> filled (y_is_ready L) key c n (Suc k + length is) (ts_world (last (?s # ss))) \<and>
      (\<forall>j. ts_task (last (?s # ss)) j = (if j \<in> set is then Y_done (Ok c) else ts_task ?s j)) \<and>
      (\<forall>m < length is. y_step L acq self ((?s # ss) ! m) (ss ! m) \<and>
        (\<forall>j. ts_task (ss ! m) j = (if j \<in> set (take (Suc m) is) then Y_done (Ok c) else ts_task ?s j)))"
    by (rule Cons.IH) (use Cons.prems w y_inv_step [OF law step] in \<open>auto simp: dials_def\<close>)
  then obtain ss where ss: "length ss = length is" "y_inv permits (last (?s # ss))"
    "filled (y_is_ready L) key c n (Suc k + length is) (ts_world (last (?s # ss)))"
    "\<And>j. ts_task (last (?s # ss)) j = (if j \<in> set is then Y_done (Ok c) else ts_task ?s j)"
    "\<And>m. m < length is \<Longrightarrow> y_step L acq self ((?s # ss) ! m) (ss ! m)"
    "\<And>m j. m < length is \<Longrightarrow> ts_task (ss ! m) j = (if j \<in> set (take (Suc m) is) then Y_done (Ok c) else ts_task ?s j)" by blast
  have "y_step L acq self ((s # ?s # ss) ! m) ((?s # ss) ! m) \<and>
      (\<forall>j. ts_task ((?s # ss) ! m) j = (if j \<in> set (take (Suc m) (i # is)) then Y_done (Ok c) else ts_task s j))" if "m < length (i # is)" for m
    using that step ss(5,6) by (cases m) auto
  with ss(1-4) show ?case by (intro exI [of _ "?s # ss"]) auto
qed

text \<open>Nobody else dials for a key while one call shakes hands for it, so nobody does once it has finished.\<close>

lemma handshake_then_free:
  assumes "y_inv permits s" and "ts_task s j = Y_handshake key io a"
  shows "\<not> dials (ts_task (ts_upd j (Y_done r) w s) i) key"
proof (cases "i = j")
  case False
  have "dials (ts_task s j) key" using assms(2) by (auto simp: dials_def)
  with False y_locks.lock_exclusive [OF assms(1)] show ?thesis unfolding dials_iff by auto
qed (simp add: dials_def)

section \<open>Properties\<close>

text \<open>The library of the examples with a mutex that is really taken.\<close>

definition counting_acq :: "nat \<Rightarrow> nat option" where
  "counting_acq n = (if n = 0 then None else Some (n - 1))"

definition mutex_lib :: "(unit, string, nat, nat, unit, nat, unit, nat, string, string) hyper_lib" where
  "mutex_lib = demo_hyper\<lparr>y_lock := (\<lambda>a w. case lt_acquire counting_acq a (y_connecting w) of
     None \<Rightarrow> w | Some t \<Rightarrow> w\<lparr>y_connecting := t\<rparr>)\<rparr>"

lemma mutex_law: "sem_law id (Mutex_new mutex_lib) counting_acq (y_unlock mutex_lib)"
  by (auto simp: sem_law_def mutex_lib_def demo_hyper_def counting_acq_def)

text \<open>
  Property C19. Calls that wait while the first connection of a key is opened share it up to its limit. In a
  reachable state let a call shake hands for a key without pooled connections while others wait for
  its lock, the limit on handles being \<open>n\<close>, and let the handshake succeed with a sender that is ready.
  Then for every order of the waiting calls there is a run of one step each in which the call that
  shook hands and the first \<open>n - 2\<close> of them finish with this connection, in this order. The next one
  is not given it by any step, and can go on to dial.
\<close>

theorem hyper_waiters_fill:
  assumes "sem_law permits (Mutex_new L) acq (y_unlock L)" and "y_reach L acq self s"
    and "ts_task s j = Y_handshake key io a" and "queue_of (y_pool (ts_world s)) key = []" and "max_stream_sender self = Some n"
    and "hyper_finish (y_spawn L) self key t task (ts_world s) = (c, w)" and "y_is_ready L (y_env w) t"
    and "distinct is" and "\<And>i. i \<in> set is \<Longrightarrow> \<exists>b. ts_task s i = Y_locking key b"
  shows "\<exists>ss. length ss = Suc (min (length is) (n - 2)) \<and>
      (\<forall>m < length ss. y_step L acq self ((s # ss) ! m) (ss ! m) \<and>
        (\<forall>i. ts_task (ss ! m) i = (if i \<in> set (take (Suc m) (j # is)) then Y_done (Ok c) else ts_task s i))) \<and>
      (n - 2 < length is \<longrightarrow>
        (\<forall>s'. y_step L acq self (last ss) s' \<longrightarrow> ts_task s' (is ! (n - 2)) \<noteq> Y_done (Ok c)) \<and>
        (\<exists>b w'. y_step L acq self (last ss) (ts_upd (is ! (n - 2)) (Y_transport key b) w' (last ss))))"
proof -
  let ?s = "ts_upd j (Y_done (Ok c)) (hyper_unlock (y_unlock L) a w) s" and ?is = "take (n - 2) is"
  have step: "y_step L acq self s ?s" by (rule y_step.y_handshake_ok [OF assms(3,6)])
  have inv: "y_inv permits s" by (rule y_inv_reach [OF assms(1,2)])
  note free = handshake_then_free [OF inv assms(3)]
  have f: "filled (y_is_ready L) key c n 2 (ts_world ?s)"
    using finish_filled [where is_ready = "y_is_ready L", OF assms(4-7)] by simp
  have waiting: "i \<noteq> j \<and> (\<exists>b. ts_task s i = Y_locking key b)" if "i \<in> set is" for i
    using assms(9) [OF that] assms(3) by auto
  have "\<exists>ss. length ss = length ?is \<and> y_inv permits (last (?s # ss)) \<and> filled (y_is_ready L) key c n (2 + length ?is) (ts_world (last (?s # ss))) \<and>
      (\<forall>i. ts_task (last (?s # ss)) i = (if i \<in> set ?is then Y_done (Ok c) else ts_task ?s i)) \<and>
      (\<forall>m < length ?is. y_step L acq self ((?s # ss) ! m) (ss ! m) \<and>
        (\<forall>i. ts_task (ss ! m) i = (if i \<in> set (take (Suc m) ?is) then Y_done (Ok c) else ts_task ?s i)))"
    by (rule hyper_waiters [OF assms(1) y_inv_step [OF assms(1) step inv] _ _ free f])
      (use assms(8) in \<open>auto dest!: in_set_takeD waiting\<close>)
  then obtain ss where ss: "length ss = length ?is" "y_inv permits (last (?s # ss))"
    "filled (y_is_ready L) key c n (2 + length ?is) (ts_world (last (?s # ss)))"
    "\<And>i. ts_task (last (?s # ss)) i = (if i \<in> set ?is then Y_done (Ok c) else ts_task ?s i)"
    "\<And>m. m < length ?is \<Longrightarrow> y_step L acq self ((?s # ss) ! m) (ss ! m)"
    "\<And>m i. m < length ?is \<Longrightarrow> ts_task (ss ! m) i = (if i \<in> set (take (Suc m) ?is) then Y_done (Ok c) else ts_task ?s i)" by blast
  have run: "y_step L acq self ((s # ?s # ss) ! m) ((?s # ss) ! m) \<and>
      (\<forall>i. ts_task ((?s # ss) ! m) i = (if i \<in> set (take (Suc m) (j # is)) then Y_done (Ok c) else ts_task s i))"
    if "m < length (?s # ss)" for m
    using that step ss(1,5,6) by (cases m) (auto simp: min_def split: if_splits)
  have full: "(\<forall>s'. y_step L acq self (last (?s # ss)) s' \<longrightarrow> ts_task s' (is ! (n - 2)) \<noteq> Y_done (Ok c)) \<and>
      (\<exists>b w'. y_step L acq self (last (?s # ss)) (ts_upd (is ! (n - 2)) (Y_transport key b) w' (last (?s # ss))))"
    if more: "n - 2 < length is"
  proof -
    let ?i = "is ! (n - 2)" and ?t = "last (?s # ss)"
    obtain b where b: "ts_task s ?i = Y_locking key b" "?i \<noteq> j" using waiting [of ?i] more by auto
    have "?i \<notin> set ?is" using assms(8) more by (auto simp: in_set_conv_nth nth_eq_iff_index_eq)
    with b ss(4) have i: "ts_task ?t ?i = Y_locking key b" by simp
    have nobody: "\<not> dials (ts_task ?t i) key" for i using ss(4) free by (simp add: dials_def)
    show ?thesis by (rule full_then_dials [OF assms(1) ss(2) i nobody ss(3)]) (use more in simp)
  qed
  show ?thesis
    using run full ss(1) by (intro exI [of _ "?s # ss"]) (simp add: min.commute)
qed

text \<open>Task 0 shakes hands under a limit of 3 while the tasks 1 and 2 wait.\<close>

definition waiting_sys :: "(nat \<Rightarrow> (string, nat, (nat HyperH2Connection, (string, string) HyperError) result) y_pc) \<Rightarrow> nat
    \<Rightarrow> (string, nat, nat, nat, nat, (string, string) HyperError) y_sys" where
  "waiting_sys tasks n =
     \<lparr>ts_world = demo_hyper_world\<lparr>y_connecting := \<lparr>lt_map = [(''a'', 0)], lt_sems = [n]\<rparr>\<rparr>, ts_task = tasks\<rparr>"

abbreviation three_tasks :: "(string, nat, nat, nat, nat, (string, string) HyperError) y_sys" where
  "three_tasks \<equiv> waiting_sys ((\<lambda>_. Y_idle)(0 := Y_handshake ''a'' 4 0, 1 := Y_locking ''a'' 0, 2 := Y_locking ''a'' 0)) 0"

lemma three_tasks_reach: "y_reach mutex_lib counting_acq demo_hyper_self three_tasks"
proof -
  let ?step = "y_step mutex_lib counting_acq demo_hyper_self" and ?reach = "y_reach mutex_lib counting_acq demo_hyper_self"
  let ?init = "\<lparr>ts_world = demo_hyper_world, ts_task = (\<lambda>_. Y_idle)\<rparr> :: (string, nat, nat, nat, nat, (string, string) HyperError) y_sys"
  let ?t = "\<lambda>n. \<lparr>lt_map = [(''a'', 0)], lt_sems = [n]\<rparr> :: (string, nat) lock_table"
  have miss: "hyper_try_get rd ''a'' (demo_hyper_world\<lparr>y_connecting := t\<rparr>) = (None, demo_hyper_world\<lparr>y_connecting := t\<rparr>)"
    "hyper_try_get rd ''a'' demo_hyper_world = (None, demo_hyper_world)" for rd t
    by (simp_all add: hyper_try_get_def demo_hyper_world_def PoolInner_new_def)
  have l0: "get_lock (Mutex_new mutex_lib) ''a'' (y_connecting demo_hyper_world) = (0, ?t 1)"
    by (simp add: get_lock_def demo_hyper_world_def lt_new_def mutex_lib_def demo_hyper_def) (simp add: hm_new_def hm_insert_def)
  have l: "get_lock (Mutex_new mutex_lib) ''a'' (?t 0) = (0, ?t 0)" by (simp add: get_lock_def hm_get_def)
  have acq: "lt_acquire counting_acq 0 (?t 1) = Some (?t 0)" by (simp add: lt_acquire_def counting_acq_def)
  have r0: "y_reach mutex_lib counting_acq demo_hyper_self ?init"
    by (rule reachable.reach_init) (simp add: y_start_def demo_hyper_world_def)
  have first: "?step ?init (waiting_sys ((\<lambda>_. Y_idle)(0 := Y_locking ''a'' 0)) 1)"
    using y_step.y_start_miss [of ?init 0 mutex_lib "''a''" demo_hyper_world 0 "?t 1" counting_acq demo_hyper_self] miss(2) l0
    by (simp add: waiting_sys_def ts_upd_def)
  have lock: "?step (waiting_sys f 1) (waiting_sys (f(0 := Y_transport ''a'' 0)) 0)" if "f 0 = Y_locking ''a'' 0" for f
    using y_step.y_lock_miss [of "waiting_sys f 1" 0 "''a''" 0 counting_acq "?t 0" mutex_lib "demo_hyper_world\<lparr>y_connecting := ?t 0\<rparr>" demo_hyper_self]
      that miss(1) acq by (simp add: waiting_sys_def ts_upd_def)
  have transport: "?step (waiting_sys f 0) (waiting_sys (f(0 := Y_handshake ''a'' 4 0)) 0)" if "f 0 = Y_transport ''a'' 0" for f
    using y_step.y_transport_ok [of "waiting_sys f 0" 0 "''a''" 0 mutex_lib counting_acq demo_hyper_self 4] that
    by (simp add: waiting_sys_def ts_upd_def)
  have wait: "?step (waiting_sys f 0) (waiting_sys (f(i := Y_locking ''a'' 0)) 0)" if "f i = Y_idle" for f i
    using y_step.y_start_miss [of "waiting_sys f 0" i mutex_lib "''a''" "demo_hyper_world\<lparr>y_connecting := ?t 0\<rparr>" 0 "?t 0" counting_acq demo_hyper_self]
      that miss(1) l by (simp add: waiting_sys_def ts_upd_def)
  have r1: "?reach (waiting_sys ((\<lambda>_. Y_idle)(0 := Y_locking ''a'' 0)) 1)" by (rule reachable.reach_step [OF r0 first])
  have r2: "?reach (waiting_sys ((\<lambda>_. Y_idle)(0 := Y_transport ''a'' 0)) 0)"
    using reachable.reach_step [OF r1 lock] by simp
  have r3: "?reach (waiting_sys ((\<lambda>_. Y_idle)(0 := Y_handshake ''a'' 4 0)) 0)"
    using reachable.reach_step [OF r2 transport] by simp
  have r4: "?reach (waiting_sys ((\<lambda>_. Y_idle)(0 := Y_handshake ''a'' 4 0, 1 := Y_locking ''a'' 0)) 0)"
    by (rule reachable.reach_step [OF r3 wait]) simp
  show ?thesis by (rule reachable.reach_step [OF r4 wait]) simp
qed

theorem hyper_waiters_fill_witness:
  "\<exists>s1 s2 c b w. y_step mutex_lib counting_acq demo_hyper_self three_tasks s1 \<and> y_step mutex_lib counting_acq demo_hyper_self s1 s2 \<and>
     ts_task s2 0 = Y_done (Ok c) \<and> ts_task s2 1 = Y_done (Ok c) \<and> ts_task s2 2 = Y_locking ''a'' 0 \<and>
     y_step mutex_lib counting_acq demo_hyper_self s2 (ts_upd 2 (Y_transport ''a'' b) w s2)"
proof -
  obtain c w where f: "hyper_finish (y_spawn mutex_lib) demo_hyper_self ''a'' 4 () (ts_world three_tasks) = (c, w)" by fastforce
  have h: "ts_task three_tasks 0 = Y_handshake ''a'' 4 0" by (simp add: waiting_sys_def)
  have q: "queue_of (y_pool (ts_world three_tasks)) ''a'' = []" by (simp add: waiting_sys_def demo_hyper_world_def)
  have n: "max_stream_sender demo_hyper_self = Some 3" by (simp add: demo_hyper_self_def)
  have r: "y_is_ready mutex_lib (y_env w) 4"
    using f by (auto simp: hyper_finish_def mutex_lib_def demo_hyper_def waiting_sys_def demo_hyper_world_def demo_hyper_self_def
        HyperH2Connection_to_owned_def Let_def split: prod.splits)
  have d: "distinct [1 :: nat, 2]" by simp
  have waiting: "\<exists>b. ts_task three_tasks i = Y_locking ''a'' b" if "i \<in> set [1, 2]" for i
    using that by (auto simp: waiting_sys_def)
  obtain ss where len: "length ss = Suc (min (length [1 :: nat, 2]) (3 - 2))"
    and run: "\<forall>m < length ss. y_step mutex_lib counting_acq demo_hyper_self ((three_tasks # ss) ! m) (ss ! m) \<and>
      (\<forall>i. ts_task (ss ! m) i = (if i \<in> set (take (Suc m) [0, 1, 2]) then Y_done (Ok c) else ts_task three_tasks i))"
    and "3 - 2 < length [1 :: nat, 2] \<longrightarrow>
        (\<forall>s'. y_step mutex_lib counting_acq demo_hyper_self (last ss) s' \<longrightarrow> ts_task s' ([1, 2] ! (3 - 2)) \<noteq> Y_done (Ok c)) \<and>
        (\<exists>b w'. y_step mutex_lib counting_acq demo_hyper_self (last ss) (ts_upd ([1, 2] ! (3 - 2)) (Y_transport ''a'' b) w' (last ss)))"
    by (rule exE [OF hyper_waiters_fill [OF mutex_law three_tasks_reach h q n f r d waiting]]) (assumption, elim conjE, blast)
  then have dial: "\<exists>b w'. y_step mutex_lib counting_acq demo_hyper_self (last ss) (ts_upd 2 (Y_transport ''a'' b) w' (last ss))"
    by simp
  from len obtain s1 s2 where s: "ss = [s1, s2]" by (auto simp: length_Suc_conv)
  have "y_step mutex_lib counting_acq demo_hyper_self three_tasks s1" using run [rule_format, of 0] by (simp add: s)
  moreover have "y_step mutex_lib counting_acq demo_hyper_self s1 s2" using run [rule_format, of 1] by (simp add: s)
  moreover have "ts_task s2 0 = Y_done (Ok c)" "ts_task s2 1 = Y_done (Ok c)" "ts_task s2 2 = Y_locking ''a'' 0"
    using run [rule_format, of 1] by (simp_all add: s waiting_sys_def)
  moreover obtain b w' where "y_step mutex_lib counting_acq demo_hyper_self s2 (ts_upd 2 (Y_transport ''a'' b) w' s2)"
    using dial by (auto simp: s)
  ultimately show ?thesis by blast
qed

text \<open>
  Property C21. How many handles a connection serves: after a connect that made the first connection of
  a key with the limit \<open>n\<close>, and as long as the connection is ready and nobody drops a handle, exactly
  the next \<open>n - 2\<close> calls are given that same connection and all later ones find it full. Together
  with the first one these are \<open>n - 1\<close> handles, one less than the configured number, because the pool
  keeps a reference of its own; with a limit of 2 or less a connection is never shared.
\<close>

theorem hyper_handles_exact:
  assumes "queue_of (y_pool w) key = []" and "max_stream_sender self = Some n"
    and "hyper_finish spawn self key t task w = (c, w1)" and "is_ready (y_env w1) t"
  shows "fst (hyper_gets is_ready key m w1) = replicate (min m (n - 2)) (Some c) @ replicate (m - (n - 2)) None"
  by (rule filled_gets [OF finish_filled [where is_ready = is_ready, OF assms]])

theorem hyper_handles_exact_witness:
  "fst (hyper_gets (y_is_ready demo_hyper) ''a'' 3 (snd (hyper_finish (y_spawn demo_hyper) demo_hyper_self ''a'' 4 () demo_hyper_world)))
   = [Some \<lparr>h2_tx = 4, h2_cnt = Some 0\<rparr>, None, None]"
proof -
  let ?w1 = "snd (hyper_finish (y_spawn demo_hyper) demo_hyper_self ''a'' 4 () demo_hyper_world)"
  have q: "queue_of (y_pool demo_hyper_world) ''a'' = []" by (simp add: demo_hyper_world_def)
  have n: "max_stream_sender demo_hyper_self = Some 3" by (simp add: demo_hyper_self_def)
  have f: "hyper_finish (y_spawn demo_hyper) demo_hyper_self ''a'' 4 () demo_hyper_world = (\<lparr>h2_tx = 4, h2_cnt = Some 0\<rparr>, ?w1)"
    by (simp add: hyper_finish_def demo_hyper_self_def demo_hyper_world_def rc_new_def rc_empty_def
        HyperH2Connection_to_owned_def Let_def split: prod.splits)
  have r: "y_is_ready demo_hyper (y_env ?w1) 4"
    by (simp add: hyper_finish_def demo_hyper_def demo_hyper_world_def HyperH2Connection_to_owned_def Let_def split: prod.splits)
  from hyper_handles_exact [where is_ready = "y_is_ready demo_hyper", OF q n f r, of 3] show ?thesis
    by (simp add: numeral_3_eq_3 numeral_2_eq_2)
qed

end
