(* ===== verification/Hyper_Body.thy ===== *)
theory Hyper_Body
  imports Streams
begin

text \<open>
  Bodies between monoio-http and hyper, \<open>src/http/hyper/body.rs\<close>. \<open>HyperBody\<close> lets hyper poll a body
  whose data is awaited: it keeps the future of the next piece of data between polls.
  \<open>MonoioBody\<close> awaits the frames of a body of hyper and passes on the data. The future slot
  \<open>MaybeArmedBoxFuture\<close> and hyper's \<open>Frame\<close> are library code, given by records of operations with
  their documented laws.
\<close>

section \<open>Library operations\<close>

text \<open>
  The slot holds at most one future (\<open>'fut\<close> is the type of futures of the body). Polling the slot
  runs the future, which works on the body it borrows, so the body is passed along.
\<close>

record ('f, 'fut, 'b, 'r) slot_ops =
  slot_new :: 'f
  slot_armed :: "'f \<Rightarrow> bool"
  slot_arm :: "'fut \<Rightarrow> 'f \<Rightarrow> 'f"
  slot_poll :: "'f \<times> 'b \<Rightarrow> 'r task_poll \<times> 'f \<times> 'b"

record ('fr, 'd) frame_ops =
  frame_data :: "'d \<Rightarrow> 'fr"
  frame_is_data :: "'fr \<Rightarrow> bool"
  frame_into_data :: "'fr \<Rightarrow> ('d, 'fr) result"

section \<open>\<open>HyperBody\<close>\<close>

record ('f, 'b) HyperBody =
  hb_fut :: 'f
  hb_body :: 'b

definition HyperBody_new :: "('f, 'fut, 'b, 'r) slot_ops \<Rightarrow> 'b \<Rightarrow> ('f, 'b) HyperBody" where
  "HyperBody_new S body = \<lparr>hb_fut = slot_new S, hb_body = body\<rparr>"

text \<open>\<open>next_data\<close> makes the future of the next piece of data, which borrows the body.\<close>

definition HyperBody_poll_frame :: "('f, 'fut, 'b, ('d, 'e) result option) slot_ops \<Rightarrow> ('fr, 'd) frame_ops
    \<Rightarrow> ('b \<Rightarrow> 'fut \<times> 'b) \<Rightarrow> ('f, 'b) HyperBody \<Rightarrow> ('fr, 'e) result option task_poll \<times> ('f, 'b) HyperBody" where
  "HyperBody_poll_frame S F next_data this =
     (let this' =
            (if \<not> slot_armed S (hb_fut this)
             then case next_data (hb_body this) of
                    (fut, body) \<Rightarrow> this\<lparr>hb_fut := slot_arm S fut (hb_fut this), hb_body := body\<rparr>
             else this) in
      case slot_poll S (hb_fut this', hb_body this') of
        (r, f, body) \<Rightarrow>
          (poll_map (map_option (res_map (frame_data F))) r, this'\<lparr>hb_fut := f, hb_body := body\<rparr>))"

section \<open>\<open>MonoioBody\<close>\<close>

record 'b MonoioBody =
  mb_body :: 'b

definition MonoioBody_new :: "'b \<Rightarrow> 'b MonoioBody" where
  "MonoioBody_new body = \<lparr>mb_body = body\<rparr>"

text \<open>
  The loop of \<open>next_data\<close>. It has no value when it does not end, and when \<open>unwrap_unchecked\<close> meets
  a frame without data.
\<close>

partial_function (option) MonoioBody_next_data :: "('fr, 'd) frame_ops \<Rightarrow> ('b \<Rightarrow> ('fr, 'e) result option task_poll \<times> 'b)
    \<Rightarrow> ('b MonoioBody, 'd, 'e) awaited_source" where
  "MonoioBody_next_data F poll_frame self =
     Option.bind (poll_await poll_frame (mb_body self)) (\<lambda>x.
       case x of (ret, body) \<Rightarrow>
         (case ret of
            None \<Rightarrow> Some (None, self\<lparr>mb_body := body\<rparr>)
          | Some r \<Rightarrow>
              (case r of
                 Inl e \<Rightarrow> Some (Some (Err e), self\<lparr>mb_body := body\<rparr>)
               | Inr frame \<Rightarrow>
                   if frame_is_data F frame
                   then (case frame_into_data F frame of
                           Inl _ \<Rightarrow> None
                         | Inr d \<Rightarrow> Some (Some (Ok d), self\<lparr>mb_body := body\<rparr>))
                   else MonoioBody_next_data F poll_frame (self\<lparr>mb_body := body\<rparr>))))"

definition MonoioBody_stream_hint :: "'h \<Rightarrow> 'b MonoioBody \<Rightarrow> 'h" where
  "MonoioBody_stream_hint StreamHint_Stream self = StreamHint_Stream"

section \<open>Laws of the library\<close>

text \<open>\<open>is_data\<close> tells whether \<open>into_data\<close> succeeds, and a frame made of data gives it back.\<close>

definition frame_law :: "('fr, 'd) frame_ops \<Rightarrow> bool" where
  "frame_law F \<longleftrightarrow>
     (\<forall>fr. frame_is_data F fr \<longleftrightarrow> is_ok (frame_into_data F fr)) \<and>
     (\<forall>d. frame_into_data F (frame_data F d) = Ok d)"

text \<open>
  A slot is not armed at first. Arming it with the future of the next piece of data leaves it a
  number of polls away from being ready with what that future returns; \<open>waiting f b r b' n\<close> says so
  for \<open>n\<close> pending polls. Being ready disarms it. \<open>sem\<close> is the awaited \<open>next_data\<close> of the body.
\<close>

definition slot_law :: "('f, 'fut, 'b, 'r) slot_ops \<Rightarrow> ('b \<Rightarrow> 'fut \<times> 'b) \<Rightarrow> ('b \<Rightarrow> 'r \<times> 'b)
    \<Rightarrow> ('f \<Rightarrow> 'b \<Rightarrow> 'r \<Rightarrow> 'b \<Rightarrow> nat \<Rightarrow> bool) \<Rightarrow> bool" where
  "slot_law S next_data sem waiting \<longleftrightarrow>
     \<not> slot_armed S (slot_new S) \<and>
     (\<forall>f b fut b1. \<not> slot_armed S f \<and> next_data b = (fut, b1) \<longrightarrow>
        slot_armed S (slot_arm S fut f) \<and> (\<exists>n. waiting (slot_arm S fut f) b1 (fst (sem b)) (snd (sem b)) n)) \<and>
     (\<forall>f b r b' n. waiting f b r b' (Suc n) \<longrightarrow>
        (\<exists>f1 b1. slot_poll S (f, b) = (PPending, f1, b1) \<and> slot_armed S f1 \<and> waiting f1 b1 r b' n)) \<and>
     (\<forall>f b r b'. waiting f b r b' 0 \<longrightarrow> (\<exists>f1. slot_poll S (f, b) = (PReady r, f1, b') \<and> \<not> slot_armed S f1))"

section \<open>Lemmas\<close>

abbreviation (input) to_frame :: "('fr, 'd) frame_ops \<Rightarrow> ('d, 'e) result option \<Rightarrow> ('fr, 'e) result option" where
  "to_frame F \<equiv> map_option (res_map (frame_data F))"

lemma poll_frame_armed:
  "slot_armed S f \<Longrightarrow> slot_poll S (f, b) = (r, f', b') \<Longrightarrow>
   HyperBody_poll_frame S F nd \<lparr>hb_fut = f, hb_body = b\<rparr> = (poll_map (to_frame F) r, \<lparr>hb_fut = f', hb_body = b'\<rparr>)"
  by (simp add: HyperBody_poll_frame_def)

lemma poll_frame_arms:
  "\<not> slot_armed S f \<Longrightarrow> nd b = (fut, b1) \<Longrightarrow> slot_armed S (slot_arm S fut f) \<Longrightarrow>
   HyperBody_poll_frame S F nd \<lparr>hb_fut = f, hb_body = b\<rparr>
     = HyperBody_poll_frame S F nd \<lparr>hb_fut = slot_arm S fut f, hb_body = b1\<rparr>"
  by (simp add: HyperBody_poll_frame_def)

lemma poll_await_cong: "poll s = poll t \<Longrightarrow> poll_await poll s = poll_await poll t"
  by (subst (1 2) poll_await.simps) simp

lemma waiting_await:
  assumes law: "slot_law S nd sem waiting"
  shows "waiting f b r b' n \<Longrightarrow> slot_armed S f \<Longrightarrow>
    \<exists>f'. poll_await (HyperBody_poll_frame S F nd) \<lparr>hb_fut = f, hb_body = b\<rparr>
        = Some (to_frame F r, \<lparr>hb_fut = f', hb_body = b'\<rparr>) \<and> \<not> slot_armed S f'"
proof (induction n arbitrary: f b)
  case 0
  then obtain f1 where "slot_poll S (f, b) = (PReady r, f1, b')" "\<not> slot_armed S f1"
    using law unfolding slot_law_def by blast
  then show ?case using poll_await_ready [of "HyperBody_poll_frame S F nd"] poll_frame_armed [OF \<open>slot_armed S f\<close>] by force
next
  case (Suc n)
  then obtain f1 b1 where p: "slot_poll S (f, b) = (PPending, f1, b1)" and "slot_armed S f1" "waiting f1 b1 r b' n"
    using law unfolding slot_law_def by blast
  then show ?case
    using Suc.IH [of f1 b1] poll_await_pending [of "HyperBody_poll_frame S F nd", OF poll_frame_armed [OF \<open>slot_armed S f\<close> p, simplified]]
    by simp
qed

lemma poll_frame_await:
  assumes law: "slot_law S nd sem waiting" and f: "\<not> slot_armed S f"
  obtains f' where "poll_await (HyperBody_poll_frame S F nd) \<lparr>hb_fut = f, hb_body = b\<rparr>
      = Some (to_frame F (fst (sem b)), \<lparr>hb_fut = f', hb_body = snd (sem b)\<rparr>)" "\<not> slot_armed S f'"
proof -
  obtain fut b1 where nd: "nd b = (fut, b1)" by fastforce
  have arm: "slot_armed S (slot_arm S fut f)"
    and "\<exists>n. waiting (slot_arm S fut f) b1 (fst (sem b)) (snd (sem b)) n"
    using law f nd unfolding slot_law_def by blast+
  then obtain n where "waiting (slot_arm S fut f) b1 (fst (sem b)) (snd (sem b)) n" by blast
  from waiting_await [OF law this arm, of F] show thesis
    using that poll_await_cong [of "HyperBody_poll_frame S F nd", OF poll_frame_arms [where nd = nd, OF f nd arm]]
    by auto
qed

text \<open>One round of the loop of \<open>MonoioBody\<close>, by what the awaited frame is.\<close>

lemma next_data_end:
  "poll_await pf b = Some (None, b') \<Longrightarrow> MonoioBody_next_data F pf (MonoioBody_new b) = Some (None, MonoioBody_new b')"
  by (subst MonoioBody_next_data.simps) (simp add: MonoioBody_new_def)

lemma next_data_error:
  "poll_await pf b = Some (Some (Inl e), b') \<Longrightarrow>
   MonoioBody_next_data F pf (MonoioBody_new b) = Some (Some (Inl e), MonoioBody_new b')"
  by (subst MonoioBody_next_data.simps) (simp add: MonoioBody_new_def)

lemma next_data_data:
  assumes "frame_law F" "poll_await pf b = Some (Some (Inr fr), b')" "frame_into_data F fr = Inr d"
  shows "MonoioBody_next_data F pf (MonoioBody_new b) = Some (Some (Inr d), MonoioBody_new b')"
  using assms by (subst MonoioBody_next_data.simps) (simp add: MonoioBody_new_def frame_law_def is_ok_def)

lemma next_data_skip:
  assumes "frame_law F" "poll_await pf b = Some (Some (Inr fr), b')" "frame_into_data F fr = Inl fr'"
  shows "MonoioBody_next_data F pf (MonoioBody_new b) = MonoioBody_next_data F pf (MonoioBody_new b')"
  using assms by (subst MonoioBody_next_data.simps) (simp add: MonoioBody_new_def frame_law_def is_ok_def)

text \<open>The data among some frames, in order.\<close>

fun frames_data :: "('fr, 'd) frame_ops \<Rightarrow> 'fr list \<Rightarrow> 'd list" where
  "frames_data F [] = []"
| "frames_data F (fr # frs) =
     (case frame_into_data F fr of Inl _ \<Rightarrow> frames_data F frs | Inr d \<Rightarrow> d # frames_data F frs)"

lemma frames_data_map: "frame_law F \<Longrightarrow> frames_data F (map (frame_data F) ds) = ds"
  by (induction ds) (simp_all add: frame_law_def)

lemma monoio_emits:
  assumes "frame_law F" and "emits (poll_await poll_frame) b frames r b'"
  shows "emits (MonoioBody_next_data F poll_frame) (MonoioBody_new b) (frames_data F frames) r (MonoioBody_new b')"
  using assms(2)
proof (induction rule: emits.induct)
  case (stop s s')
  then show ?case by (simp add: emits.stop next_data_end)
next
  case (fail s e s')
  then show ?case by (simp add: emits.fail next_data_error)
next
  case (item s fr s1 frs r s')
  show ?case
  proof (cases "frame_into_data F fr")
    case (Inl fr')
    from item.IH Inl show ?thesis
      by (simp add: emits_cong [OF next_data_skip [OF assms(1) item.hyps(1) Inl]])
  next
    case (Inr d)
    from next_data_data [OF assms(1) item.hyps(1) Inr] show ?thesis
      using item.IH Inr by (auto intro: emits.item)
  qed
qed

section \<open>Properties\<close>

text \<open>
  Property C28. Reading a body of hyper through \<open>MonoioBody\<close> yields the data of its frames in order,
  no more and no less, then the end or the error the frames end with: frames without data are
  skipped, the loop returns after each of them, and the unchecked access to the data is never made
  on a frame without.
\<close>

theorem monoio_body_data:
  assumes "frame_law F" and "emits (poll_await poll_frame) b frames r b'"
  shows "emits (MonoioBody_next_data F poll_frame) (MonoioBody_new b) (frames_data F frames) r (MonoioBody_new b')"
  using assms by (rule monoio_emits)

text \<open>A frame type with trailers, a slot that counts pending polls, and a body of a list of pieces.\<close>

datatype ('d, 't) demo_frame = D_data 'd | D_trailers 't

definition demo_frames :: "(('d, 't) demo_frame, 'd) frame_ops" where
  "demo_frames =
     \<lparr>frame_data = D_data,
      frame_is_data = (\<lambda>fr. case fr of D_data _ \<Rightarrow> True | D_trailers _ \<Rightarrow> False),
      frame_into_data = (\<lambda>fr. case fr of D_data d \<Rightarrow> Ok d | D_trailers _ \<Rightarrow> Err fr)\<rparr>"

lemma demo_frame_law: "frame_law demo_frames"
  by (auto simp: frame_law_def demo_frames_def is_ok_def split: demo_frame.splits)

theorem monoio_body_data_witness:
  "emits (MonoioBody_next_data demo_frames (\<lambda>s. map_prod PReady id (list_source s)))
     (MonoioBody_new [Inr (D_data (5::nat)), Inr (D_trailers ''t''), Inr (D_data 7), Inl ''reset''])
     [5, 7] (Some ''reset'') (MonoioBody_new [])"
proof -
  have step: "poll_await (\<lambda>s. map_prod PReady id (list_source s)) xs = Some (list_source xs)"
    for xs :: "((nat, char list) demo_frame, char list) result list"
    by (subst poll_await.simps) (cases xs; simp)
  have "emits (poll_await (\<lambda>s. map_prod PReady id (list_source s)))
      [Inr (D_data (5::nat)), Inr (D_trailers ''t''), Inr (D_data 7), Inl ''reset'']
      [D_data 5, D_trailers ''t'', D_data 7] (Some ''reset'') []"
    by (rule emits.item, simp add: step)+ (rule emits.fail, simp add: step)
  from monoio_body_data [OF demo_frame_law this] show ?thesis by (simp add: demo_frames_def)
qed

text \<open>
  Property C27. hyper's poll of a \<open>HyperBody\<close> that is not in the middle of a poll becomes ready after
  finitely many polls, with the piece of data, the end or the error that the awaited \<open>next_data\<close> of
  the body gives. The body has then advanced by exactly that piece, and the slot is free for the
  next one.
\<close>

theorem hyper_body_frame_ready:
  assumes "slot_law S next_data sem waiting" and "\<not> slot_armed S (hb_fut this)"
  shows "\<exists>f. poll_await (HyperBody_poll_frame S F next_data) this
        = Some (map_option (res_map (frame_data F)) (fst (sem (hb_body this))), \<lparr>hb_fut = f, hb_body = snd (sem (hb_body this))\<rparr>)
      \<and> \<not> slot_armed S f"
proof -
  have "this = \<lparr>hb_fut = hb_fut this, hb_body = hb_body this\<rparr>" by simp
  then show ?thesis using poll_frame_await [OF assms, of F "hb_body this"] by metis
qed

text \<open>The slot and the body of the examples: a future is pending once and then takes the next piece.\<close>

definition demo_slot :: "(nat option, unit, 'a list, 'a option) slot_ops" where
  "demo_slot =
     \<lparr>slot_new = None, slot_armed = (\<lambda>f. f \<noteq> None), slot_arm = (\<lambda>_ _. Some 1),
      slot_poll = (\<lambda>(f, b). if f = Some 0 then (PReady (fst (pop_front b)), None, snd (pop_front b))
                            else (PPending, Some (the f - 1), b))\<rparr>"

definition demo_next :: "'a list \<Rightarrow> unit \<times> 'a list" where
  "demo_next b = ((), b)"

definition demo_waiting :: "nat option \<Rightarrow> 'a list \<Rightarrow> 'a option \<Rightarrow> 'a list \<Rightarrow> nat \<Rightarrow> bool" where
  "demo_waiting f b r b' n \<longleftrightarrow> f = Some n \<and> r = front b \<and> b' = tl b"

lemma demo_slot_law: "slot_law demo_slot demo_next pop_front demo_waiting"
  by (auto simp: slot_law_def demo_slot_def demo_next_def demo_waiting_def)

theorem hyper_body_frame_ready_witness:
  "\<exists>f. poll_await (HyperBody_poll_frame demo_slot demo_frames demo_next) (HyperBody_new demo_slot [Ok (5::nat), Err ''e''])
     = Some (Some (Ok (D_data 5 :: (nat, unit) demo_frame)), \<lparr>hb_fut = f, hb_body = [Err ''e'']\<rparr>) \<and> f = None"
  using hyper_body_frame_ready [OF demo_slot_law, of "HyperBody_new demo_slot [Ok (5::nat), Err ''e'']" demo_frames]
  by (simp add: HyperBody_new_def demo_slot_def demo_frames_def)

text \<open>The frames of a new \<open>HyperBody\<close>, up to the end or an error of its body.\<close>

lemma hyper_body_emits:
  assumes law: "slot_law S nd sem waiting"
  shows "yields sem b xs b1 \<Longrightarrow> sem b1 = (map_option Inl r, b') \<Longrightarrow> \<not> slot_armed S f \<Longrightarrow>
    \<exists>f'. emits (poll_await (HyperBody_poll_frame S F nd)) \<lparr>hb_fut = f, hb_body = b\<rparr> (map (frame_data F) xs) r \<lparr>hb_fut = f', hb_body = b'\<rparr>"
proof (induction arbitrary: f rule: yields.induct)
  case (nil s)
  obtain f' where "poll_await (HyperBody_poll_frame S F nd) \<lparr>hb_fut = f, hb_body = s\<rparr>
      = Some (map_option (res_map (frame_data F)) (map_option Inl r), \<lparr>hb_fut = f', hb_body = b'\<rparr>)"
    using poll_frame_await [OF law nil.prems(2), of F s] nil.prems(1) by auto
  then show ?case by (cases r) (auto intro: emits.stop emits.fail)
next
  case (cons s x s1 xs s2)
  obtain f1 where f1: "poll_await (HyperBody_poll_frame S F nd) \<lparr>hb_fut = f, hb_body = s\<rparr>
      = Some (Some (Inr (frame_data F x)), \<lparr>hb_fut = f1, hb_body = s1\<rparr>)" "\<not> slot_armed S f1"
    using poll_frame_await [OF law cons.prems(2), of F s] cons.hyps(1) by auto
  from cons.IH [OF cons.prems(1) f1(2)] show ?case using f1(1) by (auto intro: emits.item)
qed

text \<open>
  Property C26. The two adapters are inverse to each other: a body of monoio-http that is given to
  hyper as a \<open>HyperBody\<close> and read back through \<open>MonoioBody\<close> yields the pieces of data it had, in
  order and once each, and then its end or its error.
\<close>

theorem body_roundtrip:
  assumes "slot_law S next_data sem waiting" and "frame_law F"
    and "yields sem b xs b1" and "sem b1 = (map_option Inl r, b')"
  shows "\<exists>f. emits (MonoioBody_next_data F (HyperBody_poll_frame S F next_data)) (MonoioBody_new (HyperBody_new S b)) xs r
        (MonoioBody_new \<lparr>hb_fut = f, hb_body = b'\<rparr>)"
proof -
  have "\<not> slot_armed S (slot_new S)" using assms(1) by (simp add: slot_law_def)
  from hyper_body_emits [OF assms(1,3,4) this] obtain f where
    "emits (poll_await (HyperBody_poll_frame S F next_data)) (HyperBody_new S b) (map (frame_data F) xs) r \<lparr>hb_fut = f, hb_body = b'\<rparr>"
    unfolding HyperBody_new_def by blast
  then have "emits (MonoioBody_next_data F (HyperBody_poll_frame S F next_data)) (MonoioBody_new (HyperBody_new S b))
      (frames_data F (map (frame_data F) xs)) r (MonoioBody_new \<lparr>hb_fut = f, hb_body = b'\<rparr>)"
    by (rule monoio_emits [OF assms(2)])
  then show ?thesis using frames_data_map [OF assms(2)] by metis
qed

theorem body_roundtrip_witness:
  "\<exists>f. emits (MonoioBody_next_data demo_frames (HyperBody_poll_frame demo_slot (demo_frames :: ((nat, unit) demo_frame, nat) frame_ops) demo_next))
     (MonoioBody_new (HyperBody_new demo_slot [Ok 5, Ok 7, Err ''e''])) [5, 7] (Some ''e'')
     (MonoioBody_new \<lparr>hb_fut = f, hb_body = []\<rparr>)"
proof -
  have "yields pop_front [Ok (5::nat), Ok 7, Err ''e''] [5, 7] [Err ''e'']" by (simp add: yields_Cons)
  from body_roundtrip [OF demo_slot_law demo_frame_law this, of "Some ''e''" "[]"] show ?thesis by simp
qed

end
