(* ===== verification/Pollio.thy ===== *)
theory Pollio
  imports L4_Connector
begin

text \<open>
  Poll based I/O, \<open>src/connectors/pollio.rs\<close>: the sockets as polled streams, the wrapper that gives
  hyper's traits to a stream with tokio's and the other way round, and the connector that does both
  for the connections of another one. Buffers, sockets and the provided methods of the traits are
  library code and arguments of the definitions. The uninitialised bytes of a slice
  \<open>&mut [MaybeUninit<u8>]\<close> are the value \<open>None\<close>; a panic is a computation without result.
\<close>

section \<open>Polled streams\<close>

type_synonym mem = "u8 option list"

text \<open>One poll of a read: the buffer is lent to it and changed, \<open>None\<close> is a panic.\<close>

type_synonym ('s, 'b, 'e) poll_reader =
  "'b \<Rightarrow> 's \<Rightarrow> (((unit, 'e) result task_poll \<times> 'b) \<times> 's) option"

text \<open>\<open>AsyncWrite\<close> of tokio and \<open>Write\<close> of hyper have the same five methods.\<close>

record ('s, 'e) poll_writer =
  pw_write :: "u8 list \<Rightarrow> 's \<Rightarrow> (usize, 'e) result task_poll \<times> 's"
  pw_flush :: "'s \<Rightarrow> (unit, 'e) result task_poll \<times> 's"
  pw_shutdown :: "'s \<Rightarrow> (unit, 'e) result task_poll \<times> 's"
  pw_is_vectored :: "'s \<Rightarrow> bool"
  pw_write_vectored :: "u8 list list \<Rightarrow> 's \<Rightarrow> (usize, 'e) result task_poll \<times> 's"

datatype poll_call = P_write "u8 list" | P_flush | P_shutdown | P_is_vectored | P_write_vectored "u8 list list"

datatype 'e poll_answer = PA_usize "(usize, 'e) result task_poll" | PA_unit "(unit, 'e) result task_poll" | PA_bool bool

fun poll_run :: "('s, 'e) poll_writer \<Rightarrow> (poll_call, 's, 'e poll_answer) runner" where
  "poll_run io (P_write b) s = map_prod PA_usize id (pw_write io b s)"
| "poll_run io P_flush s = map_prod PA_unit id (pw_flush io s)"
| "poll_run io P_shutdown s = map_prod PA_unit id (pw_shutdown io s)"
| "poll_run io P_is_vectored s = (PA_bool (pw_is_vectored io s), s)"
| "poll_run io (P_write_vectored bs) s = map_prod PA_usize id (pw_write_vectored io bs s)"

section \<open>Sockets as polled streams\<close>

datatype ('t, 'u) UnifiedL4StreamPoll = PollTcp 't | PollUnix 'u

definition UnifiedL4Stream_try_into_poll_io :: "('t \<Rightarrow> ('tp, 'e \<times> 't) result) \<Rightarrow> ('u \<Rightarrow> ('up, 'e \<times> 'u) result)
    \<Rightarrow> ('t, 'u) UnifiedL4Stream \<Rightarrow> (('tp, 'up) UnifiedL4StreamPoll, 'e \<times> ('t, 'u) UnifiedL4Stream) result" where
  "UnifiedL4Stream_try_into_poll_io tcp unix self =
     (case self of
        Tcp inner \<Rightarrow> (case tcp inner of Inr io \<Rightarrow> Ok (PollTcp io) | Inl (e, io) \<Rightarrow> Err (e, Tcp io))
      | Unix inner \<Rightarrow> (case unix inner of Inr io \<Rightarrow> Ok (PollUnix io) | Inl (e, io) \<Rightarrow> Err (e, Unix io)))"

definition UnifiedL4StreamPoll_poll_read :: "('t, 'b, 'e) poll_reader \<Rightarrow> ('u, 'b, 'e) poll_reader
    \<Rightarrow> (('t, 'u) UnifiedL4StreamPoll, 'b, 'e) poll_reader" where
  "UnifiedL4StreamPoll_poll_read tcp unix buf this =
     (case this of
        PollTcp inner \<Rightarrow> map_option (map_prod id PollTcp) (tcp buf inner)
      | PollUnix inner \<Rightarrow> map_option (map_prod id PollUnix) (unix buf inner))"

definition UnifiedL4StreamPoll_poll_write :: "(u8 list \<Rightarrow> 't \<Rightarrow> 'r \<times> 't) \<Rightarrow> (u8 list \<Rightarrow> 'u \<Rightarrow> 'r \<times> 'u)
    \<Rightarrow> u8 list \<Rightarrow> ('t, 'u) UnifiedL4StreamPoll \<Rightarrow> 'r \<times> ('t, 'u) UnifiedL4StreamPoll" where
  "UnifiedL4StreamPoll_poll_write tcp unix buf this =
     (case this of
        PollTcp inner \<Rightarrow> map_prod id PollTcp (tcp buf inner)
      | PollUnix inner \<Rightarrow> map_prod id PollUnix (unix buf inner))"

definition UnifiedL4StreamPoll_poll_flush :: "('t \<Rightarrow> 'r \<times> 't) \<Rightarrow> ('u \<Rightarrow> 'r \<times> 'u)
    \<Rightarrow> ('t, 'u) UnifiedL4StreamPoll \<Rightarrow> 'r \<times> ('t, 'u) UnifiedL4StreamPoll" where
  "UnifiedL4StreamPoll_poll_flush tcp unix this =
     (case this of
        PollTcp inner \<Rightarrow> map_prod id PollTcp (tcp inner)
      | PollUnix inner \<Rightarrow> map_prod id PollUnix (unix inner))"

definition UnifiedL4StreamPoll_poll_shutdown :: "('t \<Rightarrow> 'r \<times> 't) \<Rightarrow> ('u \<Rightarrow> 'r \<times> 'u)
    \<Rightarrow> ('t, 'u) UnifiedL4StreamPoll \<Rightarrow> 'r \<times> ('t, 'u) UnifiedL4StreamPoll" where
  "UnifiedL4StreamPoll_poll_shutdown tcp unix this =
     (case this of
        PollTcp inner \<Rightarrow> map_prod id PollTcp (tcp inner)
      | PollUnix inner \<Rightarrow> map_prod id PollUnix (unix inner))"

text \<open>
  The implementation leaves the two vectored methods to the trait. The provided ones are library
  code: \<open>vectored\<close> is the answer of \<open>is_write_vectored\<close>, and \<open>pick\<close> the buffer out of several that
  \<open>poll_write_vectored\<close> passes to \<open>poll_write\<close>.
\<close>

definition provided_vectored :: "bool \<Rightarrow> (u8 list list \<Rightarrow> u8 list) \<Rightarrow> ('s, 'e) poll_writer \<Rightarrow> ('s, 'e) poll_writer" where
  "provided_vectored vectored pick io =
     io\<lparr>pw_is_vectored := (\<lambda>_. vectored), pw_write_vectored := (\<lambda>bufs. pw_write io (pick bufs))\<rparr>"

definition UnifiedL4StreamPoll_io :: "bool \<Rightarrow> (u8 list list \<Rightarrow> u8 list) \<Rightarrow> ('t, 'e) poll_writer \<Rightarrow> ('u, 'e) poll_writer
    \<Rightarrow> (('t, 'u) UnifiedL4StreamPoll, 'e) poll_writer" where
  "UnifiedL4StreamPoll_io vectored pick tcp unix =
     \<lparr>pw_write = UnifiedL4StreamPoll_poll_write (pw_write tcp) (pw_write unix),
      pw_flush = UnifiedL4StreamPoll_poll_flush (pw_flush tcp) (pw_flush unix),
      pw_shutdown = UnifiedL4StreamPoll_poll_shutdown (pw_shutdown tcp) (pw_shutdown unix),
      pw_is_vectored = (\<lambda>_. vectored),
      pw_write_vectored = (\<lambda>bufs. UnifiedL4StreamPoll_poll_write (pw_write tcp) (pw_write unix) (pick bufs))\<rparr>"

section \<open>The wrapper for hyper\<close>

record 't HyperIoWrapper =
  hio_inner :: 't

definition HyperIoWrapper_new :: "'t \<Rightarrow> 't HyperIoWrapper" where
  "HyperIoWrapper_new inner = \<lparr>hio_inner = inner\<rparr>"

definition HyperIoWrapper_inner :: "'t HyperIoWrapper \<Rightarrow> 't" where
  "HyperIoWrapper_inner self = hio_inner self"

text \<open>A mutable borrow, and \<open>self.project().inner\<close> likewise: a change of the inner value.\<close>

definition HyperIoWrapper_inner_mut :: "('t \<Rightarrow> 'r \<times> 't) \<Rightarrow> 't HyperIoWrapper \<Rightarrow> 'r \<times> 't HyperIoWrapper" where
  "HyperIoWrapper_inner_mut f self = (case f (hio_inner self) of (r, s) \<Rightarrow> (r, self\<lparr>hio_inner := s\<rparr>))"

definition HyperIoWrapper_into_inner :: "'t HyperIoWrapper \<Rightarrow> 't" where
  "HyperIoWrapper_into_inner self = hio_inner self"

text \<open>\<open>hyper::rt::Write\<close> from \<open>AsyncWrite\<close>, and \<open>AsyncWrite\<close> from \<open>hyper::rt::Write\<close>.\<close>

definition HyperIoWrapper_hyper_write :: "('t, 'e) poll_writer \<Rightarrow> ('t HyperIoWrapper, 'e) poll_writer" where
  "HyperIoWrapper_hyper_write io =
     \<lparr>pw_write = (\<lambda>buf. HyperIoWrapper_inner_mut (pw_write io buf)),
      pw_flush = HyperIoWrapper_inner_mut (pw_flush io),
      pw_shutdown = HyperIoWrapper_inner_mut (pw_shutdown io),
      pw_is_vectored = (\<lambda>self. pw_is_vectored io (hio_inner self)),
      pw_write_vectored = (\<lambda>bufs. HyperIoWrapper_inner_mut (pw_write_vectored io bufs))\<rparr>"

definition HyperIoWrapper_async_write :: "('t, 'e) poll_writer \<Rightarrow> ('t HyperIoWrapper, 'e) poll_writer" where
  "HyperIoWrapper_async_write io =
     \<lparr>pw_write = (\<lambda>buf. HyperIoWrapper_inner_mut (pw_write io buf)),
      pw_flush = HyperIoWrapper_inner_mut (pw_flush io),
      pw_shutdown = HyperIoWrapper_inner_mut (pw_shutdown io),
      pw_is_vectored = (\<lambda>self. pw_is_vectored io (hio_inner self)),
      pw_write_vectored = (\<lambda>bufs. HyperIoWrapper_inner_mut (pw_write_vectored io bufs))\<rparr>"

section \<open>Read buffers\<close>

text \<open>
  The read buffers of tokio and hyper, as records of the operations the code calls. Both wrap a
  slice (\<open>b_uninit\<close>), which their borrow gives back at its end (\<open>b_mem\<close>), and lend the part that is
  not filled (\<open>b_unfilled\<close>, \<open>as_mut\<close> and \<open>unfilled_mut\<close> of the code), which has the contents given
  by \<open>b_set_unfilled\<close> after writes through that borrow. hyper's cursor is a mutable borrow of its
  buffer and represented by it.
\<close>

record 'b buf_ops =
  b_uninit :: "mem \<Rightarrow> 'b"
  b_filled :: "'b \<Rightarrow> u8 list"
  b_unfilled :: "'b \<Rightarrow> mem"
  b_set_unfilled :: "mem \<Rightarrow> 'b \<Rightarrow> 'b"
  b_mem :: "'b \<Rightarrow> mem"

record 'b tokio_buf_ops = "'b buf_ops" +
  b_initialized :: "'b \<Rightarrow> nat"
  b_assume_init :: "nat \<Rightarrow> 'b \<Rightarrow> 'b"
  b_set_filled :: "nat \<Rightarrow> 'b \<Rightarrow> 'b option"

record 'b hyper_buf_ops = "'b buf_ops" +
  b_advance :: "nat \<Rightarrow> 'b \<Rightarrow> 'b"

text \<open>\<open>hyper::rt::Read\<close> from \<open>AsyncRead\<close>, and \<open>AsyncRead\<close> from \<open>hyper::rt::Read\<close>.\<close>

definition HyperIoWrapper_hyper_read :: "'tb tokio_buf_ops \<Rightarrow> 'hb hyper_buf_ops \<Rightarrow> ('s, 'tb, 'e) poll_reader
    \<Rightarrow> ('s HyperIoWrapper, 'hb, 'e) poll_reader" where
  "HyperIoWrapper_hyper_read T H poll_read buf self =
     (case poll_read (b_uninit T (b_unfilled H buf)) (hio_inner self) of
        None \<Rightarrow> None
      | Some ((r, tbuf), s) \<Rightarrow>
          let buf' = b_set_unfilled H (b_mem T tbuf) buf; self' = self\<lparr>hio_inner := s\<rparr> in
          (case r of
             PReady (Inr _) \<Rightarrow>
               let n = length (b_filled T tbuf) in
               Some ((PReady (Ok ()), b_advance H n buf'), self')
           | other \<Rightarrow> Some ((other, buf'), self')))"

definition HyperIoWrapper_async_read :: "'tb tokio_buf_ops \<Rightarrow> 'hb hyper_buf_ops \<Rightarrow> ('s, 'hb, 'e) poll_reader
    \<Rightarrow> ('s HyperIoWrapper, 'tb, 'e) poll_reader" where
  "HyperIoWrapper_async_read T H poll_read tbuf self =
     (let filled = length (b_filled T tbuf) in
      case poll_read (b_uninit H (b_unfilled T tbuf)) (hio_inner self) of
        None \<Rightarrow> None
      | Some ((r, buf), s) \<Rightarrow>
          let tbuf' = b_set_unfilled T (b_mem H buf) tbuf; self' = self\<lparr>hio_inner := s\<rparr> in
          (case r of
             PReady (Inr _) \<Rightarrow>
               let sub_filled = length (b_filled H buf);
                   n_filled = filled + sub_filled;
                   n_init = sub_filled in
               map_option (\<lambda>b. ((PReady (Ok ()), b), self')) (b_set_filled T n_filled (b_assume_init T n_init tbuf'))
           | other \<Rightarrow> Some ((other, tbuf'), self')))"

section \<open>The poll based connector\<close>

datatype ('ce, 'io) PollConnectError = PCE_Connect 'ce | PCE_Convert 'io

definition PollIo_connect :: "('s \<Rightarrow> ('w, 'p, 'io) io) \<Rightarrow> ('w, 'k, 's, 'ce) connector
    \<Rightarrow> ('w, 'k, 'p HyperIoWrapper, ('ce, 'io) PollConnectError) connector" where
  "PollIo_connect into_poll_io self key =
     io_bind (io_map_err PCE_Connect (self key)) (\<lambda>io.
     io_bind (io_map_err PCE_Convert (into_poll_io io)) (\<lambda>poll_io.
     io_return (HyperIoWrapper_new poll_io)))"

section \<open>Forwarding of writes\<close>

lemmas poll_dispatch_defs = UnifiedL4StreamPoll_io_def provided_vectored_def UnifiedL4StreamPoll_poll_write_def
  UnifiedL4StreamPoll_poll_flush_def UnifiedL4StreamPoll_poll_shutdown_def

lemmas hio_defs = HyperIoWrapper_hyper_write_def HyperIoWrapper_async_write_def HyperIoWrapper_inner_mut_def
  HyperIoWrapper_new_def

interpretation poll_tcp: forwards "poll_run (provided_vectored vectored pick tcp)"
    "poll_run (UnifiedL4StreamPoll_io vectored pick tcp unix)" PollTcp for vectored pick tcp unix
proof unfold_locales
  fix c s
  show "poll_run (UnifiedL4StreamPoll_io vectored pick tcp unix) c (PollTcp s)
      = map_prod id PollTcp (poll_run (provided_vectored vectored pick tcp) c s)"
    by (cases c) (auto simp: poll_dispatch_defs prod.map_comp)
qed

interpretation poll_unix: forwards "poll_run (provided_vectored vectored pick unix)"
    "poll_run (UnifiedL4StreamPoll_io vectored pick tcp unix)" PollUnix for vectored pick tcp unix
proof unfold_locales
  fix c s
  show "poll_run (UnifiedL4StreamPoll_io vectored pick tcp unix) c (PollUnix s)
      = map_prod id PollUnix (poll_run (provided_vectored vectored pick unix) c s)"
    by (cases c) (auto simp: poll_dispatch_defs prod.map_comp)
qed

interpretation hio_hyper: forwards "poll_run io" "poll_run (HyperIoWrapper_hyper_write io)" HyperIoWrapper_new for io
proof unfold_locales
  fix c s
  show "poll_run (HyperIoWrapper_hyper_write io) c (HyperIoWrapper_new s)
      = map_prod id HyperIoWrapper_new (poll_run io c s)"
    by (cases c) (auto simp: hio_defs split: prod.splits)
qed

interpretation hio_async: forwards "poll_run io" "poll_run (HyperIoWrapper_async_write io)" HyperIoWrapper_new for io
proof unfold_locales
  fix c s
  show "poll_run (HyperIoWrapper_async_write io) c (HyperIoWrapper_new s)
      = map_prod id HyperIoWrapper_new (poll_run io c s)"
    by (cases c) (auto simp: hio_defs split: prod.splits)
qed

text \<open>What hyper gets for a socket: the wrapper around the unified stream.\<close>

interpretation hyper_tcp: forwards_twice "poll_run (provided_vectored vectored pick tcp)"
    "poll_run (UnifiedL4StreamPoll_io vectored pick tcp unix)" PollTcp
    "poll_run (HyperIoWrapper_hyper_write (UnifiedL4StreamPoll_io vectored pick tcp unix))" HyperIoWrapper_new
    for vectored pick tcp unix ..

interpretation hyper_unix: forwards_twice "poll_run (provided_vectored vectored pick unix)"
    "poll_run (UnifiedL4StreamPoll_io vectored pick tcp unix)" PollUnix
    "poll_run (HyperIoWrapper_hyper_write (UnifiedL4StreamPoll_io vectored pick tcp unix))" HyperIoWrapper_new
    for vectored pick tcp unix ..

section \<open>The contracts of buffers and readers\<close>

text \<open>No byte of the slice is made uninitialised, which both libraries require of their clients.\<close>

definition keeps_init :: "mem \<Rightarrow> mem \<Rightarrow> bool" where
  "keeps_init = list_all2 (\<lambda>x y. x = None \<or> y \<noteq> None)"

text \<open>
  The documented behaviour of the buffers, for the ones that satisfy the invariant \<open>ok\<close> of the
  library: the slice is the filled bytes followed by the rest, and writes to the rest leave the
  filled bytes alone. \<open>advance\<close> and \<open>assume_init\<close> are for bytes that have been initialised;
  \<open>set_filled\<close> panics exactly when it would pass the end of the initialised bytes.
\<close>

definition buf_law :: "('b \<Rightarrow> bool) \<Rightarrow> ('b, 'z) buf_ops_scheme \<Rightarrow> bool" where
  "buf_law ok B \<longleftrightarrow>
     (\<forall>m. ok (b_uninit B m) \<and> b_filled B (b_uninit B m) = [] \<and> b_unfilled B (b_uninit B m) = m) \<and>
     (\<forall>b. ok b \<longrightarrow> b_mem B b = map Some (b_filled B b) @ b_unfilled B b) \<and>
     (\<forall>b m. ok b \<and> keeps_init (b_unfilled B b) m \<longrightarrow>
        ok (b_set_unfilled B m b) \<and> b_filled B (b_set_unfilled B m b) = b_filled B b \<and>
        b_unfilled B (b_set_unfilled B m b) = m)"

definition init_prefix :: "nat \<Rightarrow> mem \<Rightarrow> bool" where
  "init_prefix n m \<longleftrightarrow> n \<le> length m \<and> None \<notin> set (take n m)"

definition hyper_buf_law :: "('b \<Rightarrow> bool) \<Rightarrow> 'b hyper_buf_ops \<Rightarrow> bool" where
  "hyper_buf_law ok H \<longleftrightarrow> buf_law ok H \<and>
     (\<forall>b n. ok b \<and> init_prefix n (b_unfilled H b) \<longrightarrow>
        ok (b_advance H n b) \<and> b_mem H (b_advance H n b) = b_mem H b \<and>
        length (b_filled H (b_advance H n b)) = length (b_filled H b) + n)"

definition tokio_buf_law :: "('b \<Rightarrow> bool) \<Rightarrow> 'b tokio_buf_ops \<Rightarrow> bool" where
  "tokio_buf_law ok T \<longleftrightarrow> buf_law ok T \<and>
     (\<forall>b n. ok b \<and> init_prefix n (b_unfilled T b) \<longrightarrow>
        ok (b_assume_init T n b) \<and> b_mem T (b_assume_init T n b) = b_mem T b \<and>
        b_filled T (b_assume_init T n b) = b_filled T b \<and>
        b_initialized T (b_assume_init T n b) = max (b_initialized T b) (length (b_filled T b) + n)) \<and>
     (\<forall>b n. ok b \<longrightarrow>
        (case b_set_filled T n b of
           None \<Rightarrow> b_initialized T b < n
         | Some b' \<Rightarrow> n \<le> b_initialized T b \<and> ok b' \<and> b_mem T b' = b_mem T b \<and> length (b_filled T b') = n))"

text \<open>
  A source of bytes, without any buffer: given the room, one poll yields at most so many bytes, an
  error, or is pending. A reader refines a source when on every good buffer it appends exactly the
  bytes of the source, keeps the rest of the buffer, and does not panic.
\<close>

type_synonym ('s, 'e) byte_source = "nat \<Rightarrow> 's \<Rightarrow> (u8 list, 'e) result task_poll \<times> 's"

fun new_bytes :: "(u8 list, 'e) result task_poll \<Rightarrow> u8 list" where
  "new_bytes (PReady (Inr bs)) = bs"
| "new_bytes _ = []"

fun answer :: "(u8 list, 'e) result task_poll \<Rightarrow> (unit, 'e) result task_poll" where
  "answer (PReady (Inr bs)) = PReady (Ok ())"
| "answer (PReady (Inl e)) = PReady (Err e)"
| "answer PPending = PPending"

definition grown :: "('b \<Rightarrow> bool) \<Rightarrow> ('b, 'z) buf_ops_scheme \<Rightarrow> 'b \<Rightarrow> u8 list \<Rightarrow> 'b \<Rightarrow> bool" where
  "grown ok B b bs b' \<longleftrightarrow> ok b' \<and> b_filled B b' = b_filled B b @ bs \<and> keeps_init (b_mem B b) (b_mem B b')"

definition reads :: "('b \<Rightarrow> bool) \<Rightarrow> ('b, 'z) buf_ops_scheme \<Rightarrow> ('s, 'e) byte_source \<Rightarrow> ('s, 'b, 'e) poll_reader \<Rightarrow> bool" where
  "reads ok B src rd \<longleftrightarrow>
     (\<forall>b s p s'. ok b \<and> src (length (b_unfilled B b)) s = (p, s') \<longrightarrow>
        (\<exists>b'. rd b s = Some ((answer p, b'), s') \<and> grown ok B b (new_bytes p) b'))"

text \<open>The source of a wrapped reader.\<close>

definition hio_source :: "('s, 'e) byte_source \<Rightarrow> ('s HyperIoWrapper, 'e) byte_source" where
  "hio_source src n = HyperIoWrapper_inner_mut (src n)"

subsection \<open>Lemmas\<close>

lemma keeps_init_refl [simp]: "keeps_init m m"
  by (auto simp: keeps_init_def intro: list.rel_refl_strong)

lemma keeps_init_append: "keeps_init a b \<Longrightarrow> keeps_init (c @ a) (c @ b)"
  unfolding keeps_init_def by (rule list_all2_appendI) (auto intro: list.rel_refl_strong)

lemma buf_law_uninit:
  assumes "buf_law ok B"
  shows "ok (b_uninit B m)" "b_filled B (b_uninit B m) = []" "b_unfilled B (b_uninit B m) = m"
  using assms unfolding buf_law_def by blast+

lemma buf_law_mem: "buf_law ok B \<Longrightarrow> ok b \<Longrightarrow> b_mem B b = map Some (b_filled B b) @ b_unfilled B b"
  unfolding buf_law_def by blast

lemma buf_law_set:
  assumes "buf_law ok B" "ok b" "keeps_init (b_unfilled B b) m"
  shows "ok (b_set_unfilled B m b)" "b_filled B (b_set_unfilled B m b) = b_filled B b"
    "b_unfilled B (b_set_unfilled B m b) = m"
  using assms unfolding buf_law_def by blast+

lemma init_prefix_Some: "init_prefix (length bs) (map Some bs @ m)"
  by (simp add: init_prefix_def)

text \<open>Writing the slice of an inner buffer back, without and with the bytes it was filled with.\<close>

lemma set_unfilled_mem:
  assumes "buf_law ok B" "ok b" "keeps_init (b_unfilled B b) m"
  shows "b_mem B (b_set_unfilled B m b) = map Some (b_filled B b) @ m"
  using buf_law_mem [OF assms(1) buf_law_set(1) [OF assms]] buf_law_set [OF assms] by simp

lemma grown_set:
  assumes "buf_law ok B" "ok b" "keeps_init (b_unfilled B b) m"
  shows "grown ok B b [] (b_set_unfilled B m b)"
  using buf_law_set [OF assms] set_unfilled_mem [OF assms] buf_law_mem [OF assms(1,2)]
    keeps_init_append [OF assms(3)] by (simp add: grown_def)

lemma grown_filled:
  assumes law: "buf_law ok B" and ok: "ok b" "ok b'" and keep: "keeps_init (b_unfilled B b) (map Some bs @ m)"
    and mem: "b_mem B b' = b_mem B (b_set_unfilled B (map Some bs @ m) b)"
    and len: "length (b_filled B b') = length (b_filled B b) + length bs"
  shows "grown ok B b bs b'"
proof -
  have eq: "b_mem B b' = map Some (b_filled B b @ bs) @ m"
    using set_unfilled_mem [OF law ok(1) keep] mem by simp
  then have "map Some (b_filled B b') @ b_unfilled B b' = map Some (b_filled B b @ bs) @ m"
    using buf_law_mem [OF law ok(2)] by simp
  then have "b_filled B b' = b_filled B b @ bs"
    using len by (simp add: append_eq_append_conv inj_map_eq_map flip: map_append)
  moreover have "keeps_init (b_mem B b) (b_mem B b')"
    using buf_law_mem [OF law ok(1)] keeps_init_append [OF keep] eq by simp
  ultimately show ?thesis using ok(2) by (simp add: grown_def)
qed

text \<open>What a reader leaves in a buffer made for a slice \<open>m\<close>, as its borrow gives it back.\<close>

lemma readsD:
  assumes "reads ok B src rd" "ok b" "src (length (b_unfilled B b)) s = (p, s')"
  obtains b' where "rd b s = Some ((answer p, b'), s')" "grown ok B b (new_bytes p) b'"
  using assms unfolding reads_def by blast

lemma reads_uninit:
  assumes law: "buf_law ok B" and rd: "reads ok B src rd" and src: "src (length m) s = (p, s')"
  obtains b rest where "rd (b_uninit B m) s = Some ((answer p, b), s')" "b_filled B b = new_bytes p"
    "b_mem B b = map Some (new_bytes p) @ rest" "keeps_init m (b_mem B b)"
proof -
  note new = buf_law_uninit [OF law, of m]
  obtain b where b: "rd (b_uninit B m) s = Some ((answer p, b), s')" "grown ok B (b_uninit B m) (new_bytes p) b"
    using readsD [OF rd new(1)] src new(3) by metis
  then have "ok b" "b_filled B b = new_bytes p" "keeps_init m (b_mem B b)"
    using new buf_law_mem [OF law new(1)] by (simp_all add: grown_def)
  then show thesis using that b(1) buf_law_mem [OF law \<open>ok b\<close>] by simp
qed

text \<open>The last steps of each wrapper: declaring the bytes that the inner reader wrote.\<close>

lemma advance_written:
  assumes H: "hyper_buf_law ok H" and ok: "ok b" and keep: "keeps_init (b_unfilled H b) (map Some bs @ rest)"
  shows "grown ok H b bs (b_advance H (length bs) (b_set_unfilled H (map Some bs @ rest) b))"
proof -
  have law: "buf_law ok H" using H by (simp add: hyper_buf_law_def)
  let ?b = "b_set_unfilled H (map Some bs @ rest) b"
  note set = buf_law_set [OF law ok keep]
  have "ok (b_advance H (length bs) ?b) \<and> b_mem H (b_advance H (length bs) ?b) = b_mem H ?b \<and>
      length (b_filled H (b_advance H (length bs) ?b)) = length (b_filled H b) + length bs"
    using H set init_prefix_Some [of bs rest] unfolding hyper_buf_law_def by metis
  then show ?thesis using grown_filled [OF law ok _ keep] by blast
qed

lemma tokio_assume_init:
  assumes "tokio_buf_law ok T" "ok b" "init_prefix n (b_unfilled T b)"
  shows "ok (b_assume_init T n b)" "b_mem T (b_assume_init T n b) = b_mem T b"
    "b_initialized T (b_assume_init T n b) = max (b_initialized T b) (length (b_filled T b) + n)"
  using assms unfolding tokio_buf_law_def by blast+

lemma tokio_set_filled:
  assumes "tokio_buf_law ok T" "ok b" "n \<le> b_initialized T b"
  obtains b' where "b_set_filled T n b = Some b'" "ok b'" "b_mem T b' = b_mem T b" "length (b_filled T b') = n"
proof -
  have "case b_set_filled T n b of None \<Rightarrow> b_initialized T b < n
      | Some b' \<Rightarrow> n \<le> b_initialized T b \<and> ok b' \<and> b_mem T b' = b_mem T b \<and> length (b_filled T b') = n"
    using assms(1,2) unfolding tokio_buf_law_def by blast
  then show thesis using that assms(3) by (cases "b_set_filled T n b") simp_all
qed

lemma fill_written:
  assumes T: "tokio_buf_law ok T" and ok: "ok b" and keep: "keeps_init (b_unfilled T b) (map Some bs @ rest)"
  obtains b' where "b_set_filled T (length (b_filled T b) + length bs)
        (b_assume_init T (length bs) (b_set_unfilled T (map Some bs @ rest) b)) = Some b'" "grown ok T b bs b'"
proof -
  have law: "buf_law ok T" using T by (simp add: tokio_buf_law_def)
  let ?b = "b_set_unfilled T (map Some bs @ rest) b"
  let ?a = "b_assume_init T (length bs) ?b" and ?n = "length (b_filled T b) + length bs"
  note set = buf_law_set [OF law ok keep]
  note a = tokio_assume_init [OF T set(1), of "length bs"]
  have init: "init_prefix (length bs) (b_unfilled T ?b)" using set init_prefix_Some by simp
  then have "?n \<le> b_initialized T ?a" using a(3) set(2) by simp
  then obtain b' where b': "b_set_filled T ?n ?a = Some b'" "ok b'" "b_mem T b' = b_mem T ?a" "length (b_filled T b') = ?n"
    by (rule tokio_set_filled [OF T a(1) [OF init]])
  then show thesis using that grown_filled [OF law ok _ keep] a(2) [OF init] by simp
qed

subsection \<open>Concrete buffers\<close>

text \<open>
  Buffers with the three regions described in the documentation of both libraries, and the stream
  of a list of bytes: the contracts can be met.
\<close>

record demo_buf =
  db_mem :: mem
  db_filled :: nat
  db_init :: nat

definition demo_ok :: "demo_buf \<Rightarrow> bool" where
  "demo_ok b \<longleftrightarrow> db_filled b \<le> db_init b \<and> init_prefix (db_init b) (db_mem b)"

definition db_uninit :: "mem \<Rightarrow> demo_buf" where
  "db_uninit m = \<lparr>db_mem = m, db_filled = 0, db_init = 0\<rparr>"

definition db_bytes :: "demo_buf \<Rightarrow> u8 list" where
  "db_bytes b = map the (take (db_filled b) (db_mem b))"

definition db_rest :: "demo_buf \<Rightarrow> mem" where
  "db_rest b = drop (db_filled b) (db_mem b)"

definition db_set_rest :: "mem \<Rightarrow> demo_buf \<Rightarrow> demo_buf" where
  "db_set_rest m b = b\<lparr>db_mem := take (db_filled b) (db_mem b) @ m\<rparr>"

definition demo_tokio_buf :: "demo_buf tokio_buf_ops" where
  "demo_tokio_buf =
     \<lparr>b_uninit = db_uninit, b_filled = db_bytes, b_unfilled = db_rest, b_set_unfilled = db_set_rest, b_mem = db_mem,
      b_initialized = db_init,
      b_assume_init = (\<lambda>n b. b\<lparr>db_init := max (db_init b) (db_filled b + n)\<rparr>),
      b_set_filled = (\<lambda>n b. if n \<le> db_init b then Some (b\<lparr>db_filled := n\<rparr>) else None)\<rparr>"

definition demo_hyper_buf :: "demo_buf hyper_buf_ops" where
  "demo_hyper_buf =
     \<lparr>b_uninit = db_uninit, b_filled = db_bytes, b_unfilled = db_rest, b_set_unfilled = db_set_rest, b_mem = db_mem,
      b_advance = (\<lambda>n b. b\<lparr>db_filled := db_filled b + n, db_init := max (db_init b) (db_filled b + n)\<rparr>)\<rparr>"

definition bytes_source :: "(u8 list, 'e) byte_source" where
  "bytes_source n s = (PReady (Ok (take n s)), drop n s)"

definition overwrite :: "u8 list \<Rightarrow> mem \<Rightarrow> mem" where
  "overwrite bs m = map Some bs @ drop (length bs) m"

definition bytes_hyper_reader :: "'b hyper_buf_ops \<Rightarrow> (u8 list, 'b, 'e) poll_reader" where
  "bytes_hyper_reader H b s =
     (let m = b_unfilled H b; bs = take (length m) s in
      Some ((PReady (Ok ()), b_advance H (length bs) (b_set_unfilled H (overwrite bs m) b)), drop (length m) s))"

definition bytes_tokio_reader :: "'b tokio_buf_ops \<Rightarrow> (u8 list, 'b, 'e) poll_reader" where
  "bytes_tokio_reader T b s =
     (let m = b_unfilled T b; bs = take (length m) s in
      map_option (\<lambda>b. ((PReady (Ok ()), b), drop (length m) s))
        (b_set_filled T (length (b_filled T b) + length bs)
          (b_assume_init T (length bs) (b_set_unfilled T (overwrite bs m) b))))"

lemma init_prefix_le: "init_prefix n m \<Longrightarrow> k \<le> n \<Longrightarrow> init_prefix k m"
  using set_take_subset_set_take [of k n m] by (auto simp: init_prefix_def)

lemma map_the_Some: "None \<notin> set m \<Longrightarrow> map Some (map the m) = m"
  by (induction m) auto

lemma demo_mem:
  assumes "demo_ok b" shows "db_mem b = map Some (db_bytes b) @ db_rest b"
proof -
  have "init_prefix (db_filled b) (db_mem b)" using assms init_prefix_le by (auto simp: demo_ok_def)
  then have "map Some (db_bytes b) = take (db_filled b) (db_mem b)"
    unfolding db_bytes_def init_prefix_def by (intro map_the_Some) simp
  then show ?thesis by (simp add: db_rest_def)
qed

lemma keeps_init_prefix: "keeps_init m m' \<Longrightarrow> init_prefix n m \<Longrightarrow> init_prefix n m'"
  unfolding keeps_init_def init_prefix_def
  by (auto simp: list_all2_conv_all_nth in_set_conv_nth) (metis less_le_trans option.distinct(1))

lemma demo_set_rest:
  assumes "demo_ok b" "keeps_init (db_rest b) m"
  shows "demo_ok (db_set_rest m b)" "db_bytes (db_set_rest m b) = db_bytes b" "db_rest (db_set_rest m b) = m"
proof -
  have len: "db_filled b \<le> length (db_mem b)" using assms(1) by (auto simp: demo_ok_def init_prefix_def)
  have "keeps_init (db_mem b) (take (db_filled b) (db_mem b) @ m)"
    using keeps_init_append [OF assms(2), of "take (db_filled b) (db_mem b)"] by (simp add: db_rest_def)
  then show "demo_ok (db_set_rest m b)" using assms(1) keeps_init_prefix by (auto simp: demo_ok_def db_set_rest_def)
  show "db_bytes (db_set_rest m b) = db_bytes b" "db_rest (db_set_rest m b) = m"
    using len by (simp_all add: db_bytes_def db_rest_def db_set_rest_def)
qed

lemma demo_grow:
  assumes "demo_ok b" "init_prefix n (db_rest b)"
  shows "init_prefix (db_filled b + n) (db_mem b)"
  using assms init_prefix_le [of "db_init b" "db_mem b" "db_filled b"]
  by (auto simp: demo_ok_def db_rest_def init_prefix_def take_add)

lemma demo_buf_law:
  "buf_law demo_ok \<lparr>b_uninit = db_uninit, b_filled = db_bytes, b_unfilled = db_rest, b_set_unfilled = db_set_rest, b_mem = db_mem, \<dots> = z\<rparr>"
proof -
  have "demo_ok (db_uninit m) \<and> db_bytes (db_uninit m) = [] \<and> db_rest (db_uninit m) = m" for m
    by (simp add: db_uninit_def demo_ok_def init_prefix_def db_bytes_def db_rest_def)
  then show ?thesis unfolding buf_law_def buf_ops.simps using demo_set_rest demo_mem by blast
qed

lemma demo_tokio_law: "tokio_buf_law demo_ok demo_tokio_buf"
  unfolding tokio_buf_law_def demo_tokio_buf_def using demo_buf_law demo_grow
  by (auto simp: demo_ok_def db_bytes_def init_prefix_def max_def)

lemma demo_hyper_law: "hyper_buf_law demo_ok demo_hyper_buf"
  unfolding hyper_buf_law_def demo_hyper_buf_def using demo_buf_law demo_grow
  by (auto simp: demo_ok_def db_bytes_def init_prefix_def max_def)

lemma keeps_init_overwrite: "length bs \<le> length m \<Longrightarrow> keeps_init m (overwrite bs m)"
  unfolding keeps_init_def overwrite_def by (auto simp: list_all2_conv_all_nth nth_append)

lemma keeps_init_take: "keeps_init m (map Some (take (length m) s) @ drop (length (take (length m) s)) m)"
  using keeps_init_overwrite [of "take (length m) s" m] by (simp add: overwrite_def)

lemma bytes_hyper_reads:
  assumes "hyper_buf_law ok H" shows "reads ok H bytes_source (bytes_hyper_reader H)"
  using advance_written [OF assms _ keeps_init_take]
  by (simp add: reads_def bytes_source_def bytes_hyper_reader_def Let_def overwrite_def)

lemma bytes_tokio_reads:
  assumes "tokio_buf_law ok T" shows "reads ok T bytes_source (bytes_tokio_reader T)"
  unfolding reads_def
proof (intro allI impI, elim conjE)
  fix b s p s'
  assume ok: "ok b" and p: "bytes_source (length (b_unfilled T b)) s = (p, s')"
  then show "\<exists>b'. bytes_tokio_reader T b s = Some ((answer p, b'), s') \<and> grown ok T b (new_bytes p) b'"
    using fill_written [OF assms ok keeps_init_take, of s]
    unfolding overwrite_def bytes_source_def bytes_tokio_reader_def Let_def by fastforce
qed

section \<open>Properties\<close>

text \<open>
  Property C25. The wrapper read through hyper's trait reads what the wrapped stream reads. Whatever
  source of bytes the inner stream refines through tokio's buffers, the wrapper refines through
  hyper's cursor: each poll appends exactly the bytes the inner stream produced behind those
  already in the cursor, reports its error or that it is pending, and de-initialises nothing.
\<close>

theorem hyper_read_refines:
  assumes T: "tokio_buf_law okT T" and H: "hyper_buf_law okH H" and rd: "reads okT T src rd"
  shows "reads okH H (hio_source src) (HyperIoWrapper_hyper_read T H rd)"
  unfolding reads_def
proof (intro allI impI, elim conjE)
  fix b self p self'
  assume ok: "okH b" and src: "hio_source src (length (b_unfilled H b)) self = (p, self')"
  have lawT: "buf_law okT T" and lawH: "buf_law okH H"
    using T H by (simp_all add: tokio_buf_law_def hyper_buf_law_def)
  obtain s' where s: "src (length (b_unfilled H b)) (hio_inner self) = (p, s')" "self' = self\<lparr>hio_inner := s'\<rparr>"
    using src by (auto simp: hio_source_def HyperIoWrapper_inner_mut_def split: prod.splits)
  obtain tb rest where tb: "rd (b_uninit T (b_unfilled H b)) (hio_inner self) = Some ((answer p, tb), s')"
      "b_filled T tb = new_bytes p" "b_mem T tb = map Some (new_bytes p) @ rest"
      "keeps_init (b_unfilled H b) (b_mem T tb)"
    using reads_uninit [OF lawT rd s(1)] by blast
  have adv: "grown okH H b (new_bytes p) (b_advance H (length (new_bytes p)) (b_set_unfilled H (b_mem T tb) b))"
    using advance_written [OF H ok] tb(3,4) by simp
  show "\<exists>b'. HyperIoWrapper_hyper_read T H rd b self = Some ((answer p, b'), self') \<and> grown okH H b (new_bytes p) b'"
    using tb(1,2) s(2) adv grown_set [OF lawH ok tb(4)]
    by (cases p rule: answer.cases) (auto simp: HyperIoWrapper_hyper_read_def Let_def)
qed

theorem hyper_read_refines_witness:
  "reads demo_ok demo_hyper_buf (hio_source bytes_source) (HyperIoWrapper_hyper_read demo_tokio_buf demo_hyper_buf (bytes_tokio_reader demo_tokio_buf))
   \<and> HyperIoWrapper_hyper_read demo_tokio_buf demo_hyper_buf (bytes_tokio_reader demo_tokio_buf)
       \<lparr>db_mem = [Some 5, None, None], db_filled = 1, db_init = 1\<rparr> (HyperIoWrapper_new [7, 8, 9])
     = Some ((PReady (Ok ()), \<lparr>db_mem = [Some 5, Some 7, Some 8], db_filled = 3, db_init = 3\<rparr>), HyperIoWrapper_new [9])"
  using hyper_read_refines [OF demo_tokio_law demo_hyper_law bytes_tokio_reads [OF demo_tokio_law]]
  by (simp add: HyperIoWrapper_hyper_read_def bytes_tokio_reader_def demo_tokio_buf_def demo_hyper_buf_def db_uninit_def db_bytes_def
      db_rest_def db_set_rest_def overwrite_def HyperIoWrapper_new_def)

text \<open>
  Property C24. The wrapper read through tokio's trait keeps the type of the buffer: it never makes
  \<open>set_filled\<close> panic, hands back a buffer that satisfies the invariant of the library, and fills in
  exactly the bytes the inner stream read through hyper's trait. The bytes that were in the buffer
  before stay in place, also on an error and when the poll is pending.
\<close>

theorem async_read_well_typed:
  assumes T: "tokio_buf_law okT T" and H: "hyper_buf_law okH H" and rd: "reads okH H src rd"
  shows "reads okT T (hio_source src) (HyperIoWrapper_async_read T H rd)"
  unfolding reads_def
proof (intro allI impI, elim conjE)
  fix b self p self'
  assume ok: "okT b" and src: "hio_source src (length (b_unfilled T b)) self = (p, self')"
  have lawT: "buf_law okT T" and lawH: "buf_law okH H"
    using T H by (simp_all add: tokio_buf_law_def hyper_buf_law_def)
  obtain s' where s: "src (length (b_unfilled T b)) (hio_inner self) = (p, s')" "self' = self\<lparr>hio_inner := s'\<rparr>"
    using src by (auto simp: hio_source_def HyperIoWrapper_inner_mut_def split: prod.splits)
  obtain hb rest where hb: "rd (b_uninit H (b_unfilled T b)) (hio_inner self) = Some ((answer p, hb), s')"
      "b_filled H hb = new_bytes p" "b_mem H hb = map Some (new_bytes p) @ rest"
      "keeps_init (b_unfilled T b) (b_mem H hb)"
    using reads_uninit [OF lawH rd s(1)] by blast
  obtain b' where b': "b_set_filled T (length (b_filled T b) + length (new_bytes p))
        (b_assume_init T (length (new_bytes p)) (b_set_unfilled T (b_mem H hb) b)) = Some b'"
      "grown okT T b (new_bytes p) b'"
    using fill_written [OF T ok] hb(3,4) by metis
  show "\<exists>b'. HyperIoWrapper_async_read T H rd b self = Some ((answer p, b'), self') \<and> grown okT T b (new_bytes p) b'"
    using hb(1,2) s(2) b' grown_set [OF lawT ok hb(4)]
    by (cases p rule: answer.cases) (auto simp: HyperIoWrapper_async_read_def Let_def)
qed

theorem async_read_well_typed_witness:
  "reads demo_ok demo_tokio_buf (hio_source bytes_source) (HyperIoWrapper_async_read demo_tokio_buf demo_hyper_buf (bytes_hyper_reader demo_hyper_buf))
   \<and> HyperIoWrapper_async_read demo_tokio_buf demo_hyper_buf (bytes_hyper_reader demo_hyper_buf)
       \<lparr>db_mem = [Some 5, None, None], db_filled = 1, db_init = 1\<rparr> (HyperIoWrapper_new [7])
     = Some ((PReady (Ok ()), \<lparr>db_mem = [Some 5, Some 7, None], db_filled = 2, db_init = 2\<rparr>), HyperIoWrapper_new [])"
  using async_read_well_typed [OF demo_tokio_law demo_hyper_law bytes_hyper_reads [OF demo_hyper_law]]
  by (simp add: HyperIoWrapper_async_read_def bytes_hyper_reader_def demo_tokio_buf_def demo_hyper_buf_def db_uninit_def db_bytes_def
      db_rest_def db_set_rest_def overwrite_def HyperIoWrapper_new_def)

text \<open>Reads of the unified stream dispatch to the socket inside, with its source of bytes.\<close>

definition l4_poll_source :: "('t, 'e) byte_source \<Rightarrow> ('u, 'e) byte_source \<Rightarrow> (('t, 'u) UnifiedL4StreamPoll, 'e) byte_source" where
  "l4_poll_source tcp unix n s =
     (case s of PollTcp t \<Rightarrow> map_prod id PollTcp (tcp n t) | PollUnix u \<Rightarrow> map_prod id PollUnix (unix n u))"

lemma l4_poll_reads:
  assumes "reads ok T src rd" "reads ok T src' rd'"
  shows "reads ok T (l4_poll_source src src') (UnifiedL4StreamPoll_poll_read rd rd')"
  unfolding reads_def
proof (intro allI impI, elim conjE)
  fix b s p s'
  assume ok: "ok b" and src: "l4_poll_source src src' (length (b_unfilled T b)) s = (p, s')"
  show "\<exists>b'. UnifiedL4StreamPoll_poll_read rd rd' b s = Some ((answer p, b'), s') \<and> grown ok T b (new_bytes p) b'"
  proof (cases s)
    case (PollTcp t)
    with src obtain t' where "src (length (b_unfilled T b)) t = (p, t')" "s' = PollTcp t'"
      by (auto simp: l4_poll_source_def map_prod_def split: prod.splits)
    then show ?thesis
      using readsD [OF assms(1) ok] PollTcp by (fastforce simp: UnifiedL4StreamPoll_poll_read_def)
  next
    case (PollUnix u)
    with src obtain u' where "src' (length (b_unfilled T b)) u = (p, u')" "s' = PollUnix u'"
      by (auto simp: l4_poll_source_def map_prod_def split: prod.splits)
    then show ?thesis
      using readsD [OF assms(2) ok] PollUnix by (fastforce simp: UnifiedL4StreamPoll_poll_read_def)
  qed
qed

text \<open>
  A socket keeps its behaviour behind hyper's traits. Any sequence of writes, flushes,
  shutdowns and vectored writes that hyper makes on the wrapped unified stream gives the answers of
  the same sequence on the TCP or Unix socket, where the vectored methods are the provided ones of
  the trait and not the socket's own; a wrapper around a stream with hyper's traits forwards
  all five.
\<close>

lemma hyper_write_transparent:
  "session (poll_run (HyperIoWrapper_hyper_write (UnifiedL4StreamPoll_io v pick tcp unix))) cs (HyperIoWrapper_new (PollTcp t))
     = map_prod id (HyperIoWrapper_new \<circ> PollTcp) (session (poll_run (provided_vectored v pick tcp)) cs t)
   \<and> session (poll_run (HyperIoWrapper_hyper_write (UnifiedL4StreamPoll_io v pick tcp unix))) cs (HyperIoWrapper_new (PollUnix u))
     = map_prod id (HyperIoWrapper_new \<circ> PollUnix) (session (poll_run (provided_vectored v pick unix)) cs u)
   \<and> session (poll_run (HyperIoWrapper_async_write io)) cs (HyperIoWrapper_new s)
     = map_prod id HyperIoWrapper_new (session (poll_run io) cs s)"
  using hyper_tcp.both.session_forward hyper_unix.both.session_forward hio_async.session_forward by fastforce

text \<open>
  \<open>PollIo\<close> around the unified connector opens the socket the key names and only that
  one; the connection is the converted socket inside hyper's wrapper. A failure to connect is
  reported as \<open>Connect\<close>, a failure to convert as \<open>Convert\<close> with the socket dropped. The
  provided \<open>into_poll_io\<close> is \<open>try_into_poll_io\<close> without the stream in its error.
\<close>

lemma poll_connect_l4:
  fixes self :: "('w, 'a, 'p, 't, 'u, 'ce) UnifiedL4Connector"
  assumes into: "\<And>s. into_poll_io s = io_of (res_map_err fst (UnifiedL4Stream_try_into_poll_io tp up s))"
  shows "PollIo_connect into_poll_io (UnifiedL4Connector_connect self) key w =
    (case key of
       L4_Tcp addr \<Rightarrow>
         (case l4_tcp self addr w of
            (Inl e, w') \<Rightarrow> (Err (PCE_Connect e), w')
          | (Inr t, w') \<Rightarrow>
              (case tp t of
                 Inl (e, _) \<Rightarrow> (Err (PCE_Convert e), w')
               | Inr p \<Rightarrow> (Ok (HyperIoWrapper_new (PollTcp p)), w')))
     | L4_Unix path \<Rightarrow>
         (case l4_unix self path w of
            (Inl e, w') \<Rightarrow> (Err (PCE_Connect e), w')
          | (Inr u, w') \<Rightarrow>
              (case up u of
                 Inl (e, _) \<Rightarrow> (Err (PCE_Convert e), w')
               | Inr p \<Rightarrow> (Ok (HyperIoWrapper_new (PollUnix p)), w'))))"
  by (auto simp: PollIo_connect_def UnifiedL4Connector_connect_def UnifiedL4Stream_try_into_poll_io_def into io_defs
      split: UnifiedL4Addr.splits prod.splits sum.splits)

text \<open>A failed conversion gives back the stream it was given, if the conversions of the sockets do.\<close>

lemma try_into_poll_io_returns_stream:
  assumes "\<And>t e t'. tp t = Inl (e, t') \<Longrightarrow> t' = t" "\<And>u e u'. up u = Inl (e, u') \<Longrightarrow> u' = u"
    and "UnifiedL4Stream_try_into_poll_io tp up s = Inl (e, s')"
  shows "s' = s"
  using assms by (auto simp: UnifiedL4Stream_try_into_poll_io_def split: UnifiedL4Stream.splits sum.splits)

end
