(* ===== verification/Hyper_Programs.thy ===== *)
theory Hyper_Programs
  imports Client_Programs Hyper_Client Hyper_Body Pollio
begin

text \<open>
  The tests of \<open>src/http/hyper/mod.rs\<close> as programs: the connectors for hyper over \<open>PollIo\<close> over the TCP
  connector. The server that the second test starts in the background is in \<open>Example_Programs\<close>. The
  sender of hyper, the frames of its bodies and the standard output are library code and arguments.
\<close>

section \<open>Statements\<close>

text \<open>The operations of the libraries on the world of a client.\<close>

record ('w, 'tx, 'req, 'st, 'rb, 'fr, 'd, 'he) hyper_client =
  hv_parse_uri :: "string \<Rightarrow> (uri_view, unit) result"
  hv_request :: "uri_view \<Rightarrow> (string \<times> string) list \<Rightarrow> ('req, unit) result"
  hv_send :: "'tx \<Rightarrow> 'req \<Rightarrow> ('w, 'st \<times> 'rb, 'he) io"
  hv_frame :: "('rb, 'fr, 'he) source"
  hv_data_ref :: "'fr \<Rightarrow> 'd option"
  hv_bytes :: "'rb MonoioBody \<Rightarrow> ('w, 'd, 'he) io"
  hv_write_all :: "'d \<Rightarrow> ('w, unit, unit) io"
  hv_println :: "string \<Rightarrow> 'st \<Rightarrow> 'w \<Rightarrow> 'w"

text \<open>The loop \<open>while let Some(next) = resp.frame().await\<close>; it has no value if the body does not end.\<close>

partial_function (option) print_frames :: "('rb, 'fr, 'he) source \<Rightarrow> ('fr \<Rightarrow> 'd option) \<Rightarrow> ('d \<Rightarrow> ('w, unit, unit) io)
    \<Rightarrow> 'rb \<Rightarrow> ('w, unit, 'e) prog" where
  "print_frames frame data_ref write_all body w =
     (case frame body of
        (r, body') \<Rightarrow>
          (case r of
             None \<Rightarrow> Some (Value (), w)
           | Some (Inl _) \<Rightarrow> Some (Panicked, w)
           | Some (Inr fr) \<Rightarrow>
               (case data_ref fr of
                  None \<Rightarrow> print_frames frame data_ref write_all body' w
                | Some d \<Rightarrow>
                    (case fst (write_all d w) of
                       Inl _ \<Rightarrow> Some (Panicked, snd (write_all d w))
                     | Inr _ \<Rightarrow> print_frames frame data_ref write_all body' (snd (write_all d w))))))"

text \<open>\<open>PollIo\<close> around a TCP connector on a network.\<close>

definition polled_tcp where
  "polled_tcp N into_poll_io c =
     PollIo_connect into_poll_io (tcp_transport N (test_key_to_socket_addrs (net_resolve N)) c)"

section \<open>The test of the HTTP/1.1 connector\<close>

definition hyper_h1_connect_unwrap where
  "hyper_h1_connect_unwrap is_closed ready shake spawn self key w =
     (case HyperH1Connector_connect is_closed ready shake spawn self key w of
        None \<Rightarrow> None
      | Some (r, w') \<Rightarrow> (unwrap r w' :: ((_, unit) outcome \<times> _) option))"

text \<open>\<open>pooled_conn.send_request(req).await.unwrap()\<close>, through the handle to the sender.\<close>

definition hyper_h1_send where
  "hyper_h1_send V pooled req =
     prog_bind (unwrap_opt (p_value pooled)) (\<lambda>c.
     prog_bind (await (hv_send V (HyperH1Connection_deref c) req)) (unwrap :: _ \<Rightarrow> (_, _, unit) prog))"

text \<open>
  The test makes two requests. Its second \<open>let mut pooled_conn\<close> shadows the first handle and does not
  drop it.
\<close>

definition h1_hyper where
  "h1_hyper V builder transport is_closed ready shake spawn =
     prog_bind (unwrap (hv_parse_uri V ''http://httpbin.org/get'')) (\<lambda>uri.
     prog_bind (uri_key uri) (\<lambda>key.
     prog_bind (call (HyperH1Connector_new builder (transport TcpConnector_default))) (\<lambda>self.
     prog_bind (hyper_h1_connect_unwrap is_closed ready shake spawn self key) (\<lambda>pooled.
     prog_bind (unwrap (hv_request V uri [(''host'', tk_host key)])) (\<lambda>req.
     prog_bind (hyper_h1_send V pooled req) (\<lambda>(status, body).
     prog_then (call (\<lambda>w. ((), hv_println V (''H1 Response status: {}'' @ [CHR 0x0A] @ ''Read with hyper body interface'') status w)))
    (prog_then (print_frames (hv_frame V) (hv_data_ref V) (hv_write_all V) body)
    (prog_bind (hyper_h1_connect_unwrap is_closed ready shake spawn self key) (\<lambda>pooled.
     prog_bind (unwrap (hv_request V uri [(''host'', tk_host key)])) (\<lambda>req.
     prog_bind (hyper_h1_send V pooled req) (\<lambda>(status, body).
     prog_then (call (\<lambda>w. ((), hv_println V (''H1 Response status: {}'' @ [CHR 0x0A] @ ''Read with monoio-http body interface'') status w)))
    (prog_bind (await (hv_bytes V (MonoioBody_new body))) (\<lambda>r.
     prog_bind (unwrap r) (\<lambda>bytes.
     prog_bind (await (hv_write_all V bytes)) unwrap))))))))))))))"

section \<open>The test of the HTTP/2 connector\<close>

text \<open>The body of the loop; the handle is dropped at its end.\<close>

definition h2_round where
  "h2_round V L self key uri =
     prog_bind (await (HyperH2Connector_connect L self key)) (\<lambda>r.
     prog_bind (unwrap r) (\<lambda>pooled.
     prog_bind (unwrap (hv_request V uri [])) (\<lambda>req.
     prog_bind (await (hv_send V (HyperH2Connection_deref pooled) req)) (\<lambda>r.
     prog_bind (unwrap r) (\<lambda>(status, body).
     prog_then (call (\<lambda>w. ((), hv_println V ''H2 Response status: {}'' status w)))
    (prog_then (print_frames (hv_frame V) (hv_data_ref V) (hv_write_all V) body)
    (call (\<lambda>w. ((), w\<lparr>y_cnt := HyperH2Connection_drop pooled (y_cnt w)\<rparr>)) :: (_, _, unit) prog)))))))"

text \<open>The background server is started first: its accept loop is handed to the executor.\<close>

record ('w, 'l) hyper_listener =
  bg_bind :: "string \<Rightarrow> ('w, 'l, unit) io"
  bg_local_addr :: "'l \<Rightarrow> string"
  bg_println :: "string \<Rightarrow> 'w \<Rightarrow> 'w"
  bg_spawn :: "'l \<Rightarrow> 'w \<Rightarrow> 'w"

definition h2_hyper where
  "h2_hyper V B builder L =
     prog_bind (await (bg_bind B ''127.0.0.1:5928'')) (\<lambda>r.
     prog_bind (unwrap r) (\<lambda>listener.
     prog_then (call (\<lambda>w. ((), bg_println B (''listening on '' @ bg_local_addr B listener) w)))
    (prog_then (call (\<lambda>w. ((), bg_spawn B listener w)))
    (prog_bind (unwrap (hv_parse_uri V ''http://127.0.0.1:5928/get'')) (\<lambda>uri.
     prog_bind (uri_key uri) (\<lambda>key.
     prog_bind (call (HyperH2Connector_new builder TcpConnector_default)) (\<lambda>self.
     repeat_prog 3 (\<lambda>_. h2_round V L self key uri) ())))))))"

section \<open>A network and a server for hyper\<close>

text \<open>
  An operation that always succeeds, leaves \<open>kept\<close> alone and opens \<open>n\<close> connections, where \<open>opened\<close>
  reads the number of connections opened so far.
\<close>

definition dials_by :: "('w \<Rightarrow> 'p) \<Rightarrow> ('w \<Rightarrow> nat) \<Rightarrow> nat \<Rightarrow> ('w, 'a, 'e) io \<Rightarrow> bool" where
  "dials_by kept opened n m \<longleftrightarrow> (\<forall>w. \<exists>a w'. m w = (Ok a, w') \<and> kept w' = kept w \<and> opened w' = opened w + n)"

lemma dials_byE:
  assumes "dials_by kept opened n m"
  obtains a w' where "m w = (Ok a, w')" "kept w' = kept w" "opened w' = opened w + n"
  using assms unfolding dials_by_def by blast

lemma dials_by_bind:
  assumes "dials_by kept opened n m" and "\<And>a. dials_by kept opened k (f a)"
  shows "dials_by kept opened (n + k) (io_bind m f)"
  unfolding dials_by_def
proof
  fix w
  obtain a w1 where 1: "m w = (Ok a, w1)" "kept w1 = kept w" "opened w1 = opened w + n" by (rule dials_byE [OF assms(1)])
  obtain b w2 where 2: "f a w1 = (Ok b, w2)" "kept w2 = kept w1" "opened w2 = opened w1 + k" by (rule dials_byE [OF assms(2)])
  show "\<exists>a w'. io_bind m f w = (Ok a, w') \<and> kept w' = kept w \<and> opened w' = opened w + (n + k)"
    using 1 2 by (simp add: io_bind_def)
qed

lemma dials_by_map_err: "dials_by kept opened n m \<Longrightarrow> dials_by kept opened n (io_map_err f m)"
  unfolding dials_by_def io_map_err_def by (metis case_prod_conv res_map_err.simps(2))

lemma dials_by_return: "dials_by kept opened 0 (io_return a)"
  by (simp add: dials_by_def io_return_def)

lemma dials_by_ignore: "(\<And>w. kept (snd (m w)) = kept w \<and> opened (snd (m w)) = opened w) \<Longrightarrow> dials_by kept opened 0 (io_ignore m)"
  by (auto simp: dials_by_def io_ignore_def split_def)

text \<open>
  The network: a name resolves, a connection to its addresses is opened by \<open>connect\<close> and by nothing
  else; setting the option may fail. Nothing is said of other names, ports and addresses.
\<close>

definition polled_net where
  "polled_net kept opened N into_poll_io host port \<longleftrightarrow>
     (\<exists>as. net_resolve N host port = Ok as \<and> as \<noteq> [] \<and> dials_by kept opened 1 (net_connect N (Ok as))) \<and>
     (\<forall>s b w. kept (snd (net_nodelay N s b w)) = kept w \<and> opened (snd (net_nodelay N s b w)) = opened w) \<and> (\<forall>s. dials_by kept opened 0 (into_poll_io s))"

lemma polled_tcp_dials:
  assumes "polled_net kept opened N into_poll_io (tk_host key) (tk_port key)"
  shows "dials_by kept opened 1 (polled_tcp N into_poll_io c key)"
proof -
  note net = assms [unfolded polled_net_def]
  obtain as where "test_key_to_socket_addrs (net_resolve N) key = Ok as" "dials_by kept opened 1 (net_connect N (Ok as))"
    using net unfolding test_key_to_socket_addrs_def by blast
  moreover have "dials_by kept opened (0 + 0) (io_bind (io_ignore (net_nodelay N s True)) (\<lambda>_. io_return s))" for s
    using net by (intro dials_by_bind dials_by_ignore dials_by_return) blast
  ultimately have tcp: "dials_by kept opened (1 + 0) (tcp_transport N (test_key_to_socket_addrs (net_resolve N)) c key)"
    unfolding tcp_transport_def TcpConnector_connect_def
    using net by (intro dials_by_bind) (auto intro: dials_by_return)
  have "dials_by kept opened ((1 + 0) + (0 + 0)) (polled_tcp N into_poll_io c key)"
    unfolding polled_tcp_def PollIo_connect_def
    using net by (intro dials_by_bind dials_by_map_err tcp dials_by_return) blast
  then show ?thesis by simp
qed

text \<open>The server answers: what is sent gets a response whose body ends, and output works.\<close>

definition hyper_answers where
  "hyper_answers kept opened V \<longleftrightarrow>
     (\<forall>uri hs. \<exists>req. hv_request V uri hs = Ok req) \<and> (\<forall>t req. dials_by kept opened 0 (hv_send V t req)) \<and>
     (\<forall>body. \<exists>xs body'. ends_with (hv_frame V) body xs body') \<and> (\<forall>b. dials_by kept opened 0 (hv_bytes V b)) \<and>
     (\<forall>d. dials_by kept opened 0 (hv_write_all V d)) \<and>
     (\<forall>s status w. kept (hv_println V s status w) = kept w \<and> opened (hv_println V s status w) = opened w)"

lemma hyper_answersD:
  assumes "hyper_answers kept opened V"
  shows "\<exists>req. hv_request V uri hs = Ok req" "dials_by kept opened 0 (hv_send V t req)"
    "\<exists>xs body'. ends_with (hv_frame V) body xs body'" "dials_by kept opened 0 (hv_bytes V b)"
    "dials_by kept opened 0 (hv_write_all V d)" "kept (hv_println V s status w) = kept w"
    "opened (hv_println V s status w) = opened w"
  using assms unfolding hyper_answers_def by blast+

text \<open>A loop over frames that end prints all data, whatever the world is.\<close>

lemma print_frames_ends:
  assumes "\<And>d w. ok w \<Longrightarrow> \<exists>w'. write_all d w = (Ok (), w') \<and> ok w'"
  shows "ends_with frame body xs body' \<Longrightarrow> ok w \<Longrightarrow> \<exists>w'. print_frames frame data_ref write_all body w = Some (Value (), w') \<and> ok w'"
proof (induction xs arbitrary: body w)
  case Nil
  then show ?case by (subst print_frames.simps) simp
next
  case (Cons x xs)
  then obtain body1 where f: "frame body = (Some (Inr x), body1)" "ends_with frame body1 xs body'" by (auto simp: ends_with_Cons)
  show ?case
  proof (cases "data_ref x")
    case None
    with f Cons.IH [OF f(2) Cons.prems(2)] show ?thesis by (subst print_frames.simps) simp
  next
    case (Some d)
    obtain w1 where "write_all d w = (Ok (), w1)" "ok w1" using assms [OF Cons.prems(2)] by blast
    with f Some Cons.IH [OF f(2), of w1] show ?thesis by (subst print_frames.simps) simp
  qed
qed

lemma answers_print_frames:
  assumes "hyper_answers kept opened V"
  obtains w' where "print_frames (hv_frame V) (hv_data_ref V) (hv_write_all V) body w = Some (Value (), w')"
    "kept w' = kept w" "opened w' = opened w"
proof -
  have "\<exists>w'. hv_write_all V d v = (Ok (), w') \<and> kept w' = kept w \<and> opened w' = opened w"
    if "kept v = kept w \<and> opened v = opened w" for d v
    using that hyper_answersD(5) [OF assms, of d] unfolding dials_by_def by (metis (full_types) old.unit.exhaust add_0_right)
  then show thesis
    using hyper_answersD(3) [OF assms, of body] that
      print_frames_ends [where ok = "\<lambda>v. kept v = kept w \<and> opened v = opened w" and write_all = "hv_write_all V" and w = w]
    by meson
qed

text \<open>A connect of \<open>HyperH1Connector\<close> that finds no idle sender dials; a request through its handle does not.\<close>

lemma hyper_h1_dials:
  assumes transport: "dials_by w_store (\<lambda>w. opened (w_env w)) 1 (hy_connector self key)"
    and shake: "\<And>b io. dials_by w_store (\<lambda>w. opened (w_env w)) 0 (shake b io)"
    and spawn: "\<And>task e. opened (spawn task e) = opened e"
    and pool: "rc_read (hy_pool self) (w_store w) = Some p" "pool_wf p" "queue_of p key = []"
  obtains c w' where "hyper_h1_connect_unwrap is_closed ready shake spawn self key w = Some (Value (Pooled_new key c False (hy_pool self)), w')"
    "w_store w' = w_store w" "opened (w_env w') = Suc (opened (w_env w))"
proof -
  have loop: "hyper_h1_loop is_closed ready (hy_pool self) key w = Some (None, w)"
    using pool by (subst hyper_h1_loop.simps) (simp add: ConnectionPool_get_def get_wf rc_write_same)
  obtain io w1 where t: "hy_connector self key w = (Ok io, w1)" "w_store w1 = w_store w" "opened (w_env w1) = opened (w_env w) + 1"
    by (rule dials_byE [OF transport])
  obtain r w2 where h: "shake (hy_builder self) io w1 = (Ok r, w2)" "w_store w2 = w_store w1" "opened (w_env w2) = opened (w_env w1) + 0"
    by (rule dials_byE [OF shake])
  have connected: "hyper_h1_connect_unwrap is_closed ready shake spawn self key w
      = Some (Value (Pooled_new key \<lparr>hyper_tx = fst r\<rparr> False (hy_pool self)), w2\<lparr>w_env := spawn (snd r) (w_env w2)\<rparr>)"
    using t(1) h(1) by (simp add: hyper_h1_connect_unwrap_def HyperH1Connector_connect_def loop hyper_h1_dial_def io_bind_def
        io_map_err_def ConnectionPool_link_def split_def)
  show thesis using t(2,3) h(2,3) spawn by (intro that [OF connected]) simp_all
qed

lemma hyper_h1_sends:
  assumes "hyper_answers kept opened V"
  obtains r w' where "hyper_h1_send V (Pooled_new key c reused a) req w = Some (Value r, w')" "kept w' = kept w" "opened w' = opened w"
proof -
  obtain r w' where "hv_send V (hyper_tx c) req w = (Ok r, w')" "kept w' = kept w" "opened w' = opened w + 0"
    by (rule dials_byE [OF hyper_answersD(2) [OF assms]])
  then show thesis
    using that [of r w'] by (simp add: hyper_h1_send_def prog_bind_def await_def HyperH1Connection_deref_def Pooled_new_def)
qed

text \<open>Both together, with the line that is printed.\<close>

lemma hyper_h1_asks:
  assumes answers: "hyper_answers w_store (\<lambda>w. opened (w_env w)) V"
    and transport: "dials_by w_store (\<lambda>w. opened (w_env w)) 1 (hy_connector self key)"
    and shake: "\<And>b io. dials_by w_store (\<lambda>w. opened (w_env w)) 0 (shake b io)"
    and spawn: "\<And>task e. opened (spawn task e) = opened e"
    and pool: "rc_read (hy_pool self) (w_store w) = Some p" "pool_wf p" "queue_of p key = []"
  obtains pooled w1 status body w2 where "hyper_h1_connect_unwrap is_closed ready shake spawn self key w = Some (Value pooled, w1)"
    "hyper_h1_send V pooled req w1 = Some (Value (status, body), w2)" "w_store (hv_println V line status w2) = w_store w"
    "opened (w_env (hv_println V line status w2)) = Suc (opened (w_env w))"
proof -
  obtain c w1 where 1: "hyper_h1_connect_unwrap is_closed ready shake spawn self key w = Some (Value (Pooled_new key c False (hy_pool self)), w1)"
    "w_store w1 = w_store w" "opened (w_env w1) = Suc (opened (w_env w))"
    by (rule hyper_h1_dials [where opened = opened and self = self and key = key and shake = shake and spawn = spawn
          and w = w and p = p and is_closed = is_closed and ready = ready, OF transport shake spawn pool])
  obtain r w2 where 2: "hyper_h1_send V (Pooled_new key c False (hy_pool self)) req w1 = Some (Value r, w2)"
    "w_store w2 = w_store w1" "opened (w_env w2) = opened (w_env w1)"
    by (rule hyper_h1_sends [where opened = "\<lambda>w. opened (w_env w)" and kept = w_store and V = V and req = req and w = w1, OF answers])
  show thesis
    using that [OF 1(1), of "fst r" "snd r" w2] 1 2 hyper_answersD(6,7) [where opened = "\<lambda>w. opened (w_env w)", OF answers, of line "fst r" w2] by simp
qed

section \<open>Properties\<close>

text \<open>
  Property C23. The test of the HTTP/1.1 connector for hyper passes against a server that answers, and it opens
  two connections: the handle of the first request is still held when the second is made, so the
  pool has nothing to offer.
\<close>

theorem h1_hyper_dials_twice:
  assumes "hyper_answers w_store (\<lambda>w. opened (w_env w)) V"
    and "polled_net w_store (\<lambda>w. opened (w_env w)) N into_poll_io ''httpbin.org'' 80"
    and "\<And>b io. dials_by w_store (\<lambda>w. opened (w_env w)) 0 (shake b io)"
    and "\<And>task e. opened (spawn task e) = opened e"
    and "hv_parse_uri V ''http://httpbin.org/get'' =
      Ok \<lparr>uri_host = Some ''httpbin.org'', uri_scheme = Some Scheme_HTTP, uri_port_u16 = None\<rparr>"
    and "rc_inv (w_store w)"
  shows "\<exists>w'. h1_hyper V builder (polled_tcp N into_poll_io) is_closed ready shake spawn w = Some (Value (), w')
     \<and> opened (w_env w') = opened (w_env w) + 2"
proof -
  let ?key = "\<lparr>tk_host = ''httpbin.org'', tk_port = 80\<rparr>"
    and ?uri = "\<lparr>uri_host = Some ''httpbin.org'', uri_scheme = Some Scheme_HTTP, uri_port_u16 = None\<rparr>"
    and ?opened = "\<lambda>w. opened (w_env w)"
    and ?l1 = "''H1 Response status: {}'' @ [CHR 0x0A] @ ''Read with hyper body interface''"
    and ?l2 = "''H1 Response status: {}'' @ [CHR 0x0A] @ ''Read with monoio-http body interface''"
  obtain self w0 where new: "HyperH1Connector_new builder (polled_tcp N into_poll_io TcpConnector_default) w = (self, w0)" by fastforce
  have self: "hy_connector self = polled_tcp N into_poll_io TcpConnector_default"
    "rc_read (hy_pool self) (w_store w0) = Some (PoolInner_new None)" "w_env w0 = w_env w"
    using new assms(6) by (auto simp: HyperH1Connector_new_def ConnectionPool_new_def rc.read_alloc split_def)
  have transport: "dials_by w_store ?opened 1 (hy_connector self ?key)" unfolding self by (rule polled_tcp_dials) (use assms(2) in simp)
  have asks: thesis if st: "w_store v = w_store w0"
    and found: "\<And>pooled w1 status body w2. hyper_h1_connect_unwrap is_closed ready shake spawn self ?key v = Some (Value pooled, w1)
      \<Longrightarrow> hyper_h1_send V pooled req w1 = Some (Value (status, body), w2)
      \<Longrightarrow> w_store (hv_println V line status w2) = w_store v \<Longrightarrow> ?opened (hv_println V line status w2) = Suc (?opened v) \<Longrightarrow> thesis"
    for v line req thesis
    by (rule hyper_h1_asks [where opened = opened and V = V and self = self and key = ?key and shake = shake and spawn = spawn
          and w = v and p = "PoolInner_new None" and is_closed = is_closed and ready = ready and req = req and line = line,
          OF assms(1) transport assms(3,4)]) (use st self(2) found in simp_all)
  obtain req where req: "hv_request V ?uri [(''host'', ''httpbin.org'')] = Ok req" using hyper_answersD(1) [OF assms(1)] by blast
  obtain p1 w1 status1 body1 w2 where 1: "hyper_h1_connect_unwrap is_closed ready shake spawn self ?key w0 = Some (Value p1, w1)"
    "hyper_h1_send V p1 req w1 = Some (Value (status1, body1), w2)" "w_store (hv_println V ?l1 status1 w2) = w_store w0"
    "?opened (hv_println V ?l1 status1 w2) = Suc (?opened w0)"
    by (rule asks [where line1 = ?l1 and req1 = req, OF refl])
  obtain w3 where 2: "print_frames (hv_frame V) (hv_data_ref V) (hv_write_all V) body1 (hv_println V ?l1 status1 w2) = Some (Value () :: (unit, unit) outcome, w3)"
    "w_store w3 = w_store (hv_println V ?l1 status1 w2)" "?opened w3 = ?opened (hv_println V ?l1 status1 w2)"
    by (rule answers_print_frames [where opened = ?opened and kept = w_store, OF assms(1)])
  obtain p2 w4 status2 body2 w5 where 3: "hyper_h1_connect_unwrap is_closed ready shake spawn self ?key w3 = Some (Value p2, w4)"
    "hyper_h1_send V p2 req w4 = Some (Value (status2, body2), w5)" "?opened (hv_println V ?l2 status2 w5) = Suc (?opened w3)"
    by (rule asks [where line1 = ?l2 and req1 = req and v1 = w3]) (use 1(3) 2(2) in simp_all)
  obtain bytes w6 where 4: "hv_bytes V (MonoioBody_new body2) (hv_println V ?l2 status2 w5) = (Ok bytes, w6)"
    "?opened w6 = ?opened (hv_println V ?l2 status2 w5) + 0"
    by (rule dials_byE [where opened = ?opened and kept = w_store, OF hyper_answersD(4) [where opened = ?opened, OF assms(1)]])
  obtain w7 where 5: "hv_write_all V bytes w6 = (Ok (), w7)" "?opened w7 = ?opened w6 + 0"
    by (rule dials_byE [where opened = ?opened and kept = w_store, OF hyper_answersD(5) [where opened = ?opened, OF assms(1)]]) auto
  have "h1_hyper V builder (polled_tcp N into_poll_io) is_closed ready shake spawn w = Some (Value (), w7)"
    using 1(1,2) 2(1) 3(1,2) 4(1) 5(1)
    by (simp add: h1_hyper_def assms(5) uri_key_def unwrap_or_def call_def new req await_def prog_bind_def)
  then show ?thesis using 1(4) 2(3) 3(3) 4(2) 5(2) self(3) by simp
qed

text \<open>The same for HTTP/2: waiting for the lock, the handshake and the background task leave the pool alone.\<close>

definition over_polled where
  "over_polled N into_poll_io L = L\<lparr>y_transport := polled_tcp N into_poll_io\<rparr>"

definition listens where
  "listens opened B \<longleftrightarrow> (\<forall>w. \<exists>l w'. bg_bind B ''127.0.0.1:5928'' w = (Ok l, w') \<and> opened w' = opened w) \<and>
     (\<forall>s w. opened (bg_println B s w) = opened w) \<and> (\<forall>l w. opened (bg_spawn B l w) = opened w)"

definition hyper2_up where
  "hyper2_up opened L \<longleftrightarrow>
     (\<forall>b io. dials_by y_pool (\<lambda>w. opened (y_env w)) 0 (y_handshake L b io)) \<and> (\<forall>task e. opened (y_spawn L task e) = opened e) \<and>
     (\<forall>a w. y_pool (y_lock L a w) = y_pool w \<and> opened (y_env (y_lock L a w)) = opened (y_env w)) \<and> (\<forall>e t. y_is_ready L e t)"

text \<open>The pool is empty for a key, or holds one connection without a limit.\<close>

definition pool_offers :: "'k \<Rightarrow> nat \<Rightarrow> ('k, 'tx, 's, 'w) hyper2_world \<Rightarrow> bool" where
  "pool_offers key n w \<longleftrightarrow>
     (if n = 0 then hm_get (idle_conns (y_pool w)) key = None
      else \<exists>i. hm_get (idle_conns (y_pool w)) key = Some [i] \<and> h2_cnt (conn i) = None)"

lemma h2_connect_hit:
  assumes "hyper2_up opened L" and "pool_offers key 1 w"
  obtains c w' where "HyperH2Connector_connect L self key w = (Ok c, w')" "pool_offers key 1 w'" "h2_cnt c = None"
    "opened (y_env w') = opened (y_env w)"
proof -
  obtain i where i: "hm_get (idle_conns (y_pool w)) key = Some [i]" "h2_cnt (conn i) = None" using assms(2) by (auto simp: pool_offers_def)
  have "y_is_ready L (y_env w) (h2_tx (conn i))" using assms(1) by (simp add: hyper2_up_def)
  then have "HyperH2Connector_connect L self key w =
      (Ok \<lparr>h2_tx = h2_tx (conn i), h2_cnt = None\<rparr>, w\<lparr>y_pool := set_queue key [reset_idle (y_clock w) i] (y_pool w)\<rparr>)"
    using i by (simp add: HyperH2Connector_connect_def hyper_try_get_def retain_def drop_all_def stream_full_def HyperH2Connection_to_owned_def)
  from that [OF this] i show thesis by (simp add: pool_offers_def set_queue_def reset_idle_def)
qed

lemma h2_connect_miss:
  assumes "hyper2_up opened L" and "polled_net y_pool (\<lambda>w. opened (y_env w)) N into_poll_io (tk_host key) (tk_port key)"
    and "pool_offers key 0 w" and "max_stream_sender self = None"
  obtains c w' where "HyperH2Connector_connect (over_polled N into_poll_io L) self key w = (Ok c, w')" "pool_offers key 1 w'"
    "h2_cnt c = None" "opened (y_env w') = Suc (opened (y_env w))"
proof -
  let ?L = "over_polled N into_poll_io L" and ?opened = "\<lambda>w. opened (y_env w)"
  obtain a t where lock: "get_lock (Mutex_new L) key (y_connecting w) = (a, t)" by fastforce
  define w1 where "w1 = y_lock L a (w\<lparr>y_connecting := t\<rparr>)"
  have w1: "y_pool w1 = y_pool w" "?opened w1 = ?opened w" using assms(1) by (simp_all add: hyper2_up_def w1_def)
  have none: "hm_get (idle_conns (y_pool w)) key = None" using assms(3) by (simp add: pool_offers_def)
  obtain io w2 where tr: "polled_tcp N into_poll_io (hy2_connector self) key w1 = (Ok io, w2)" "y_pool w2 = y_pool w1" "?opened w2 = ?opened w1 + 1"
    by (rule dials_byE [where opened = ?opened and kept = y_pool, OF polled_tcp_dials [where opened = ?opened and kept = y_pool, OF assms(2)]])
  have "dials_by y_pool ?opened 0 (y_handshake L (hy2_builder self) io)" using assms(1) by (simp add: hyper2_up_def)
  then obtain r w3 where hs: "y_handshake L (hy2_builder self) io w2 = (Ok r, w3)" "y_pool w3 = y_pool w2" "?opened w3 = ?opened w2 + 0"
    by (rule dials_byE [where opened = ?opened and kept = y_pool])
  let ?c = "\<lparr>h2_tx = fst r, h2_cnt = None\<rparr>"
  have q: "hm_get (idle_conns (y_pool w3)) key = None" using hs(2) tr(2) w1 none by simp
  then have fin: "hyper_finish (y_spawn L) self key (fst r) (snd r) w3 =
      (?c, w3\<lparr>y_env := y_spawn L (snd r) (y_env w3), y_pool := set_queue key [Idle_new (y_clock w3) ?c] (y_pool w3)\<rparr>)"
    using assms(4) by (simp add: hyper_finish_def hm_or_insert_def HyperH2Connection_to_owned_def pool_put_def drop_all_def push_back_def Let_def)
  have "HyperH2Connector_connect ?L self key w = (Ok ?c, hyper_unlock (y_unlock L) a
      (w3\<lparr>y_env := y_spawn L (snd r) (y_env w3), y_pool := set_queue key [Idle_new (y_clock w3) ?c] (y_pool w3)\<rparr>))"
    using lock none w1 tr(1) hs(1)
    by (simp add: HyperH2Connector_connect_def hyper_locked_def hyper_try_get_def over_polled_def io_bind_def io_map_err_def fin
        split_def flip: w1_def)
  moreover have "opened (y_spawn L (snd r) (y_env w3)) = ?opened w3" using assms(1) by (simp add: hyper2_up_def)
  ultimately show thesis using that hs(3) tr(3) w1(2) by (auto simp: pool_offers_def set_queue_def Idle_new_def hyper_unlock_def)
qed

text \<open>A round keeps what its connect has left.\<close>

lemma h2_round_runs:
  assumes "hyper_answers y_pool (\<lambda>w. opened (y_env w)) V"
    and "HyperH2Connector_connect L self key w = (Ok c, w1)" "pool_offers key 1 w1" "h2_cnt c = None"
  shows "\<exists>w'. h2_round V L self key uri w = Some (Value (), w') \<and> pool_offers key 1 w' \<and> opened (y_env w') = opened (y_env w1)"
proof -
  let ?opened = "\<lambda>w. opened (y_env w)" and ?line = "''H2 Response status: {}''"
  note answers = hyper_answersD [where opened = ?opened and kept = y_pool, OF assms(1)]
  obtain req where req: "hv_request V uri [] = Ok req" using answers(1) by blast
  obtain r w2 where 2: "hv_send V (h2_tx c) req w1 = (Ok r, w2)" "y_pool w2 = y_pool w1" "?opened w2 = ?opened w1 + 0"
    by (rule dials_byE [where opened = ?opened and kept = y_pool, OF answers(2)])
  obtain w3 where 3: "print_frames (hv_frame V) (hv_data_ref V) (hv_write_all V) (snd r) (hv_println V ?line (fst r) w2)
      = Some (Value () :: (unit, unit) outcome, w3)"
    "y_pool w3 = y_pool (hv_println V ?line (fst r) w2)" "?opened w3 = ?opened (hv_println V ?line (fst r) w2)"
    by (rule answers_print_frames [where opened = ?opened and kept = y_pool, OF assms(1)])
  have "h2_round V L self key uri w = Some (Value (), w3)"
    using assms(2,4) 2(1) 3(1)
    by (simp add: h2_round_def await_def req HyperH2Connection_deref_def HyperH2Connection_drop_def call_def prog_bind_def split_def)
  then show ?thesis using assms(3) 2(2,3) 3(2,3) answers(6,7) by (simp add: pool_offers_def)
qed

text \<open>
  Property C22. The test of the HTTP/2 connector for hyper passes against a server that answers, and its three
  rounds share one connection: only the first round dials, through the table of locks, the others
  get a clone of the connection in the pool.
\<close>

theorem h2_hyper_dials_once:
  assumes "hyper_answers y_pool (\<lambda>w. opened (y_env w)) V"
    and "polled_net y_pool (\<lambda>w. opened (y_env w)) N into_poll_io ''127.0.0.1'' 5928" and "hyper2_up opened L"
    and "listens (\<lambda>w. opened (y_env w)) B"
    and "hv_parse_uri V ''http://127.0.0.1:5928/get'' =
      Ok \<lparr>uri_host = Some ''127.0.0.1'', uri_scheme = Some Scheme_HTTP, uri_port_u16 = Some 5928\<rparr>"
  shows "\<exists>w'. h2_hyper V B builder (over_polled N into_poll_io L) w = Some (Value (), w')
     \<and> opened (y_env w') = Suc (opened (y_env w))"
proof -
  let ?key = "\<lparr>tk_host = ''127.0.0.1'', tk_port = 5928\<rparr>" and ?L = "over_polled N into_poll_io L"
    and ?uri = "\<lparr>uri_host = Some ''127.0.0.1'', uri_scheme = Some Scheme_HTTP, uri_port_u16 = Some 5928\<rparr>"
  obtain l wl where bound: "bg_bind B ''127.0.0.1:5928'' w = (Ok l, wl)" "opened (y_env wl) = opened (y_env w)"
    using assms(4) unfolding listens_def by blast
  define v where "v = bg_spawn B l (bg_println B (''listening on '' @ bg_local_addr B l) wl)"
  have "opened (y_env v) = opened (y_env w)" using assms(4) bound(2) by (simp add: listens_def v_def)
  obtain self w0 where new: "HyperH2Connector_new builder TcpConnector_default v = (self, w0)" by fastforce
  then have self: "max_stream_sender self = None" "pool_offers ?key 0 w0" "opened (y_env w0) = opened (y_env w)"
    using \<open>opened (y_env v) = opened (y_env w)\<close> by (auto simp: HyperH2Connector_new_def pool_offers_def PoolInner_new_def)
  have up: "hyper2_up opened ?L" using assms(3) by (simp add: hyper2_up_def over_polled_def)
  define n where "n = Suc (opened (y_env w))"
  let ?round = "h2_round V ?L self ?key ?uri" and ?ok = "\<lambda>(_ :: unit) w. pool_offers ?key 1 w \<and> opened (y_env w) = n"
  obtain c w1 where "HyperH2Connector_connect ?L self ?key w0 = (Ok c, w1)" "pool_offers ?key 1 w1" "h2_cnt c = None" "opened (y_env w1) = n"
    by (rule h2_connect_miss [where opened = opened and L = L and N = N and into_poll_io = into_poll_io and key = ?key and w = w0
          and self = self, OF assms(3) _ self(2,1)]) (use assms(2) in \<open>simp_all add: n_def self(3)\<close>)
  then obtain w2 where first: "?round w0 = Some (Value (), w2)" and w2: "?ok () w2"
    using h2_round_runs [where opened = opened and V = V and L = ?L and self = self and key = ?key and w = w0 and uri = ?uri, OF assms(1)] by auto
  have step: "\<exists>u' v'. ?round v = Some (Value u', v') \<and> ?ok u' v'" if offers: "?ok u v" for u :: unit and v
  proof -
    obtain c v1 where "HyperH2Connector_connect ?L self ?key v = (Ok c, v1)" "pool_offers ?key 1 v1" "h2_cnt c = None" "opened (y_env v1) = n"
      by (rule h2_connect_hit [where opened = opened and L = ?L and key = ?key and w = v and self = self, OF up]) (use offers in simp_all)
    then show ?thesis using h2_round_runs [where opened = opened and V = V and L = ?L and self = self and key = ?key and w = v and uri = ?uri, OF assms(1)] by auto
  qed
  obtain w3 where "repeat_prog 2 (\<lambda>_. ?round) () w2 = Some (Value (), w3)" "opened (y_env w3) = n"
    using repeat_prog_invariant [where ok = ?ok and body = "\<lambda>_. ?round" and n = 2, OF step w2] by auto
  moreover have "repeat_prog (Suc 2) (\<lambda>_. ?round) () w0 = repeat_prog 2 (\<lambda>_. ?round) () w2"
    unfolding repeat_prog.simps by (rule prog_bind_Value) (rule first)
  ultimately show ?thesis
    using new [unfolded v_def] by (simp add: h2_hyper_def assms(5) uri_key_def unwrap_or_def call_def await_def bound prog_bind_def n_def)
qed

text \<open>A server for concrete runs: a body is the list of its frames, the environment counts connections.\<close>

definition demo_hyper :: "('w, nat, string, nat, string list, string, string, unit) hyper_client" where
  "demo_hyper =
     \<lparr>hv_parse_uri = (\<lambda>s. Ok (if s = ''http://httpbin.org/get''
        then \<lparr>uri_host = Some ''httpbin.org'', uri_scheme = Some Scheme_HTTP, uri_port_u16 = None\<rparr>
        else \<lparr>uri_host = Some ''127.0.0.1'', uri_scheme = Some Scheme_HTTP, uri_port_u16 = Some 5928\<rparr>)),
      hv_request = (\<lambda>uri hs. Ok ''get''), hv_send = (\<lambda>_ _ w. (Ok (200, [''hello '', ''world'']), w)), 
      hv_frame = (\<lambda>body. case body of [] \<Rightarrow> (None, []) | x # xs \<Rightarrow> (Some (Ok x), xs)),
      hv_data_ref = Some, hv_bytes = (\<lambda>_ w. (Ok ''hello world'', w)), hv_write_all = (\<lambda>_ w. (Ok (), w)), hv_println = (\<lambda>_ _ w. w)\<rparr>"

definition demo_polled_net :: "('w \<Rightarrow> 'w) \<Rightarrow> ('w, string \<times> u16, nat, unit, unit) tcp_net" where
  "demo_polled_net dial = \<lparr>net_resolve = (\<lambda>h p. Ok [(h, p)]), 
     net_connect = (\<lambda>as w. case as of Inr (_ # _) \<Rightarrow> (Ok 3, dial w) | _ \<Rightarrow> (Err (), w)),
     net_nodelay = (\<lambda>_ _ w. (Err (), w)), net_from_io = id\<rparr>"

lemma demo_hyper_answers: "hyper_answers kept opened demo_hyper"
proof -
  let ?f = "\<lambda>body. case body of [] \<Rightarrow> (None, []) | x # xs \<Rightarrow> (Some (Ok x :: (string, unit) result), xs)"
  have ends: "ends_with ?f body body []" for body
    by (induction body) (simp_all add: ends_with_Cons)
  show ?thesis unfolding hyper_answers_def
    by (intro conjI allI) (auto simp: demo_hyper_def dials_by_def intro: ends)
qed

theorem h1_hyper_dials_twice_witness:
  "\<exists>w'. h1_hyper demo_hyper () (polled_tcp (demo_polled_net (\<lambda>w. w\<lparr>w_env := Suc (w_env w)\<rparr>)) (\<lambda>s w. (Ok s :: (nat, unit) result, w)))
       (\<lambda>_ _. False) (\<lambda>_ w. (Ok () :: (unit, unit) result, w)) (\<lambda>_ io w. (Ok (7, ()) :: (nat \<times> unit, unit) result, w)) (\<lambda>_ e. e)
       \<lparr>w_store = rc_empty, w_clock = 0, w_env = 4\<rparr> = Some (Value (), w')
     \<and> w_env w' = (6 :: nat)"
proof -
  let ?w = "\<lparr>w_store = rc_empty, w_clock = 0, w_env = 4\<rparr> :: (test_key, nat HyperH1Connection, nat) world"
  have net: "polled_net w_store (\<lambda>w. id (w_env w)) (demo_polled_net (\<lambda>w. w\<lparr>w_env := Suc (w_env w)\<rparr>)) (\<lambda>s w. (Ok s :: (nat, unit) result, w))
      ''httpbin.org'' 80"
    by (simp add: polled_net_def demo_polled_net_def dials_by_def)
  have shake: "dials_by w_store (\<lambda>w. id (w_env w)) 0 (\<lambda>w. (Ok (7, ()) :: (nat \<times> unit, unit) result, w))"
    by (simp add: dials_by_def)
  have uri: "hv_parse_uri demo_hyper ''http://httpbin.org/get'' =
      Ok \<lparr>uri_host = Some ''httpbin.org'', uri_scheme = Some Scheme_HTTP, uri_port_u16 = None\<rparr>" by (simp add: demo_hyper_def)
  have inv: "rc_inv (w_store ?w)" by simp
  show ?thesis
    using h1_hyper_dials_twice [where opened = id and w = ?w and V = demo_hyper and builder = "()" and is_closed = "\<lambda>_ _. False"
        and ready = "\<lambda>_ w. (Ok () :: (unit, unit) result, w)" and spawn = "\<lambda>_ e. e", OF demo_hyper_answers net shake _ uri inv]
    by simp
qed

definition demo_listener :: "('w, unit) hyper_listener" where
  "demo_listener = \<lparr>bg_bind = (\<lambda>_ w. (Ok (), w)), bg_local_addr = (\<lambda>_. ''127.0.0.1:5928''), bg_println = (\<lambda>_ w. w), bg_spawn = (\<lambda>_ w. w)\<rparr>"

definition demo_hyper2 :: "('c, 'k, 'io, nat, unit, nat, unit, nat, (unit, unit) PollConnectError, unit) hyper_lib" where
  "demo_hyper2 =
     \<lparr>y_transport = (\<lambda>_ _ w. (Err (PCE_Connect ()), w)), y_handshake = (\<lambda>_ _ w. (Ok (7, ()), w)), y_spawn = (\<lambda>_ e. e),
      y_is_ready = (\<lambda>_ _. True), Mutex_new = 1, y_lock = (\<lambda>_ w. w), y_unlock = Suc\<rparr>"

theorem h2_hyper_dials_once_witness:
  "\<exists>w'. h2_hyper demo_hyper demo_listener () (over_polled (demo_polled_net (\<lambda>w. w\<lparr>y_env := Suc (y_env w)\<rparr>)) (\<lambda>s w. (Ok s :: (nat, unit) result, w)) demo_hyper2)
       \<lparr>y_pool = PoolInner_new None, y_connecting = lt_new, y_cnt = rc_empty, y_clock = 0, y_env = 4\<rparr> = Some (Value (), w')
     \<and> y_env w' = 5"
proof -
  let ?w = "\<lparr>y_pool = PoolInner_new None, y_connecting = lt_new, y_cnt = rc_empty, y_clock = 0, y_env = 4\<rparr> :: (test_key, nat, nat, nat) hyper2_world"
  have net: "polled_net y_pool (\<lambda>w. id (y_env w)) (demo_polled_net (\<lambda>w. w\<lparr>y_env := Suc (y_env w)\<rparr>)) (\<lambda>s w. (Ok s :: (nat, unit) result, w))
      ''127.0.0.1'' 5928"
    by (simp add: polled_net_def demo_polled_net_def dials_by_def)
  have lis: "listens (\<lambda>w. id (y_env w)) demo_listener" by (simp add: listens_def demo_listener_def)
  have up: "hyper2_up id demo_hyper2" by (simp add: hyper2_up_def demo_hyper2_def dials_by_def)
  have uri: "hv_parse_uri demo_hyper ''http://127.0.0.1:5928/get'' =
      Ok \<lparr>uri_host = Some ''127.0.0.1'', uri_scheme = Some Scheme_HTTP, uri_port_u16 = Some 5928\<rparr>" by (simp add: demo_hyper_def)
  show ?thesis
    using h2_hyper_dials_once [where opened = id and w = ?w and V = demo_hyper and builder = "()", OF demo_hyper_answers net up lis uri]
    by simp
qed

end
