(* ===== verification/Spec2Isabelle.thy ===== *)
theory Spec2Isabelle
  imports H1_Client Http_Cancel Key Example_Programs Hyper_Programs
begin

text \<open>
  Verification of monoio-transports, a library of connectors, connection pools and HTTP clients
  for the single-threaded asynchronous runtime monoio. Paths are below \<open>src/src/\<close> of the
  repository, those of the examples below \<open>src/\<close>.

  \<^bold>\<open>The program.\<close> A connector turns a key into a connection. Transport connectors open sockets
  (\<open>connectors/l4_connector.rs\<close>) and TLS streams on them (\<open>connectors/tls_connector.rs\<close>); pools
  (\<open>pool/mod.rs\<close>) keep idle connections by key; combinators put a pool around a connector
  (\<open>pool/connector.rs\<close>), map its results (\<open>pool/map.rs\<close>) or mark its connections for reuse
  (\<open>pool/reuse.rs\<close>). On top, \<open>HttpConnector\<close> (\<open>http/connector.rs\<close>) yields HTTP/1.1 or HTTP/2
  connections (\<open>http/connection.rs\<close>), and two connectors do the same with hyper
  (\<open>http/hyper/mod.rs\<close>). Everything runs on one thread; calls interleave at await points only.

  \<^bold>\<open>The theories.\<close>

  \<^item> \<open>Prelude\<close>: machine types, results, awaited computations \<open>io\<close> on a world, the double-ended
    queue. \<open>Streams\<close>: runs of a source of data until its end or an error, polls and their await.
  \<^item> \<open>Transition\<close>: reachable states and invariants of step relations; the locale \<open>invariant_system\<close> is
    interpreted for every system below (\<open>sys_step\<close>, \<open>shared_step\<close>, \<open>hc_step\<close>, \<open>count_step\<close>, \<open>y_step\<close>).
    A system of tasks is a shared world and the await point of each task.
  \<^item> \<open>Forwarding\<close>: streams that forward to another stream; the locale \<open>forwards\<close> is their contract,
    \<open>forwards_twice\<close> composes it, and both are interpreted for every such stream below.
  \<^item> \<open>Std_Collections\<close> and \<open>Rc_Store\<close>: the parts of \<open>HashMap\<close>, \<open>Rc\<close> and \<open>Weak\<close> in use, each with its
    contract as a locale (\<open>hash_map_spec\<close>, \<open>rc_spec\<close>) and its interpretation.
  \<^item> \<open>Pool\<close>: \<open>Idle\<close>, \<open>PoolInner\<close> and the operations on the contents of a pool. \<open>Pool_Spec\<close>: the
    abstract pool, a first-in-first-out queue of bounded length per key (locale \<open>fifo_pool\<close>,
    interpreted on the operations), reachable pools, the ownership of connections, and the
    properties of the contents.
  \<^item> \<open>Shared_Pool\<close>: the handle \<open>Pooled\<close> with its destructor, the shared \<open>ConnectionPool\<close> and the
    background \<open>IdleTask\<close>, on a store of reference counted cells; the step relation \<open>shared_step\<close>
    of a program that uses them.
  \<^item> \<open>Connectors\<close>: the trait, ALPN metadata, \<open>ConnectorMap\<close>, \<open>Reuse\<close>, \<open>PooledConnector\<close>.
  \<^item> \<open>L4_Connector\<close> and \<open>Tls_Connector\<close>: the errors of \<open>error.rs\<close>, sockets, addresses from URIs, TLS,
    the unified connector and its streams. \<open>Key\<close>: the pool key of \<open>key.rs\<close>.
  \<^item> \<open>Pollio\<close>: poll based streams, the wrapper \<open>HyperIoWrapper\<close> between the traits of tokio and hyper,
    and the connector \<open>PollIo\<close> (\<open>connectors/pollio.rs\<close>).
  \<^item> \<open>Http_Connection\<close>: \<open>send_request\<close> for both protocols.
  \<^item> \<open>Lock_Table\<close>: the locks per key used by both HTTP/2 connectors. \<open>Lock_Protocol\<close>: tasks that take and
    return these locks; the locale \<open>lock_protocol\<close> shows once that a lock has one holder and is free
    exactly when nobody holds it, and is interpreted for both connectors.
  \<^item> \<open>Http_Connector\<close>: \<open>HttpConnector\<close> and \<open>H1Connector\<close>. \<open>Http_Client\<close>: exchanges and sessions of a client,
    over the connector, the connections and the pool. \<open>Http_Sharing\<close>: waiting calls and sessions that
    share an HTTP/2 connection. \<open>Http_Cancel\<close>: HTTP/1.1 requests whose future is dropped at an await
    point, and what the exchanges after them get. \<open>H1_Client\<close>: \<open>H1Connector\<close> with its default pool and idle task.
  \<^item> \<open>Hyper_H1\<close>, \<open>Hyper_H2\<close>: the connectors for hyper; \<open>Hyper_Client\<close>: the HTTP/2 one as its callers see it;
    \<open>Hyper_Body\<close>: the bodies between monoio-http and hyper (\<open>http/hyper/body.rs\<close>).
  \<^item> \<open>Programs\<close>: client programs, whose statements have a value, return by \<open>?\<close>, panic or do not end.
    \<open>Client_Programs\<close>: the tests of \<open>http/connector.rs\<close> and the examples \<open>https_with_tcp\<close> and
    \<open>http_with_uds\<close>; \<open>Hyper_Programs\<close>: the tests of \<open>http/hyper/mod.rs\<close>; \<open>Example_Programs\<close>: the
    example \<open>http_with_tcp\<close>, the HTTP/2 servers of this example and of the tests, and \<open>demo_unix_server\<close>. The
    tests of \<open>key.rs\<close> are in \<open>Key\<close>. They run on the definitions of the library below them, down to
    the sockets.

  \<^bold>\<open>Correspondence.\<close> A struct is a record and an enum a datatype with the same constructors, prefixed
  where a name would clash. A method is one definition that takes its receiver and returns it
  changed. What a shared reference can change (the cell of a pool, the table of locks, the
  counters of hyper connections) is part of a world that the operations pass on. An error is the
  left value of a sum; a panic is a value of \<open>panic\<close>; the undefined behaviour of unchecked
  code is the value \<open>None\<close>, proved not to occur (\<open>shared_memory_safe\<close>). An awaited call of a library
  is an argument that may change the whole world, because other tasks run meanwhile; the exceptions
  are the codec of HTTP/1.1 and the sources of body chunks (\<open>next_data\<close>), which keep a state of their own
  and leave the rest of the world alone while they are awaited. The resolver is the answers it gives at one
  moment, a function of host and port; a sweep of the idle task reads the clock once. Where the order
  of several calls matters, the code between two await points is one definition each, used by the
  function for a single call and by the steps of an interleaving: \<open>hc_step\<close> for \<open>HttpConnector\<close>,
  \<open>y_step\<close> for \<open>HyperH2Connector\<close>, both with futures dropped at any await point. A free lock may go to any
  of the tasks that wait for it there, the fair choice of the real locks included. Handles of the HTTP/2 connector for
  hyper that a program clones itself are outside the count of \<open>count_step\<close>.

  \<^bold>\<open>What is shown.\<close> Pools: refinement of the abstract queue by \<open>get\<close> and by dropping a handle,
  service in order, bounds on the length of every queue, no connection handed out twice, exact
  expiry by the idle task and its end with the pool, memory safety of the shared structure.
  Connectors: when a pool is used and what is returned, agreement of the address conversions and the
  order of their errors, transparency of the wrapped streams. HTTP: which connections return to
  a pool after a request, complete delivery of streamed responses and the only case in which
  \<open>send_request\<close> does not return, the sequence of an HTTP/2 exchange, the choice of the protocol, one
  handshake per key at a time and locks that are never lost (as a lemma, a call of \<open>connect\<close> on its own is a
  run of the interleaving); that a session of HTTP/1.1 requests dials once, and dials again after
  a request that failed; that a request cancelled before its response leaves a connection in the pool on which
  every later exchange gets the response of the one before it; that an HTTP/2 session dials and shakes hands once,
  and that the calls waiting for a handshake can finish with its connection in any order; that an idle connection of the default pool is served
  for 60 seconds and not longer once the idle task has run. Hyper: the loop over idle senders
  ends and finds the oldest usable one; the limit on handles of a connection and the exact number of handles it serves; one connection at
  a time per key; the calls that wait for it share it in any order up to its limit, and the next one dials; the wrapper reads
  the bytes of the stream inside, in both directions, without breaking the invariant of a buffer or
  a panic, and forwards its writes; bodies survive the way to hyper and back. Programs: with a
  network that connects and servers that answer, the tests of the repository and the clients among
  the examples run to their end without a panic or an error, each over the protocol it asserts; the
  test over TCP opens one connection for ten requests, the HTTP/2 test of hyper one for three, the
  HTTP/1.1 test of hyper two for two; the servers answer a request after all of its body.

  \<^bold>\<open>Bounds and loops.\<close> No loop is cut by fuel. The loop of \<open>ConnectionPool::get\<close> terminates by the
  length of its queue; the loops that depend on a library (the idle task, the payload and body loops,
  the search for an idle sender, the await of a poll function, the search for a frame with data, the
  loops of the programs over bodies and accepted requests) are
  partial functions into \<open>option\<close>, with theorems that they return; the accept loop of \<open>demo_unix_server\<close> ends by a panic only. \<open>usize\<close> values count elements in memory or are clamped to 16384, so they are natural
  numbers; ports and bytes are words. A duration is in nanoseconds.

  \<^bold>\<open>Library code.\<close> Sockets, the resolver, \<open>http::Uri\<close>, TLS, the codec and HTTP/2 client of monoio-http,
  hyper, timers, channels and locks are arguments. Their contracts are named hypotheses:
  \<open>timer_law\<close> and \<open>closed_law\<close> (idle task), \<open>sem_law\<close> (a lock with one permit), \<open>quiet_ready\<close> (a
  sender of hyper that cannot become ready is closed), \<open>tokio_buf_law\<close> and \<open>hyper_buf_law\<close> (read
  buffers), \<open>reads\<close> (a reader that appends what its source yields), \<open>slot_law\<close> and \<open>frame_law\<close>
  (\<open>MaybeArmedBoxFuture\<close> and the frames of hyper), \<open>undisturbed\<close> and
  \<open>hyper_undisturbed\<close> (a transport that leaves the connector alone), \<open>answers\<close> (a peer that answers), \<open>in_order\<close> (one that answers in the order of the requests),
  \<open>h2_returns\<close> (requests of an HTTP/2 client return), and the negotiation of advertised protocols only.
  The programs add \<open>serves\<close> and \<open>hyper_answers\<close> (a server that answers), \<open>transport_up\<close>, \<open>tls_up\<close>, \<open>tcp_dials\<close>
  and \<open>polled_net\<close> (the resolver has addresses for the one host and port the program uses, by \<open>net_reaches\<close>, and connecting
  to these succeeds; the last two with a count of connections), \<open>h2_up\<close> and
  \<open>hyper2_up\<close> (locks that are granted and handshakes that succeed), \<open>listens\<close> and \<open>bodies_end\<close>. Each property that uses one has a witness with a concrete instance.

  \<^bold>\<open>Not modelled.\<close> The messages of errors and the logging have no effect on the state; the conversion of the empty type
  \<open>Infallible\<close> (\<open>key.rs\<close>) has no arguments to describe;
  \<open>lib.rs\<close> and \<open>http/mod.rs\<close> only declare modules and export names. The endless
  loops that accept sockets for the background servers of \<open>http_with_tcp\<close> and of the hyper tests are modelled by their
  rounds and handed to the executor, which runs them beside the client. The values a program still owns when
  it ends are freed with it.
\<close>

end
